theory Spec2Isabelle
  imports Main "HOL-Library.Sublist" "HOL-Library.Word"
begin

section \<open>JavaScript values used by the application\<close>

text \<open>
  Strings are character lists. Counts such as \<open>maxRetries\<close> and \<open>attempt\<close> are JavaScript
  numbers that only ever hold integers here; they are modelled as \<open>int\<close>.
\<close>

type_synonym bytes = "8 word list"

text \<open>
  A value that a \<open>throw\<close> (or a rejected promise) carries: an \<open>Error\<close> object with its
  \<open>name\<close> and \<open>message\<close>, or any other value, kept by the string that \<open>String(v)\<close> gives.
\<close>

datatype thrown = ErrorObj (err_name: string) (err_message: string) | OtherValue string

definition new_Error :: "string \<Rightarrow> thrown" where
  "new_Error m = ErrorObj ''Error'' m"

text \<open>\<open>String(v)\<close>: an error prints as \<open>name: message\<close>, or as one of them when the other is empty.\<close>

fun String :: "thrown \<Rightarrow> string" where
  "String (ErrorObj n m) = (if m = [] then n else if n = [] then m else n @ '': '' @ m)"
| "String (OtherValue s) = s"

text \<open>\<open>error instanceof Error ? error : new Error(String(error))\<close>\<close>

fun as_Error :: "thrown \<Rightarrow> thrown" where
  "as_Error (ErrorObj n m) = ErrorObj n m"
| "as_Error (OtherValue s) = new_Error s"

text \<open>\<open>e.message\<close> of a value that \<open>as_Error\<close> has made an \<open>Error\<close>.\<close>

fun message :: "thrown \<Rightarrow> string" where
  "message (ErrorObj n m) = m"
| "message (OtherValue s) = s"

text \<open>\<open>e?.message\<close>: \<open>undefined\<close> for a value that is no \<open>Error\<close>.\<close>

fun opt_message :: "thrown \<Rightarrow> string option" where
  "opt_message (ErrorObj n m) = Some m"
| "opt_message (OtherValue s) = None"

text \<open>\<open>s.includes(t)\<close> on strings\<close>

fun str_includes :: "string \<Rightarrow> string \<Rightarrow> bool" where
  "str_includes [] t = (t = [])"
| "str_includes (c # cs) t = (prefix t (c # cs) \<or> str_includes cs t)"

text \<open>
  \<open>String(n)\<close> for an integral number \<open>n\<close>, as a template literal prints it: the decimal
  digits, after a minus sign when \<open>n\<close> is negative (numbers from \<open>10^21\<close> on, which print
  with an exponent, do not occur as attempt counts).
\<close>

definition digit_char :: "nat \<Rightarrow> char" where
  "digit_char d = char_of (48 + d)"

fun decimal :: "nat \<Rightarrow> string" where
  "decimal n = (if n < 10 then [digit_char n] else decimal (n div 10) @ [digit_char (n mod 10)])"

declare decimal.simps [simp del]

definition Number_toString :: "int \<Rightarrow> string" where
  "Number_toString x = (if 0 \<le> x then decimal (nat x) else CHR ''-'' # decimal (nat (- x)))"

section \<open>The storage module: \<open>app/lib/storage.ts\<close>\<close>

subsection \<open>The world the module runs in\<close>

text \<open>An object of the bucket, as \<open>save\<close> stores it.\<close>

record gcs_object =
  data :: bytes
  obj_contentType :: string
  originalName :: string
  obj_fileId :: string
  obj_userId :: string
  timeCreated :: int
  updated :: int

datatype log_arg = Str string | Val thrown

text \<open>What a run does that an observer can see, in order.\<close>

datatype event =
    NewStorage
  | Save string
  | GetMetadata string
  | Exists string
  | Download string
  | Delete string
  | Copy string string
  | Sleep int
  | ConsoleLog "log_arg list"
  | ConsoleWarn "log_arg list"
  | ConsoleError "log_arg list"

text \<open>
  The module variables \<open>storage\<close>, \<open>bucket\<close> and \<open>initializationError\<close> (the first two only as
  null or not), the environment variables, the bucket's objects, a clock in milliseconds, and
  the failures to come: every call into the storage SDK takes the head of \<open>faults\<close>,
  \<open>Some e\<close> makes that call reject with \<open>e\<close> and leaves the bucket alone, \<open>None\<close> (or an empty
  list) lets it act on \<open>objects\<close>.
\<close>

record world =
  storage :: bool
  bucket :: bool
  initializationError :: "thrown option"
  GCS_BUCKET_NAME :: string
  objects :: "string \<Rightarrow> gcs_object option"
  now :: int
  faults :: "thrown option list"
  trace :: "event list"

definition emit :: "event \<Rightarrow> world \<Rightarrow> world" where
  "emit e w = w\<lparr>trace := trace w @ [e]\<rparr>"

definition next_fault :: "world \<Rightarrow> thrown option \<times> world" where
  "next_fault w = (case faults w of [] \<Rightarrow> (None, w) | f # fs \<Rightarrow> (f, w\<lparr>faults := fs\<rparr>))"

text \<open>\<open>await new Promise(resolve => setTimeout(resolve, ms))\<close>\<close>

definition sleep :: "int \<Rightarrow> world \<Rightarrow> world" where
  "sleep ms w = emit (Sleep ms) (w\<lparr>now := now w + ms\<rparr>)"

subsection \<open>The SDK calls\<close>

record save_options =
  so_contentType :: string
  so_originalName :: string
  so_fileId :: string
  so_userId :: string

definition gcs_save :: "string \<Rightarrow> bytes \<Rightarrow> save_options \<Rightarrow> world \<Rightarrow> thrown option \<times> world" where
  "gcs_save p file opts w =
     (case next_fault (emit (Save p) w) of
        (Some e, w1) \<Rightarrow> (Some e, w1)
      | (None, w1) \<Rightarrow>
          (None, w1\<lparr>objects := (objects w1)(p \<mapsto>
             \<lparr>data = file, obj_contentType = so_contentType opts,
              originalName = so_originalName opts, obj_fileId = so_fileId opts,
              obj_userId = so_userId opts, timeCreated = now w1, updated = now w1\<rparr>)\<rparr>))"

definition gcs_getMetadata :: "string \<Rightarrow> world \<Rightarrow> (thrown + gcs_object) \<times> world" where
  "gcs_getMetadata p w =
     (case next_fault (emit (GetMetadata p) w) of
        (Some e, w1) \<Rightarrow> (Inl e, w1)
      | (None, w1) \<Rightarrow>
          (case objects w1 p of
             None \<Rightarrow> (Inl (new_Error (''No such object: '' @ p)), w1)
           | Some ob \<Rightarrow> (Inr ob, w1)))"

definition gcs_exists :: "string \<Rightarrow> world \<Rightarrow> (thrown + bool) \<times> world" where
  "gcs_exists p w =
     (case next_fault (emit (Exists p) w) of
        (Some e, w1) \<Rightarrow> (Inl e, w1)
      | (None, w1) \<Rightarrow> (Inr (objects w1 p \<noteq> None), w1))"

definition gcs_download :: "string \<Rightarrow> world \<Rightarrow> (thrown + bytes) \<times> world" where
  "gcs_download p w =
     (case next_fault (emit (Download p) w) of
        (Some e, w1) \<Rightarrow> (Inl e, w1)
      | (None, w1) \<Rightarrow>
          (case objects w1 p of
             None \<Rightarrow> (Inl (new_Error (''No such object: '' @ p)), w1)
           | Some ob \<Rightarrow> (Inr (data ob), w1)))"

definition gcs_delete :: "string \<Rightarrow> world \<Rightarrow> thrown option \<times> world" where
  "gcs_delete p w =
     (case next_fault (emit (Delete p) w) of
        (Some e, w1) \<Rightarrow> (Some e, w1)
      | (None, w1) \<Rightarrow>
          (case objects w1 p of
             None \<Rightarrow> (Some (new_Error (''No such object: '' @ p)), w1)
           | Some ob \<Rightarrow> (None, w1\<lparr>objects := (objects w1)(p := None)\<rparr>)))"

definition gcs_copy :: "string \<Rightarrow> string \<Rightarrow> world \<Rightarrow> thrown option \<times> world" where
  "gcs_copy src dst w =
     (case next_fault (emit (Copy src dst) w) of
        (Some e, w1) \<Rightarrow> (Some e, w1)
      | (None, w1) \<Rightarrow>
          (case objects w1 src of
             None \<Rightarrow> (Some (new_Error (''No such object: '' @ src)), w1)
           | Some ob \<Rightarrow>
               (None, w1\<lparr>objects := (objects w1)(dst \<mapsto>
                  ob\<lparr>timeCreated := now w1, updated := now w1\<rparr>)\<rparr>)))"

subsection \<open>Initialization\<close>

text \<open>The signs that open the module's console lines, as their UTF-8 bytes: U+2705 and U+274C.\<close>

definition check_mark :: string where
  "check_mark = [CHR 0xE2, CHR 0x9C, CHR 0x85]"

definition cross_mark :: string where
  "cross_mark = [CHR 0xE2, CHR 0x9D, CHR 0x8C]"

text \<open>
  \<open>initializeStorage\<close>: the \<open>try\<close> block builds the client (parsing the credentials when they
  are JSON), which may throw, and takes the bucket when \<open>GCS_BUCKET_NAME\<close> is set.
\<close>

definition initializeStorage :: "world \<Rightarrow> world" where
  "initializeStorage w =
     (if storage w then w
      else
        (case next_fault (emit NewStorage w) of
           (Some error, w1) \<Rightarrow>
             (emit (ConsoleError [Str (cross_mark @ '' Failed to initialize Google Cloud Storage:''),
                                 Val error]) w1)
               \<lparr>initializationError :=
                  Some (case error of ErrorObj n m \<Rightarrow> error
                        | OtherValue s \<Rightarrow> new_Error ''Unknown initialization error'')\<rparr>
         | (None, w1) \<Rightarrow>
             emit (ConsoleLog [Str (check_mark @ '' Google Cloud Storage initialized'')])
               (w1\<lparr>storage := True,
                   bucket := (if GCS_BUCKET_NAME w1 \<noteq> [] then True else bucket w1)\<rparr>)))"

definition ensureInitialized :: "world \<Rightarrow> thrown option \<times> world" where
  "ensureInitialized w =
     (let w1 = (if \<not> storage w then initializeStorage w else w)
      in (initializationError w1, w1))"

subsection \<open>\<open>uploadFile\<close>\<close>

record FileMetadata =
  fm_id :: string
  fm_name :: string
  fm_path :: string
  fm_size :: int
  fm_contentType :: string
  fm_url :: string
  fm_created :: int
  fm_updated :: int

text \<open>\<open>fileName.split('.').pop()\<close>: what follows the last dot, the whole name when it has none.\<close>

definition last_segment :: "string \<Rightarrow> string" where
  "last_segment s = rev (takeWhile (\<lambda>c. c \<noteq> CHR ''.'') (rev s))"

text \<open>The character class \<open>[a-zA-Z0-9._-]\<close>.\<close>

definition is_name_char :: "char \<Rightarrow> bool" where
  "is_name_char c =
     (let n = (of_char c :: nat) in
      (97 \<le> n \<and> n \<le> 122) \<or> (65 \<le> n \<and> n \<le> 90) \<or> (48 \<le> n \<and> n \<le> 57) \<or>
      c = CHR ''.'' \<or> c = CHR ''_'' \<or> c = CHR ''-'')"

text \<open>
  \<open>fileName.replace(/[^a-zA-Z0-9._-]/g, '_')\<close> replaces each UTF-16 code unit outside the
  class. On the UTF-8 bytes of the name: a character of two or three bytes is one code unit,
  a character of four bytes is two (a surrogate pair), and the bytes that continue a character
  add nothing.
\<close>

definition sanitize_byte :: "char \<Rightarrow> string" where
  "sanitize_byte c =
     (let n = (of_char c :: nat) in
      if n < 128 then (if is_name_char c then [c] else ''_'')
      else if n < 192 then []
      else if n < 240 then ''_''
      else ''__'')"

definition sanitize :: "string \<Rightarrow> string" where
  "sanitize s = concat (map sanitize_byte s)"

text \<open>The constants of one \<open>uploadFile\<close> call that its loop reads.\<close>

record upload_vars =
  uv_file :: bytes
  uv_fileName :: string
  uv_contentType :: string
  uv_userId :: "string option"
  uv_fileId :: string
  uv_sanitizedName :: string
  uv_filePath :: string
  uv_maxRetries :: int

text \<open>
  The body of the \<open>try\<close> block of one attempt. The service reports the size of an object as
  the decimal text of its length, which \<open>parseInt\<close> reads back; dates are kept as times in
  milliseconds.
\<close>

definition uploadFile_try :: "upload_vars \<Rightarrow> world \<Rightarrow> (thrown + FileMetadata) \<times> world" where
  "uploadFile_try v w =
     (case gcs_save (uv_filePath v) (uv_file v)
             \<lparr>so_contentType = uv_contentType v, so_originalName = uv_fileName v,
              so_fileId = uv_fileId v,
              so_userId = (case uv_userId v of None \<Rightarrow> ''anonymous''
                           | Some u \<Rightarrow> if u = [] then ''anonymous'' else u)\<rparr> w of
        (Some e, w1) \<Rightarrow> (Inl e, w1)
      | (None, w1) \<Rightarrow>
          (case gcs_getMetadata (uv_filePath v) w1 of
             (Inl e, w2) \<Rightarrow> (Inl e, w2)
           | (Inr metadata, w2) \<Rightarrow>
               (Inr \<lparr>fm_id = uv_fileId v, fm_name = uv_sanitizedName v, fm_path = uv_filePath v,
                     fm_size = int (length (data metadata)),
                     fm_contentType = (if obj_contentType metadata \<noteq> [] then obj_contentType metadata
                                       else uv_contentType v),
                     fm_url = ''gs://'' @ GCS_BUCKET_NAME w2 @ ''/'' @ uv_filePath v,
                     fm_created = timeCreated metadata, fm_updated = updated metadata\<rparr>, w2)))"

function uploadFile_loop ::
  "upload_vars \<Rightarrow> int \<Rightarrow> thrown option \<Rightarrow> world \<Rightarrow> (thrown + FileMetadata) \<times> world" where
  "uploadFile_loop v attempt lastError w =
     (if attempt \<le> uv_maxRetries v then
        (case uploadFile_try v w of
           (Inr r, w1) \<Rightarrow> (Inr r, w1)
         | (Inl error, w1) \<Rightarrow>
             (let lastError' = as_Error error;
                  w2 = emit (ConsoleError
                         [Str (''Upload attempt '' @ Number_toString attempt @ ''/'' @
                               Number_toString (uv_maxRetries v) @ '' failed:''),
                          Str (message lastError')]) w1;
                  w3 = (if attempt < uv_maxRetries v
                        then sleep (500 * 2 ^ nat (attempt - 1)) w2 else w2)
              in uploadFile_loop v (attempt + 1) (Some lastError') w3))
      else
        (Inl (new_Error (''Failed to upload file after '' @ Number_toString (uv_maxRetries v) @
                         '' attempts: '' @
                         (case lastError of None \<Rightarrow> ''undefined'' | Some e \<Rightarrow> message e))), w))"
  by pat_completeness auto
termination
  by (relation "measure (\<lambda>(v, attempt, lastError, w). nat (uv_maxRetries v + 1 - attempt))") auto

declare uploadFile_loop.simps [simp del]

text \<open>
  The default parameter \<open>maxRetries: number = 3\<close>. In \<open>uploadFile\<close> the parameter \<open>uuid\<close>
  stands for what \<open>uuidv4()\<close> returns.
\<close>

definition default_maxRetries :: "int option \<Rightarrow> int" where
  "default_maxRetries maxRetries_arg = (case maxRetries_arg of None \<Rightarrow> 3 | Some n \<Rightarrow> n)"

definition uploadFile ::
  "bytes \<Rightarrow> string \<Rightarrow> string \<Rightarrow> string option \<Rightarrow> string option \<Rightarrow> int option \<Rightarrow> string \<Rightarrow> world
     \<Rightarrow> (thrown + FileMetadata) \<times> world" where
  "uploadFile file fileName contentType userId folder maxRetries_arg uuid w =
     (let maxRetries = default_maxRetries maxRetries_arg in
      case ensureInitialized w of
        (Some e, w1) \<Rightarrow> (Inl e, w1)
      | (None, w1) \<Rightarrow>
          if \<not> bucket w1 then
            (Inl (new_Error ''GCS bucket not initialized. Check GCS_BUCKET_NAME environment variable.''), w1)
          else if length file = 0 then (Inl (new_Error ''File data is empty or invalid''), w1)
          else if fileName = [] then (Inl (new_Error ''File name is required''), w1)
          else
            (let fileId = uuid;
                 extension = (if last_segment fileName \<noteq> [] then last_segment fileName else ''bin'');
                 sanitizedName = sanitize fileName;
                 userFolder = (case userId of None \<Rightarrow> ''public''
                               | Some u \<Rightarrow> if u = [] then ''public'' else ''users/'' @ u);
                 folderPath = (case folder of None \<Rightarrow> ''''
                               | Some f \<Rightarrow> if f = [] then '''' else f @ ''/'');
                 filePath = userFolder @ ''/'' @ folderPath @ fileId @ ''.'' @ extension
             in uploadFile_loop
                  \<lparr>uv_file = file, uv_fileName = fileName, uv_contentType = contentType,
                   uv_userId = userId, uv_fileId = fileId, uv_sanitizedName = sanitizedName,
                   uv_filePath = filePath, uv_maxRetries = maxRetries\<rparr> 1 None w1))"

subsection \<open>\<open>readFile\<close>\<close>

text \<open>The body of the \<open>try\<close> block of one attempt.\<close>

definition readFile_try :: "string \<Rightarrow> world \<Rightarrow> (thrown + bytes) \<times> world" where
  "readFile_try filePath w =
     (case gcs_exists filePath w of
        (Inl e, w1) \<Rightarrow> (Inl e, w1)
      | (Inr exists, w1) \<Rightarrow>
          if \<not> exists then (Inl (new_Error (''File not found: '' @ filePath)), w1)
          else gcs_download filePath w1)"

function readFile_loop ::
  "string \<Rightarrow> int \<Rightarrow> int \<Rightarrow> thrown option \<Rightarrow> world \<Rightarrow> (thrown + bytes) \<times> world" where
  "readFile_loop filePath maxRetries attempt lastError w =
     (if attempt \<le> maxRetries then
        (case readFile_try filePath w of
           (Inr contents, w1) \<Rightarrow> (Inr contents, w1)
         | (Inl error, w1) \<Rightarrow>
             (let lastError' = as_Error error in
              if str_includes (message lastError') ''not found'' then (Inl lastError', w1)
              else
                (let w2 = emit (ConsoleWarn
                           [Str (''Read attempt '' @ Number_toString attempt @ ''/'' @
                                 Number_toString maxRetries @ '' failed:''),
                            Str (message lastError')]) w1;
                     w3 = (if attempt < maxRetries then sleep (300 * attempt) w2 else w2)
                 in readFile_loop filePath maxRetries (attempt + 1) (Some lastError') w3)))
      else
        (Inl (case lastError of
                Some e \<Rightarrow> e
              | None \<Rightarrow> new_Error (''Failed to read file after '' @ Number_toString maxRetries @
                                   '' attempts'')), w))"
  by pat_completeness auto
termination
  by (relation "measure (\<lambda>(filePath, maxRetries, attempt, lastError, w). nat (maxRetries + 1 - attempt))")
     auto

declare readFile_loop.simps [simp del]

definition readFile :: "string \<Rightarrow> int option \<Rightarrow> world \<Rightarrow> (thrown + bytes) \<times> world" where
  "readFile filePath maxRetries_arg w =
     (let maxRetries = default_maxRetries maxRetries_arg in
      case ensureInitialized w of
        (Some e, w1) \<Rightarrow> (Inl e, w1)
      | (None, w1) \<Rightarrow>
          if \<not> bucket w1 then
            (Inl (new_Error ''GCS bucket not initialized. Check GCS_BUCKET_NAME environment variable.''),
             emit (ConsoleError [Str (cross_mark @ '' GCS bucket not initialized'')]) w1)
          else if filePath = [] then (Inl (new_Error ''File path is required''), w1)
          else readFile_loop filePath maxRetries 1 None w1)"

subsection \<open>\<open>deleteFile\<close>, \<open>copyFile\<close>, \<open>moveFile\<close>\<close>

text \<open>The \<open>try\<close> block of \<open>deleteFile\<close>: the existence check, then the delete.\<close>

definition deleteFile_try :: "string \<Rightarrow> world \<Rightarrow> thrown option \<times> world" where
  "deleteFile_try filePath w =
     (case gcs_exists filePath w of
        (Inl e, w1) \<Rightarrow> (Some e, w1)
      | (Inr exists, w1) \<Rightarrow> if exists then gcs_delete filePath w1 else (None, w1))"

definition deleteFile :: "string \<Rightarrow> world \<Rightarrow> thrown option \<times> world" where
  "deleteFile filePath w =
     (case ensureInitialized w of
        (Some e, w1) \<Rightarrow> (Some e, w1)
      | (None, w1) \<Rightarrow>
          if \<not> bucket w1 then (Some (new_Error ''GCS bucket not initialized''), w1)
          else
            (case deleteFile_try filePath w1 of
               (None, w2) \<Rightarrow> (None, w2)
             | (Some error, w2) \<Rightarrow>
                 (None, emit (ConsoleError [Str ''Error deleting file:'', Val error]) w2)))"

definition copyFile :: "string \<Rightarrow> string \<Rightarrow> world \<Rightarrow> thrown option \<times> world" where
  "copyFile sourcePath destinationPath w =
     (case ensureInitialized w of
        (Some e, w1) \<Rightarrow> (Some e, w1)
      | (None, w1) \<Rightarrow>
          if \<not> bucket w1 then (Some (new_Error ''GCS bucket not initialized''), w1)
          else
            (case gcs_exists sourcePath w1 of
               (Inl e, w2) \<Rightarrow> (Some e, w2)
             | (Inr exists, w2) \<Rightarrow>
                 if \<not> exists then (Some (new_Error ''Source file not found''), w2)
                 else gcs_copy sourcePath destinationPath w2))"

definition moveFile :: "string \<Rightarrow> string \<Rightarrow> world \<Rightarrow> thrown option \<times> world" where
  "moveFile sourcePath destinationPath w =
     (case copyFile sourcePath destinationPath w of
        (Some e, w1) \<Rightarrow> (Some e, w1)
      | (None, w1) \<Rightarrow> deleteFile sourcePath w1)"

section \<open>PDF to image conversion in the browser\<close>

record File =
  file_name :: string
  file_type :: string
  file_size :: nat

record PdfConversionResult =
  imageUrl :: string
  pdf_file :: "File option"
  pdf_error :: "string option"

text \<open>The result every failing branch builds: \<open>{ imageUrl: "", file: null, error }\<close>.\<close>

definition failure :: "string \<Rightarrow> PdfConversionResult" where
  "failure msg = \<lparr>imageUrl = [], pdf_file = None, pdf_error = Some msg\<rparr>"

text \<open>
  What the browser and the PDF library do during one call of \<open>attemptPdfConversion\<close>:
  for each step that can throw, the value thrown (or none), and for each step that yields a
  value, that value. A parsed document is kept by its number of pages (\<open>None\<close> for a null
  document), a blob by its bytes.
\<close>

record pdf_outcomes =
  import_pdfjs :: "thrown option"
  arrayBuffer :: "thrown + nat"
  getDocument :: "thrown + nat option"
  getDocument_again :: "thrown + nat option"
  getPage :: "thrown option"
  getViewport :: "thrown option"
  createElement :: "thrown option"
  getContext :: bool
  render :: "thrown option"
  has_toBlob :: bool
  toBlob :: "bytes option"
  toDataURL_blob :: "bytes option"
  createObjectURL :: "thrown + string"

datatype browser_event =
    AttemptPdfConversion
  | Delay int
  | Warn string

text \<open>
  The browser: whether \<open>window\<close> and \<open>document\<close> are defined, the module variable
  \<open>pdfjsLib\<close> (null or not), what each call of \<open>attemptPdfConversion\<close> will meet (by the
  number of the call), the calls made so far, and what an observer sees.
\<close>

record browser =
  has_window :: bool
  has_document :: bool
  pdfjsLib :: bool
  outcomes :: "nat \<Rightarrow> pdf_outcomes"
  calls :: nat
  seen :: "browser_event list"

definition note_event :: "browser_event \<Rightarrow> browser \<Rightarrow> browser" where
  "note_event e b = b\<lparr>seen := seen b @ [e]\<rparr>"

definition delay :: "int \<Rightarrow> browser \<Rightarrow> browser" where
  "delay ms b = note_event (Delay ms) b"

text \<open>
  Lower case of the letters A to Z; the \<open>i\<close> flag of a regular expression folds no other
  character onto them.
\<close>

definition lower_char :: "char \<Rightarrow> char" where
  "lower_char c =
     (let n = (of_char c :: nat) in if 65 \<le> n \<and> n \<le> 90 then char_of (n + 32) else c)"

definition toLowerCase :: "string \<Rightarrow> string" where
  "toLowerCase s = map lower_char s"

text \<open>\<open>e?.message || String(e)\<close>\<close>

definition message_or_String :: "thrown \<Rightarrow> string" where
  "message_or_String e =
     (case opt_message e of
        Some m \<Rightarrow> if m \<noteq> [] then m else String e
      | None \<Rightarrow> String e)"

text \<open>\<open>/(worker|postmessage|detached|transfer)/i.test(msg)\<close>\<close>

definition worker_trouble :: "string \<Rightarrow> bool" where
  "worker_trouble msg =
     (let m = toLowerCase msg in
      str_includes m ''worker'' \<or> str_includes m ''postmessage'' \<or>
      str_includes m ''detached'' \<or> str_includes m ''transfer'')"

text \<open>\<open>name.replace(/\.pdf$/i, "")\<close>\<close>

definition strip_pdf :: "string \<Rightarrow> string" where
  "strip_pdf name =
     (if suffix ''.pdf'' (toLowerCase name) then take (length name - 4) name else name)"

text \<open>
  \<open>loadPdfJs\<close>, called when no other load is under way: the library is imported once and
  kept; a failed import is forgotten, so that the next call tries again.
\<close>

definition loadPdfJs :: "pdf_outcomes \<Rightarrow> browser \<Rightarrow> thrown option \<times> browser" where
  "loadPdfJs oc b =
     (if pdfjsLib b then (None, b)
      else if \<not> has_window b
        then (Some (new_Error ''PDF rendering is only available in the browser''), b)
      else
        (case import_pdfjs oc of
           Some err \<Rightarrow> (Some err, b)
         | None \<Rightarrow> (None, b\<lparr>pdfjsLib := True\<rparr>)))"

text \<open>From \<open>if (!pdf || pdf.numPages === 0)\<close> to the end of the \<open>try\<close> block.\<close>

definition render_first_page :: "pdf_outcomes \<Rightarrow> File \<Rightarrow> nat option \<Rightarrow> thrown + PdfConversionResult" where
  "render_first_page oc f pdf =
     (if pdf = None \<or> pdf = Some 0 then Inr (failure ''PDF has no pages'')
      else
        (case getPage oc of
           Some e \<Rightarrow> Inl e
         | None \<Rightarrow>
             (case getViewport oc of
                Some e \<Rightarrow> Inl e
              | None \<Rightarrow>
                  (case createElement oc of
                     Some e \<Rightarrow> Inl e
                   | None \<Rightarrow>
                       if \<not> getContext oc then Inr (failure ''Could not get 2D canvas context'')
                       else
                         (case render oc of
                            Some e \<Rightarrow> Inl e
                          | None \<Rightarrow>
                              (let blob = (if \<not> has_toBlob oc then None else toBlob oc);
                                   finalBlob = (case blob of Some bl \<Rightarrow> Some bl
                                                | None \<Rightarrow> toDataURL_blob oc)
                               in case finalBlob of
                                    None \<Rightarrow> Inr (failure ''Failed to create image blob'')
                                  | Some png \<Rightarrow>
                                      (let originalName = strip_pdf (file_name f);
                                           imageFile = \<lparr>file_name = originalName @ ''.png'',
                                                        file_type = ''image/png'',
                                                        file_size = length png\<rparr>
                                       in case createObjectURL oc of
                                            Inl e \<Rightarrow> Inl e
                                          | Inr url \<Rightarrow>
                                              Inr \<lparr>imageUrl = url, pdf_file = Some imageFile,
                                                   pdf_error = None\<rparr>)))))))"

text \<open>The \<open>try\<close> block of \<open>attemptPdfConversion\<close>.\<close>

definition attemptPdfConversion_try ::
  "pdf_outcomes \<Rightarrow> File option \<Rightarrow> browser \<Rightarrow> (thrown + PdfConversionResult) \<times> browser" where
  "attemptPdfConversion_try oc file_arg b =
     (if \<not> has_window b \<or> \<not> has_document b
        then (Inr (failure ''Not running in a browser context''), b)
      else
        (case file_arg of
           None \<Rightarrow> (Inr (failure ''Invalid or empty file''), b)
         | Some f \<Rightarrow>
             if file_size f = 0 then (Inr (failure ''Invalid or empty file''), b)
             else if \<not> str_includes (file_type f) ''pdf'' \<and>
                     \<not> suffix ''.pdf'' (toLowerCase (file_name f))
               then (Inr (failure ''File is not a PDF''), b)
             else
               (case loadPdfJs oc b of
                  (Some e, b1) \<Rightarrow> (Inl e, b1)
                | (None, b1) \<Rightarrow>
                    (case arrayBuffer oc of
                       Inl e \<Rightarrow> (Inr (failure (''Failed to read file: '' @ message_or_String e)), b1)
                     | Inr byteLength \<Rightarrow>
                         if byteLength = 0 then (Inr (failure ''File is empty''), b1)
                         else
                           (case getDocument oc of
                              Inr pdf \<Rightarrow> (render_first_page oc f pdf, b1)
                            | Inl e \<Rightarrow>
                                (let msg = message_or_String e in
                                 if worker_trouble msg then
                                   (case getDocument_again oc of
                                      Inr pdf \<Rightarrow> (render_first_page oc f pdf, b1)
                                    | Inl retryErr \<Rightarrow>
                                        (Inr (failure (''PDF parsing failed: '' @
                                                       message_or_String retryErr)), b1))
                                 else (Inr (failure (''PDF parsing failed: '' @ msg)), b1)))))))"

text \<open>\<open>attemptPdfConversion\<close>: the \<open>try\<close> block, and the \<open>catch\<close> that turns a throw into a result.\<close>

definition attemptPdfConversion :: "File option \<Rightarrow> browser \<Rightarrow> (thrown + PdfConversionResult) \<times> browser" where
  "attemptPdfConversion file_arg b =
     (let b0 = note_event AttemptPdfConversion (b\<lparr>calls := calls b + 1\<rparr>) in
      case attemptPdfConversion_try (outcomes b (calls b)) file_arg b0 of
        (Inr r, b1) \<Rightarrow> (Inr r, b1)
      | (Inl err, b1) \<Rightarrow> (Inr (failure (''Failed to convert PDF: '' @ message_or_String err)), b1))"

function convertPdfToImage_loop ::
  "File option \<Rightarrow> int \<Rightarrow> int \<Rightarrow> thrown option \<Rightarrow> browser \<Rightarrow> (thrown + PdfConversionResult) \<times> browser" where
  "convertPdfToImage_loop file_arg maxRetries attempt lastError b =
     (if attempt \<le> maxRetries then
        (case attemptPdfConversion file_arg b of
           (Inr result, b1) \<Rightarrow>
             (case pdf_error result of
                Some e \<Rightarrow>
                  if e \<noteq> [] \<and> attempt < maxRetries then
                    convertPdfToImage_loop file_arg maxRetries (attempt + 1) lastError
                      (delay (500 * attempt)
                         (note_event (Warn (''PDF conversion attempt '' @ Number_toString attempt @
                                            '' failed: '' @ e @ ''. Retrying...'')) b1))
                  else (Inr result, b1)
              | None \<Rightarrow> (Inr result, b1))
         | (Inl err, b1) \<Rightarrow>
             (let b2 = note_event (Warn (''PDF conversion attempt '' @ Number_toString attempt @
                                         '' threw error: '' @
                                         (case opt_message err of None \<Rightarrow> ''undefined'' | Some m \<Rightarrow> m) @
                                         ''. Retrying...'')) b1;
                  b3 = (if attempt < maxRetries then delay (500 * attempt) b2 else b2)
              in convertPdfToImage_loop file_arg maxRetries (attempt + 1) (Some err) b3))
      else
        (Inr (failure (''Failed after '' @ Number_toString maxRetries @ '' attempts: '' @
                       (case lastError of
                          None \<Rightarrow> ''Unknown error''
                        | Some err \<Rightarrow>
                            (case opt_message err of
                               None \<Rightarrow> ''Unknown error''
                             | Some m \<Rightarrow> if m \<noteq> [] then m else ''Unknown error'')))), b))"
  by pat_completeness auto
termination
  by (relation "measure (\<lambda>(file_arg, maxRetries, attempt, lastError, b). nat (maxRetries + 1 - attempt))")
     auto

declare convertPdfToImage_loop.simps [simp del]

definition convertPdfToImage ::
  "File option \<Rightarrow> int option \<Rightarrow> browser \<Rightarrow> (thrown + PdfConversionResult) \<times> browser" where
  "convertPdfToImage file_arg maxRetries_arg b =
     convertPdfToImage_loop file_arg (default_maxRetries maxRetries_arg) 1 None b"

section \<open>The OAuth callback handler\<close>


















section \<open>The trial tracker component\<close>

text \<open>The slices \<open>trial\<close> and \<open>auth\<close> of the store that the component reads.\<close>

record trial =
  t_used :: int
  t_remaining :: int
  t_max :: int

record api_store =
  trial :: trial
  isAuthenticated :: bool

record TrialTrackerProps =
  className :: "string option"
  showUpgradeLink :: "bool option"

datatype status_message =
    TrialExhausted
  | OnlyOneRemaining
  | FreeRemaining int string

text \<open>
  What the component renders: the class of the box, the label \<open>used/max used\<close>, the colour
  and the width of the bar (the quotient \<open>used / max * 100\<close>, kept as numerator and
  denominator), the status line and whether the link to the plans is there.
\<close>

record tracker_view =
  box_class :: string
  usage_label :: string
  progress_color :: string
  progress_width :: "int \<times> int"
  status :: status_message
  upgrade_link :: bool

definition getColorClass :: "int \<Rightarrow> string" where
  "getColorClass remaining =
     (if remaining = 0 then ''text-red-600 bg-red-50 border-red-200''
      else if remaining = 1 then ''text-orange-600 bg-orange-50 border-orange-200''
      else ''text-green-600 bg-green-50 border-green-200'')"

definition getProgressColor :: "int \<Rightarrow> string" where
  "getProgressColor remaining =
     (if remaining = 0 then ''bg-red-500''
      else if remaining = 1 then ''bg-orange-500''
      else ''bg-green-500'')"

definition TrialTracker :: "TrialTrackerProps \<Rightarrow> api_store \<Rightarrow> tracker_view option" where
  "TrialTracker props store =
     (let className = (case className props of None \<Rightarrow> [] | Some c \<Rightarrow> c);
          showUpgradeLink = (case showUpgradeLink props of None \<Rightarrow> True | Some b \<Rightarrow> b)
      in
      if \<not> isAuthenticated store then None
      else
        (let used = t_used (trial store); remaining = t_remaining (trial store);
             max = t_max (trial store)
         in Some
           \<lparr>box_class = ''rounded-lg border p-3 '' @ getColorClass remaining @ '' '' @ className,
            usage_label = Number_toString used @ ''/'' @ Number_toString max @ '' used'',
            progress_color = getProgressColor remaining,
            progress_width = (used * 100, max),
            status =
              (if remaining = 0 then TrialExhausted
               else if remaining = 1 then OnlyOneRemaining
               else FreeRemaining remaining (if remaining = 1 then ''analysis'' else ''analyses'')),
            upgrade_link = (showUpgradeLink \<and> remaining \<le> 1)\<rparr>))"

text \<open>The count that the status line tells the user.\<close>

fun displayed_remaining :: "status_message \<Rightarrow> int" where
  "displayed_remaining TrialExhausted = 0"
| "displayed_remaining OnlyOneRemaining = 1"
| "displayed_remaining (FreeRemaining n word) = n"


section \<open>The seed script\<close>

text \<open>
  The four tables the script writes, with the columns it sets, as
  \<open>migrations/000_initial_schema.sql\<close> declares them, and the sequence behind each \<open>SERIAL\<close>
  key.
\<close>

record user_row =
  u_id :: int
  u_uuid :: string
  u_name :: string
  u_email :: "string option"
  u_subscription_tier :: string
  u_trial_uses :: int
  u_max_trial_uses :: int

record resume_row =
  r_id :: int
  r_user_id :: int
  r_file_name :: string
  r_file_path :: string
  r_file_size :: int
  r_mime_type :: string
  r_ats_score :: int
  r_analysis_data :: string

record session_row =
  s_id :: int
  s_user_id :: int
  s_session_token :: string
  s_expires_at :: int

record kv_row =
  kv_id :: int
  kv_key :: string
  kv_value :: string
  kv_user_id :: "int option"

record database =
  users :: "user_row list"
  resumes :: "resume_row list"
  sessions :: "session_row list"
  kv_store :: "kv_row list"
  users_id_seq :: int
  resumes_id_seq :: int
  sessions_id_seq :: int
  kv_store_id_seq :: int

text \<open>Replace the first element that satisfies \<open>P\<close>.\<close>

fun update_first :: "('a \<Rightarrow> bool) \<Rightarrow> ('a \<Rightarrow> 'a) \<Rightarrow> 'a list \<Rightarrow> 'a list" where
  "update_first P f [] = []"
| "update_first P f (x # xs) = (if P x then f x # xs else x # update_first P f xs)"

text \<open>
  \<open>INSERT INTO users (...) VALUES (...) ON CONFLICT (email) DO UPDATE SET name = EXCLUDED.name
  RETURNING id, name, email\<close>. The sequence advances before the conflict is seen; a row with
  the same email is updated and returned; otherwise the row is added, unless its \<open>uuid\<close>
  (\<open>UNIQUE\<close> as well) is taken.
\<close>

definition insert_user ::
  "string \<Rightarrow> string \<Rightarrow> string \<Rightarrow> string \<Rightarrow> int \<Rightarrow> int \<Rightarrow> database \<Rightarrow> (string + user_row) \<times> database" where
  "insert_user uuid name email tier trial_uses max_trial_uses db =
     (let new_id = users_id_seq db + 1; db1 = db\<lparr>users_id_seq := new_id\<rparr> in
      case find (\<lambda>r. u_email r = Some email) (users db1) of
        Some r \<Rightarrow>
          (Inr (r\<lparr>u_name := name\<rparr>),
           db1\<lparr>users := update_first (\<lambda>r. u_email r = Some email) (\<lambda>r. r\<lparr>u_name := name\<rparr>) (users db1)\<rparr>)
      | None \<Rightarrow>
          (case find (\<lambda>r. u_uuid r = uuid) (users db1) of
             Some r \<Rightarrow>
               (Inl ''duplicate key value violates unique constraint \"users_uuid_key\"'', db1)
           | None \<Rightarrow>
               (let row = \<lparr>u_id = new_id, u_uuid = uuid, u_name = name, u_email = Some email,
                           u_subscription_tier = tier, u_trial_uses = trial_uses,
                           u_max_trial_uses = max_trial_uses\<rparr>
                in (Inr row, db1\<lparr>users := users db1 @ [row]\<rparr>))))"

text \<open>\<open>INSERT INTO resumes (...) VALUES (...)\<close>: the user must exist, nothing else is checked.\<close>

definition insert_resume ::
  "int \<Rightarrow> string \<Rightarrow> string \<Rightarrow> int \<Rightarrow> string \<Rightarrow> int \<Rightarrow> string \<Rightarrow> database \<Rightarrow> string option \<times> database" where
  "insert_resume user_id fname fpath fsize mime_type ats_score analysis_data db =
     (let new_id = resumes_id_seq db + 1; db1 = db\<lparr>resumes_id_seq := new_id\<rparr> in
      case find (\<lambda>r. u_id r = user_id) (users db1) of
        None \<Rightarrow>
          (Some ''insert or update on table \"resumes\" violates foreign key constraint \"resumes_user_id_fkey\"'',
           db1)
      | Some u \<Rightarrow>
          (None, db1\<lparr>resumes := resumes db1 @
             [\<lparr>r_id = new_id, r_user_id = user_id, r_file_name = fname, r_file_path = fpath,
               r_file_size = fsize, r_mime_type = mime_type, r_ats_score = ats_score,
               r_analysis_data = analysis_data\<rparr>]\<rparr>))"

text \<open>\<open>INSERT INTO sessions (...) VALUES (...)\<close>: the user must exist and the token be new.\<close>

definition insert_session :: "int \<Rightarrow> string \<Rightarrow> int \<Rightarrow> database \<Rightarrow> string option \<times> database" where
  "insert_session user_id session_token expires_at db =
     (let new_id = sessions_id_seq db + 1; db1 = db\<lparr>sessions_id_seq := new_id\<rparr> in
      case find (\<lambda>r. s_session_token r = session_token) (sessions db1) of
        Some r \<Rightarrow>
          (Some ''duplicate key value violates unique constraint \"sessions_session_token_key\"'', db1)
      | None \<Rightarrow>
          (case find (\<lambda>r. u_id r = user_id) (users db1) of
             None \<Rightarrow>
               (Some ''insert or update on table \"sessions\" violates foreign key constraint \"sessions_user_id_fkey\"'',
                db1)
           | Some u \<Rightarrow>
               (None, db1\<lparr>sessions := sessions db1 @
                  [\<lparr>s_id = new_id, s_user_id = user_id, s_session_token = session_token,
                    s_expires_at = expires_at\<rparr>]\<rparr>)))"

text \<open>
  \<open>INSERT INTO kv_store (key, value, user_id) VALUES (...) ON CONFLICT (key, user_id) DO UPDATE
  SET value = EXCLUDED.value\<close>
\<close>

definition upsert_kv :: "string \<Rightarrow> string \<Rightarrow> int \<Rightarrow> database \<Rightarrow> string option \<times> database" where
  "upsert_kv key val user_id db =
     (let new_id = kv_store_id_seq db + 1; db1 = db\<lparr>kv_store_id_seq := new_id\<rparr> in
      case find (\<lambda>r. kv_key r = key \<and> kv_user_id r = Some user_id) (kv_store db1) of
        Some r \<Rightarrow>
          (None, db1\<lparr>kv_store := update_first (\<lambda>r. kv_key r = key \<and> kv_user_id r = Some user_id)
                                      (\<lambda>r. r\<lparr>kv_value := val\<rparr>) (kv_store db1)\<rparr>)
      | None \<Rightarrow>
          (case find (\<lambda>r. u_id r = user_id) (users db1) of
             None \<Rightarrow>
               (Some ''insert or update on table \"kv_store\" violates foreign key constraint \"kv_store_user_id_fkey\"'',
                db1)
           | Some u \<Rightarrow>
               (None, db1\<lparr>kv_store := kv_store db1 @
                  [\<lparr>kv_id = new_id, kv_key = key, kv_value = val, kv_user_id = Some user_id\<rparr>]\<rparr>)))"

text \<open>What one run of the script draws from outside: its random UUIDs, in the order of the calls, and the time.\<close>

record seed_inputs =
  randomUUID :: "nat \<Rightarrow> string"
  date_now :: int
  iso_now :: string

record test_user =
  tu_uuid :: string
  tu_name :: string
  tu_email :: string
  tu_subscription_tier :: string
  tu_trial_uses :: int
  tu_max_trial_uses :: int

definition testUsers :: "seed_inputs \<Rightarrow> test_user list" where
  "testUsers inp =
     [\<lparr>tu_uuid = randomUUID inp 0, tu_name = ''John Developer'', tu_email = ''john@example.com'',
       tu_subscription_tier = ''free'', tu_trial_uses = 1, tu_max_trial_uses = 3\<rparr>,
      \<lparr>tu_uuid = randomUUID inp 1, tu_name = ''Jane Engineer'', tu_email = ''jane@example.com'',
       tu_subscription_tier = ''pro'', tu_trial_uses = 3, tu_max_trial_uses = 3\<rparr>,
      \<lparr>tu_uuid = randomUUID inp 2, tu_name = ''Test User'', tu_email = ''test@example.com'',
       tu_subscription_tier = ''free'', tu_trial_uses = 0, tu_max_trial_uses = 3\<rparr>]"

text \<open>The loop over \<open>testUsers\<close>, collecting \<open>createdUsers\<close>; an error ends the script.\<close>

fun create_users ::
  "test_user list \<Rightarrow> user_row list \<Rightarrow> database \<Rightarrow> (string + user_row list) \<times> database" where
  "create_users [] createdUsers db = (Inr createdUsers, db)"
| "create_users (u # us) createdUsers db =
     (case insert_user (tu_uuid u) (tu_name u) (tu_email u) (tu_subscription_tier u)
             (tu_trial_uses u) (tu_max_trial_uses u) db of
        (Inl e, db1) \<Rightarrow> (Inl e, db1)
      | (Inr row, db1) \<Rightarrow> create_users us (createdUsers @ [row]) db1)"

record sample_resume =
  sr_user_id :: int
  sr_file_name :: string
  sr_file_path :: string
  sr_file_size :: int
  sr_mime_type :: string
  sr_ats_score :: int
  sr_analysis_data :: string

text \<open>The three sample resumes; the JSON text of \<open>analysis_data\<close> is kept by its summary.\<close>

definition sampleResumes :: "user_row list \<Rightarrow> sample_resume list" where
  "sampleResumes createdUsers =
     [\<lparr>sr_user_id = u_id (createdUsers ! 0), sr_file_name = ''john_developer_resume.pdf'',
       sr_file_path = ''/uploads/john_developer_resume.pdf'', sr_file_size = 125000,
       sr_mime_type = ''application/pdf'', sr_ats_score = 78,
       sr_analysis_data = ''Strong technical resume with good experience in web development.''\<rparr>,
      \<lparr>sr_user_id = u_id (createdUsers ! 0), sr_file_name = ''john_backend_resume.pdf'',
       sr_file_path = ''/uploads/john_backend_resume.pdf'', sr_file_size = 98000,
       sr_mime_type = ''application/pdf'', sr_ats_score = 65,
       sr_analysis_data = ''Backend-focused resume, needs more detail on projects.''\<rparr>,
      \<lparr>sr_user_id = u_id (createdUsers ! 1), sr_file_name = ''jane_engineer_resume.pdf'',
       sr_file_path = ''/uploads/jane_engineer_resume.pdf'', sr_file_size = 156000,
       sr_mime_type = ''application/pdf'', sr_ats_score = 92,
       sr_analysis_data = ''Excellent resume with strong ATS optimization.''\<rparr>]"

fun create_resumes :: "sample_resume list \<Rightarrow> database \<Rightarrow> string option \<times> database" where
  "create_resumes [] db = (None, db)"
| "create_resumes (r # rs) db =
     (case insert_resume (sr_user_id r) (sr_file_name r) (sr_file_path r) (sr_file_size r)
             (sr_mime_type r) (sr_ats_score r) (sr_analysis_data r) db of
        (Some e, db1) \<Rightarrow> (Some e, db1)
      | (None, db1) \<Rightarrow> create_resumes rs db1)"

text \<open>The loop over \<open>createdUsers\<close>: a fresh token and a seven days' expiry for each.\<close>

fun create_sessions :: "seed_inputs \<Rightarrow> nat \<Rightarrow> user_row list \<Rightarrow> database \<Rightarrow> string option \<times> database" where
  "create_sessions inp k [] db = (None, db)"
| "create_sessions inp k (u # us) db =
     (case insert_session (u_id u) (''test_session_'' @ randomUUID inp k)
             (date_now inp + 7 * 24 * 60 * 60 * 1000) db of
        (Some e, db1) \<Rightarrow> (Some e, db1)
      | (None, db1) \<Rightarrow> create_sessions inp (k + 1) us db1)"

text \<open>
  \<open>seedData\<close>: the error that made the script exit with status 1, if any, and the database it
  leaves (every statement is committed on its own). The closing \<open>COUNT\<close> queries only read and
  are left out.
\<close>

definition seedData :: "seed_inputs \<Rightarrow> database \<Rightarrow> string option \<times> database" where
  "seedData inp db =
     (case create_users (testUsers inp) [] db of
        (Inl e, db1) \<Rightarrow> (Some e, db1)
      | (Inr createdUsers, db1) \<Rightarrow>
          (case create_resumes (sampleResumes createdUsers) db1 of
             (Some e, db2) \<Rightarrow> (Some e, db2)
           | (None, db2) \<Rightarrow>
               (case create_sessions inp 3 createdUsers db2 of
                  (Some e, db3) \<Rightarrow> (Some e, db3)
                | (None, db3) \<Rightarrow>
                    (case upsert_kv ''last_analysis_date'' (iso_now inp) (u_id (createdUsers ! 0)) db3 of
                       (Some e, db4) \<Rightarrow> (Some e, db4)
                     | (None, db4) \<Rightarrow>
                         upsert_kv ''preferences'' ''{\"theme\":\"dark\",\"notifications\":true}''
                           (u_id (createdUsers ! 0)) db4))))"

text \<open>The \<open>id\<close> of the user that holds an email, and whether a key is stored for a user.\<close>

definition email_id :: "string \<Rightarrow> user_row list \<Rightarrow> int option" where
  "email_id e rows = map_option u_id (find (\<lambda>r. u_email r = Some e) rows)"

definition kv_present :: "string \<Rightarrow> int \<Rightarrow> kv_row list \<Rightarrow> bool" where
  "kv_present k uid rows = (find (\<lambda>r. kv_key r = k \<and> kv_user_id r = Some uid) rows \<noteq> None)"

text \<open>A database in which the script has run: its three users and John's two keys are there.\<close>

definition seeded :: "database \<Rightarrow> bool" where
  "seeded db =
     (case email_id ''john@example.com'' (users db) of
        None \<Rightarrow> False
      | Some john \<Rightarrow>
          email_id ''jane@example.com'' (users db) \<noteq> None \<and>
          email_id ''test@example.com'' (users db) \<noteq> None \<and>
          kv_present ''last_analysis_date'' john (kv_store db) \<and>
          kv_present ''preferences'' john (kv_store db))"

section \<open>The migration runner\<close>

text \<open>
  The statements of the migration files: each creates a table, an index or a column, and
  only if it is not there yet. A table is created with its columns and the tables its foreign
  keys point to; a column comes with the default it gives to the rows already there.
\<close>

datatype statement =
    CreateTableIfNotExists string "string list" "string list"
  | CreateIndexIfNotExists string string "string list"
  | AddColumnIfNotExists string string string

record table =
  columns :: "string list"
  table_rows :: "string list list"

record catalog =
  tables :: "string \<Rightarrow> table option"
  indexes :: "string list"

text \<open>\<open>sql.query(statement)\<close>: the error message when the database rejects the statement.\<close>

fun query :: "statement \<Rightarrow> catalog \<Rightarrow> string option \<times> catalog" where
  "query (CreateTableIfNotExists t cols refs) db =
     (if tables db t \<noteq> None then (None, db)
      else
        (case find (\<lambda>r. tables db r = None) refs of
           Some r \<Rightarrow> (Some (''relation \"'' @ r @ ''\" does not exist''), db)
         | None \<Rightarrow> (None, db\<lparr>tables := (tables db)(t \<mapsto> \<lparr>columns = cols, table_rows = []\<rparr>)\<rparr>)))"
| "query (CreateIndexIfNotExists i t cols) db =
     (if i \<in> set (indexes db) then (None, db)
      else
        (case tables db t of
           None \<Rightarrow> (Some (''relation \"'' @ t @ ''\" does not exist''), db)
         | Some tb \<Rightarrow>
             (case find (\<lambda>c. c \<notin> set (columns tb)) cols of
                Some c \<Rightarrow> (Some (''column \"'' @ c @ ''\" does not exist''), db)
              | None \<Rightarrow> (None, db\<lparr>indexes := indexes db @ [i]\<rparr>))))"
| "query (AddColumnIfNotExists t c dflt) db =
     (case tables db t of
        None \<Rightarrow> (Some (''relation \"'' @ t @ ''\" does not exist''), db)
      | Some tb \<Rightarrow>
          if c \<in> set (columns tb) then (None, db)
          else (None, db\<lparr>tables := (tables db)(t \<mapsto>
                  \<lparr>columns = columns tb @ [c], table_rows = map (\<lambda>r. r @ [dflt]) (table_rows tb)\<rparr>)\<rparr>))"

text \<open>
  A migration file as the runner sees it: one with a \<open>DO $$\<close> block, of which only the block
  is run (whatever it does), or the statements that the splitting at semicolons yields.
\<close>

datatype migration =
    DoBlock "catalog \<Rightarrow> string option \<times> catalog"
  | Statements "statement list"

text \<open>The loop over the statements: an error with \<open>already exists\<close> in it is skipped, any other ends the file.\<close>

fun run_statements :: "statement list \<Rightarrow> catalog \<Rightarrow> string option \<times> catalog" where
  "run_statements [] db = (None, db)"
| "run_statements (s # ss) db =
     (case query s db of
        (Some msg, db1) \<Rightarrow>
          if \<not> str_includes msg ''already exists'' then (Some msg, db1) else run_statements ss db1
      | (None, db1) \<Rightarrow> run_statements ss db1)"

text \<open>
  \<open>runMigrations\<close>, the loop over the files: a failure of one file is logged and the next file
  is run. The run returns what it logged for each file and the database it leaves.
\<close>

datatype migration_log = Completed | AlreadyApplied | Failed string

fun runMigrations :: "migration list \<Rightarrow> catalog \<Rightarrow> migration_log list \<times> catalog" where
  "runMigrations [] db = ([], db)"
| "runMigrations (m # ms) db =
     (case (case m of DoBlock run \<Rightarrow> run db | Statements ss \<Rightarrow> run_statements ss db) of
        (None, db1) \<Rightarrow> (case runMigrations ms db1 of (logs, db2) \<Rightarrow> (Completed # logs, db2))
      | (Some msg, db1) \<Rightarrow>
          (case runMigrations ms db1 of
             (logs, db2) \<Rightarrow>
               ((if str_includes msg ''already exists'' \<or> str_includes msg ''duplicate''
                 then AlreadyApplied else Failed msg) # logs, db2)))"

text \<open>\<open>migrations/000_initial_schema.sql\<close>\<close>

definition initial_schema :: "statement list" where
  "initial_schema =
     [CreateTableIfNotExists ''users''
        [''id'', ''uuid'', ''name'', ''email'', ''subscription_tier'', ''trial_uses'',
         ''max_trial_uses'', ''trial_expires_at'', ''created_at'', ''updated_at''] [],
      CreateTableIfNotExists ''sessions''
        [''id'', ''user_id'', ''session_token'', ''expires_at'', ''created_at''] [''users''],
      CreateTableIfNotExists ''resumes''
        [''id'', ''user_id'', ''file_name'', ''file_path'', ''file_size'', ''mime_type'', ''gcs_url'',
         ''analysis_data'', ''ats_score'', ''created_at'', ''updated_at''] [''users''],
      CreateTableIfNotExists ''kv_store''
        [''id'', ''key'', ''value'', ''user_id'', ''created_at'', ''updated_at''] [''users''],
      CreateTableIfNotExists ''payments''
        [''id'', ''user_id'', ''razorpay_order_id'', ''razorpay_payment_id'', ''razorpay_signature'',
         ''amount'', ''currency'', ''payment_status'', ''plan_id'', ''created_at'', ''updated_at'']
        [''users''],
      CreateIndexIfNotExists ''idx_users_uuid'' ''users'' [''uuid''],
      CreateIndexIfNotExists ''idx_users_email'' ''users'' [''email''],
      CreateIndexIfNotExists ''idx_users_trial_uses'' ''users'' [''trial_uses''],
      CreateIndexIfNotExists ''idx_sessions_user_id'' ''sessions'' [''user_id''],
      CreateIndexIfNotExists ''idx_sessions_token'' ''sessions'' [''session_token''],
      CreateIndexIfNotExists ''idx_sessions_expires'' ''sessions'' [''expires_at''],
      CreateIndexIfNotExists ''idx_resumes_user_id'' ''resumes'' [''user_id''],
      CreateIndexIfNotExists ''idx_resumes_created'' ''resumes'' [''created_at''],
      CreateIndexIfNotExists ''idx_kv_key'' ''kv_store'' [''key''],
      CreateIndexIfNotExists ''idx_kv_user'' ''kv_store'' [''user_id''],
      CreateIndexIfNotExists ''idx_payments_user'' ''payments'' [''user_id''],
      CreateIndexIfNotExists ''idx_payments_order'' ''payments'' [''razorpay_order_id'']]"

text \<open>\<open>migrations/003_add_trial_tracking.sql\<close>\<close>

definition add_trial_tracking :: "statement list" where
  "add_trial_tracking =
     [AddColumnIfNotExists ''users'' ''trial_uses'' ''0'',
      AddColumnIfNotExists ''users'' ''max_trial_uses'' ''3'',
      CreateIndexIfNotExists ''idx_users_trial_uses'' ''users'' [''trial_uses'']]"

text \<open>
  The list \<open>migrations\<close> of the runner. The files \<open>001_add_uuid_column.sql\<close> and
  \<open>002_add_gcs_url_to_resumes.sql\<close> are not among the sources: they are parameters.
\<close>

definition migrations :: "migration \<Rightarrow> migration \<Rightarrow> migration list" where
  "migrations add_uuid_column add_gcs_url_to_resumes =
     [Statements initial_schema, add_uuid_column, add_gcs_url_to_resumes,
      Statements add_trial_tracking]"

text \<open>The number of rows of a table; a table that is not there has none.\<close>

definition row_count :: "catalog \<Rightarrow> string \<Rightarrow> nat" where
  "row_count db t = (case tables db t of None \<Rightarrow> 0 | Some tb \<Rightarrow> length (table_rows tb))"

text \<open>A migration made of guarded statements only.\<close>

fun guarded :: "migration \<Rightarrow> bool" where
  "guarded (Statements ss) = True"
| "guarded (DoBlock run) = False"

section \<open>Observing a run\<close>

fun is_Save :: "event \<Rightarrow> bool" where
  "is_Save (Save p) = True"
| "is_Save _ = False"

fun is_Exists :: "event \<Rightarrow> bool" where
  "is_Exists (Exists p) = True"
| "is_Exists _ = False"

fun is_Download :: "event \<Rightarrow> bool" where
  "is_Download (Download p) = True"
| "is_Download _ = False"

fun is_Attempt :: "browser_event \<Rightarrow> bool" where
  "is_Attempt AttemptPdfConversion = True"
| "is_Attempt _ = False"

text \<open>The checks that \<open>uploadFile\<close> and \<open>readFile\<close> make before their loops all pass.\<close>

definition upload_ready :: "world \<Rightarrow> bytes \<Rightarrow> string \<Rightarrow> bool" where
  "upload_ready w file_arg fileName =
     (fst (ensureInitialized w) = None \<and> bucket (snd (ensureInitialized w)) \<and>
      file_arg \<noteq> [] \<and> fileName \<noteq> [])"

definition read_ready :: "world \<Rightarrow> string \<Rightarrow> bool" where
  "read_ready w filePath =
     (fst (ensureInitialized w) = None \<and> bucket (snd (ensureInitialized w)) \<and> filePath \<noteq> [])"

text \<open>
  The rhythm of a retry loop: a \<open>Try\<close> for each attempt started, a \<open>Wait\<close> for each
  delay, in the order they happen.
\<close>

datatype tick = Try | Wait int

fun upload_tick :: "event \<Rightarrow> tick list" where
  "upload_tick (Save p) = [Try]"
| "upload_tick (Sleep ms) = [Wait ms]"
| "upload_tick _ = []"

fun read_tick :: "event \<Rightarrow> tick list" where
  "read_tick (Exists p) = [Try]"
| "read_tick (Sleep ms) = [Wait ms]"
| "read_tick _ = []"

fun pdf_tick :: "browser_event \<Rightarrow> tick list" where
  "pdf_tick AttemptPdfConversion = [Try]"
| "pdf_tick (Delay ms) = [Wait ms]"
| "pdf_tick _ = []"

definition ticks_of :: "('e \<Rightarrow> tick list) \<Rightarrow> 'e list \<Rightarrow> tick list" where
  "ticks_of f evs = concat (map f evs)"

fun waits :: "tick list \<Rightarrow> int list" where
  "waits [] = []"
| "waits (Try # ts) = waits ts"
| "waits (Wait ms # ts) = ms # waits ts"

text \<open>
  What the specification asks of a retry loop that starts at attempt \<open>k\<close> and makes \<open>m\<close>
  attempts: after each attempt but the last, a wait of \<open>f\<close> of that attempt's index.
\<close>

fun backoff_schedule :: "(int \<Rightarrow> int) \<Rightarrow> int \<Rightarrow> nat \<Rightarrow> tick list" where
  "backoff_schedule f k 0 = []"
| "backoff_schedule f k (Suc 0) = [Try]"
| "backoff_schedule f k (Suc (Suc n)) = Try # Wait (f k) # backoff_schedule f (k + 1) (Suc n)"

text \<open>A failure as a caller of \<open>convertPdfToImage\<close> sees it: no image, no file, an error text.\<close>

definition reported :: "PdfConversionResult \<Rightarrow> bool" where
  "reported r =
     (imageUrl r = [] \<and> pdf_file r = None \<and>
      (case pdf_error r of None \<Rightarrow> False | Some e \<Rightarrow> e \<noteq> []))"

text \<open>A success as a caller sees it: an image file and no error text.\<close>

definition converted :: "PdfConversionResult \<Rightarrow> bool" where
  "converted r = (pdf_error r = None \<and> pdf_file r \<noteq> None)"

section \<open>Concrete runs\<close>

text \<open>An initialized module with an empty bucket and a service that does not fail.\<close>

definition ready_world :: world where
  "ready_world =
     \<lparr>storage = True, bucket = True, initializationError = None, GCS_BUCKET_NAME = ''resumes'',
      objects = Map.empty, now = 0, faults = [], trace = []\<rparr>"

text \<open>The same, with a service whose next three calls fail.\<close>

definition flaky_world :: world where
  "flaky_world =
     ready_world\<lparr>faults := [Some (new_Error ''socket hang up''), Some (OtherValue ''ETIMEDOUT''),
                            Some (new_Error ''quota exceeded'')]\<rparr>"

text \<open>A bucket that holds one object, and a service that answers the existence check and then fails.\<close>

definition stored_object :: gcs_object where
  "stored_object =
     \<lparr>data = [37, 80, 68, 70], obj_contentType = ''application/pdf'', originalName = ''cv.pdf'',
      obj_fileId = ''f1'', obj_userId = ''u1'', timeCreated = 0, updated = 0\<rparr>"

definition stuck_world :: world where
  "stuck_world =
     ready_world\<lparr>objects := [''users/u1/f1.pdf'' \<mapsto> stored_object],
                 faults := [None, None, None, Some (new_Error ''503 Service Unavailable'')]\<rparr>"

text \<open>A browser in which the PDF library rejects every document.\<close>

definition resume_pdf :: File where
  "resume_pdf = \<lparr>file_name = ''resume.pdf'', file_type = ''application/pdf'', file_size = 1024\<rparr>"

definition broken_pdf_outcomes :: pdf_outcomes where
  "broken_pdf_outcomes =
     \<lparr>import_pdfjs = None, arrayBuffer = Inr 1024,
      getDocument = Inl (ErrorObj ''InvalidPDFException'' ''Invalid PDF structure''),
      getDocument_again = Inl (ErrorObj ''InvalidPDFException'' ''Invalid PDF structure''),
      getPage = None, getViewport = None, createElement = None, getContext = True, render = None,
      has_toBlob = True, toBlob = Some [137, 80, 78, 71], toDataURL_blob = None,
      createObjectURL = Inr ''blob:1''\<rparr>"

definition broken_pdf_browser :: browser where
  "broken_pdf_browser =
     \<lparr>has_window = True, has_document = True, pdfjsLib = False,
      outcomes = (\<lambda>call. broken_pdf_outcomes), calls = 0, seen = []\<rparr>"

text \<open>An upload of two bytes with three attempts against the failing service.\<close>

definition failed_upload :: "(thrown + FileMetadata) \<times> world" where
  "failed_upload =
     uploadFile [1, 2] ''cv.pdf'' ''application/pdf'' (Some ''u1'') None (Some 3) ''f1'' flaky_world"






text \<open>An empty database, and what two runs of the seed script draw.\<close>

definition empty_database :: database where
  "empty_database =
     \<lparr>users = [], resumes = [], sessions = [], kv_store = [],
      users_id_seq = 0, resumes_id_seq = 0, sessions_id_seq = 0, kv_store_id_seq = 0\<rparr>"

definition first_inputs :: seed_inputs where
  "first_inputs =
     \<lparr>randomUUID = (\<lambda>k. ''a'' @ decimal k), date_now = 1000,
      iso_now = ''2025-01-01T00:00:00.000Z''\<rparr>"

definition second_inputs :: seed_inputs where
  "second_inputs =
     \<lparr>randomUUID = (\<lambda>k. ''b'' @ decimal k), date_now = 2000,
      iso_now = ''2025-01-02T00:00:00.000Z''\<rparr>"

definition seeded_once :: database where
  "seeded_once = snd (seedData first_inputs empty_database)"

definition seeded_twice :: database where
  "seeded_twice = snd (seedData second_inputs seeded_once)"

definition empty_catalog :: catalog where
  "empty_catalog = \<lparr>tables = Map.empty, indexes = []\<rparr>"

text \<open>The constants of the loop of the upload above.\<close>

definition demo_upload_vars :: upload_vars where
  "demo_upload_vars =
     \<lparr>uv_file = [1, 2], uv_fileName = ''cv.pdf'', uv_contentType = ''application/pdf'',
      uv_userId = Some ''u1'', uv_fileId = ''f1'', uv_sanitizedName = ''cv.pdf'',
      uv_filePath = ''users/u1/f1.pdf'', uv_maxRetries = 3\<rparr>"

section \<open>Facts about the storage calls\<close>

lemma pair_with_snd: "fst p = x \<Longrightarrow> p = (x, snd p)"
  by (cases p) simp

lemma next_fault_fields:
  "next_fault w = (f, w1) \<Longrightarrow>
     trace w1 = trace w \<and> storage w1 = storage w \<and> bucket w1 = bucket w \<and>
     initializationError w1 = initializationError w \<and> objects w1 = objects w \<and> now w1 = now w \<and>
     GCS_BUCKET_NAME w1 = GCS_BUCKET_NAME w"
  by (auto simp: next_fault_def split: list.splits)

lemma emit_fields [simp]:
  "trace (emit e w) = trace w @ [e]" "storage (emit e w) = storage w" "bucket (emit e w) = bucket w"
  "initializationError (emit e w) = initializationError w" "objects (emit e w) = objects w"
  "faults (emit e w) = faults w" "now (emit e w) = now w"
  by (simp_all add: emit_def)

lemma sleep_fields [simp]:
  "trace (sleep ms w) = trace w @ [Sleep ms]" "storage (sleep ms w) = storage w"
  "bucket (sleep ms w) = bucket w" "initializationError (sleep ms w) = initializationError w"
  "objects (sleep ms w) = objects w" "faults (sleep ms w) = faults w"
  by (simp_all add: sleep_def)

lemma gcs_save_fields:
  "gcs_save p f opts w = (r, w1) \<Longrightarrow>
     trace w1 = trace w @ [Save p] \<and> storage w1 = storage w \<and> bucket w1 = bucket w \<and>
     initializationError w1 = initializationError w"
  by (auto simp: gcs_save_def split: prod.splits option.splits dest!: next_fault_fields)

lemma gcs_getMetadata_fields:
  "gcs_getMetadata p w = (r, w1) \<Longrightarrow>
     trace w1 = trace w @ [GetMetadata p] \<and> storage w1 = storage w \<and> bucket w1 = bucket w \<and>
     initializationError w1 = initializationError w"
  by (auto simp: gcs_getMetadata_def split: prod.splits option.splits dest!: next_fault_fields)

lemma gcs_exists_fields:
  "gcs_exists p w = (r, w1) \<Longrightarrow>
     trace w1 = trace w @ [Exists p] \<and> storage w1 = storage w \<and> bucket w1 = bucket w \<and>
     initializationError w1 = initializationError w \<and> objects w1 = objects w"
  by (auto simp: gcs_exists_def split: prod.splits option.splits dest!: next_fault_fields)

lemma gcs_download_fields:
  "gcs_download p w = (r, w1) \<Longrightarrow>
     trace w1 = trace w @ [Download p] \<and> storage w1 = storage w \<and> bucket w1 = bucket w \<and>
     initializationError w1 = initializationError w \<and> objects w1 = objects w"
  by (auto simp: gcs_download_def split: prod.splits option.splits dest!: next_fault_fields)

lemma gcs_delete_fields:
  "gcs_delete p w = (r, w1) \<Longrightarrow>
     trace w1 = trace w @ [Delete p] \<and> storage w1 = storage w \<and> bucket w1 = bucket w \<and>
     initializationError w1 = initializationError w"
  by (auto simp: gcs_delete_def split: prod.splits option.splits dest!: next_fault_fields)

lemma gcs_copy_fields:
  "gcs_copy s d w = (r, w1) \<Longrightarrow>
     trace w1 = trace w @ [Copy s d] \<and> storage w1 = storage w \<and> bucket w1 = bucket w \<and>
     initializationError w1 = initializationError w"
  by (auto simp: gcs_copy_def split: prod.splits option.splits dest!: next_fault_fields)

lemma ensureInitialized_ok:
  "ensureInitialized w = (None, w1) \<Longrightarrow> storage w1 \<and> initializationError w1 = None"
  by (auto simp: ensureInitialized_def initializeStorage_def Let_def
           split: if_splits prod.splits option.splits dest!: next_fault_fields)

lemma ensureInitialized_again:
  "storage w \<Longrightarrow> ensureInitialized w = (initializationError w, w)"
  by (simp add: ensureInitialized_def)

lemma uploadFile_try_trace:
  "uploadFile_try v w = (r, w1) \<Longrightarrow>
     trace w1 = trace w @ [Save (uv_filePath v)] \<or>
     trace w1 = trace w @ [Save (uv_filePath v), GetMetadata (uv_filePath v)]"
  unfolding uploadFile_try_def
  by (auto split: prod.splits option.splits sum.splits dest!: gcs_save_fields gcs_getMetadata_fields)

lemma uploadFile_try_saves:
  "uploadFile_try v w = (r, w1) \<Longrightarrow>
     length (filter is_Save (trace w1)) = Suc (length (filter is_Save (trace w)))"
  using uploadFile_try_trace[of v w r w1] by auto

lemma readFile_try_trace:
  "readFile_try p w = (r, w1) \<Longrightarrow>
     trace w1 = trace w @ [Exists p] \<or> trace w1 = trace w @ [Exists p, Download p]"
  unfolding readFile_try_def
  by (auto split: prod.splits option.splits sum.splits if_splits dest!: gcs_exists_fields gcs_download_fields)

lemma deleteFile_try_fields:
  "deleteFile_try p w = (r, w1) \<Longrightarrow>
     storage w1 = storage w \<and> bucket w1 = bucket w \<and> initializationError w1 = initializationError w"
  unfolding deleteFile_try_def
  by (auto split: prod.splits sum.splits if_splits dest!: gcs_exists_fields gcs_delete_fields)

lemma copyFile_ok:
  "copyFile s d w = (None, w1) \<Longrightarrow>
     storage w1 \<and> initializationError w1 = None \<and> bucket w1 \<and> objects w1 s \<noteq> None"
  unfolding copyFile_def
  apply (clarsimp split: prod.splits option.splits if_splits sum.splits)
  apply (frule ensureInitialized_ok)
  apply (drule gcs_exists_fields)
  apply (auto simp: gcs_copy_def gcs_exists_def split: prod.splits option.splits dest!: next_fault_fields)
  done

section \<open>Facts about \<open>includes\<close>\<close>

lemma str_includes_iff: "str_includes s t \<longleftrightarrow> (\<exists>p q. s = p @ t @ q)"
proof (induction s)
  case Nil
  show ?case by auto
next
  case (Cons c cs)
  show ?case
  proof
    assume "str_includes (c # cs) t"
    then consider "prefix t (c # cs)" | "str_includes cs t" by auto
    then show "\<exists>p q. c # cs = p @ t @ q"
    proof cases
      case 1
      then obtain q where "c # cs = t @ q" by (auto simp: prefix_def)
      then have "c # cs = [] @ t @ q" by simp
      then show ?thesis by blast
    next
      case 2
      with Cons.IH obtain p q where "cs = p @ t @ q" by blast
      then have "c # cs = (c # p) @ t @ q" by simp
      then show ?thesis by blast
    qed
  next
    assume "\<exists>p q. c # cs = p @ t @ q"
    then obtain p q where pq: "c # cs = p @ t @ q" by blast
    show "str_includes (c # cs) t"
    proof (cases p)
      case Nil
      with pq have "prefix t (c # cs)" by (simp add: prefix_def)
      then show ?thesis by simp
    next
      case (Cons a p')
      with pq have "cs = p' @ t @ q" by simp
      with Cons.IH have "str_includes cs t" by blast
      then show ?thesis by simp
    qed
  qed
qed

lemma str_includes_middle: "str_includes (p @ t @ q) t"
  by (auto simp: str_includes_iff)

lemma str_includes_end: "str_includes (p @ t) t"
  using str_includes_middle[of p t "[]"] by simp

section \<open>Facts about the rhythm of a loop\<close>

lemma ticks_of_simps [simp]:
  "ticks_of f [] = []" "ticks_of f (e # es) = f e @ ticks_of f es"
  "ticks_of f (xs @ ys) = ticks_of f xs @ ticks_of f ys"
  by (simp_all add: ticks_of_def)

lemma ticks_of_silent: "\<forall>e \<in> set evs. f e = [] \<Longrightarrow> ticks_of f evs = []"
  by (induction evs) simp_all

lemma backoff_schedule_step:
  "1 \<le> m \<Longrightarrow> Try # Wait (f k) # backoff_schedule f (k + 1) m = backoff_schedule f k (Suc m)"
  by (cases m) simp_all

lemma count_Try_schedule: "length (filter (\<lambda>t. t = Try) (backoff_schedule f k m)) = m"
  by (induction f k m rule: backoff_schedule.induct) simp_all

lemma count_Save_ticks:
  "length (filter is_Save evs) = length (filter (\<lambda>t. t = Try) (ticks_of upload_tick evs))"
proof (induction evs)
  case (Cons e evs) then show ?case by (cases e) simp_all
qed simp

lemma count_Exists_ticks:
  "length (filter is_Exists evs) = length (filter (\<lambda>t. t = Try) (ticks_of read_tick evs))"
proof (induction evs)
  case (Cons e evs) then show ?case by (cases e) simp_all
qed simp

lemma count_Attempt_ticks:
  "length (filter is_Attempt evs) = length (filter (\<lambda>t. t = Try) (ticks_of pdf_tick evs))"
proof (induction evs)
  case (Cons e evs) then show ?case by (cases e) simp_all
qed simp

lemma waits_schedule: "waits (backoff_schedule f k m) = map f [k..k + int m - 2]"
proof (induction f k m rule: backoff_schedule.induct)
  case (3 f k n)
  have "[k..k + int (Suc (Suc n)) - 2] = k # [k + 1..k + 1 + int (Suc n) - 2]"
    by (subst upto_rec1) simp_all
  with 3 show ?case by simp
qed simp_all

lemma schedule_not_Nil: "backoff_schedule f k (Suc n) \<noteq> []"
  by (cases n) simp_all

lemma last_schedule: "backoff_schedule f k m = [] \<or> last (backoff_schedule f k m) = Try"
  by (induction f k m rule: backoff_schedule.induct) (simp_all add: schedule_not_Nil)

lemma increasing_waits:
  assumes "\<And>x y. 1 \<le> x \<Longrightarrow> x < y \<Longrightarrow> f x < (f y :: int)"
  shows "sorted_wrt (<) (map f [1..j])"
proof -
  have "sorted_wrt (\<lambda>x y. f x < f y) [1..j]"
    by (rule sorted_wrt_mono_rel[OF _ sorted_wrt_upto]) (simp add: assms)
  then show ?thesis by (simp add: sorted_wrt_map)
qed

lemma exponential_increasing:
  "1 \<le> x \<Longrightarrow> x < y \<Longrightarrow> (500::int) * 2 ^ nat (x - 1) < 500 * 2 ^ nat (y - 1)"
  by (simp add: power_strict_increasing)

lemma schedule_facts:
  assumes "ts = backoff_schedule f 1 m" and "\<And>x y. 1 \<le> x \<Longrightarrow> x < y \<Longrightarrow> f x < (f y :: int)"
  shows "ts = backoff_schedule f 1 m \<and> waits ts = map f [1..int m - 1] \<and>
         sorted_wrt (<) (waits ts) \<and> (ts = [] \<or> last ts = Try)"
proof -
  have w: "waits ts = map f [1..int m - 1]"
    using waits_schedule[of f 1 m] assms(1) by (simp add: algebra_simps)
  moreover have "sorted_wrt (<) (map f [1..int m - 1])"
    by (rule increasing_waits) (rule assms(2))
  moreover have "ts = [] \<or> last ts = Try"
    using last_schedule[of f 1 m] assms(1) by simp
  ultimately show ?thesis using assms(1) by simp
qed

section \<open>The loops of the storage module\<close>

lemma ensureInitialized_quiet:
  "ensureInitialized w = (r, w1) \<Longrightarrow>
     \<exists>evs. trace w1 = trace w @ evs \<and> ticks_of upload_tick evs = [] \<and>
           ticks_of read_tick evs = [] \<and> filter is_Download evs = []"
  by (auto simp: ensureInitialized_def initializeStorage_def Let_def
           split: if_splits prod.splits option.splits dest!: next_fault_fields)

lemma uploadFile_loop_ticks:
  "uploadFile_loop v a le w = (r, w') \<Longrightarrow>
   \<exists>m evs. trace w' = trace w @ evs \<and>
     ticks_of upload_tick evs = backoff_schedule (\<lambda>k. 500 * 2 ^ nat (k - 1)) a m \<and>
     int m \<le> max 0 (uv_maxRetries v + 1 - a) \<and> (a \<le> uv_maxRetries v \<longrightarrow> 1 \<le> m)"
proof (induction v a le w arbitrary: r w' rule: uploadFile_loop.induct)
  case (1 v attempt lastError w)
  let ?f = "\<lambda>k. 500 * 2 ^ nat (k - 1)"
  show ?case
  proof (cases "attempt \<le> uv_maxRetries v")
    case False
    with "1.prems" have "w' = w" by (subst (asm) uploadFile_loop.simps) auto
    with False show ?thesis by (intro exI[of _ 0] exI[of _ "[]"]) simp
  next
    case True
    obtain r1 w1 where t: "uploadFile_try v w = (r1, w1)" by force
    from uploadFile_try_trace[OF t] obtain evs1 where
      e1: "trace w1 = trace w @ evs1" "ticks_of upload_tick evs1 = [Try]" by auto
    show ?thesis
    proof (cases r1)
      case (Inr x)
      with "1.prems" True t have "w' = w1" by (subst (asm) uploadFile_loop.simps) auto
      with e1 True show ?thesis by (intro exI[of _ 1] exI[of _ evs1]) simp
    next
      case (Inl error)
      define w2 where "w2 = emit (ConsoleError
                         [Str (''Upload attempt '' @ Number_toString attempt @ ''/'' @
                               Number_toString (uv_maxRetries v) @ '' failed:''),
                          Str (message (as_Error error))]) w1"
      define w3 where "w3 = (if attempt < uv_maxRetries v then sleep (500 * 2 ^ nat (attempt - 1)) w2 else w2)"
      have rec: "uploadFile_loop v (attempt + 1) (Some (as_Error error)) w3 = (r, w')"
        using "1.prems" True t Inl unfolding w2_def w3_def
        by (subst (asm) uploadFile_loop.simps) (auto simp: Let_def split: if_splits)
      from "1.IH"[OF True t[symmetric] Inl refl w2_def w3_def rec]
      obtain m evs where ih: "trace w' = trace w3 @ evs"
        "ticks_of upload_tick evs = backoff_schedule ?f (attempt + 1) m"
        "int m \<le> max 0 (uv_maxRetries v + 1 - (attempt + 1))"
        "attempt + 1 \<le> uv_maxRetries v \<longrightarrow> 1 \<le> m" by blast
      show ?thesis
      proof (cases "attempt < uv_maxRetries v")
        case lt: True
        then have m1: "1 \<le> m" using ih(4) by simp
        have tr: "trace w' = trace w @ (evs1 @ [ConsoleError
                         [Str (''Upload attempt '' @ Number_toString attempt @ ''/'' @
                               Number_toString (uv_maxRetries v) @ '' failed:''),
                          Str (message (as_Error error))], Sleep (?f attempt)] @ evs)"
          using ih(1) e1(1) lt by (simp add: w3_def w2_def)
        show ?thesis
          apply (rule exI[of _ "Suc m"])
          apply (rule exI, rule conjI, rule tr)
          using e1(2) ih(2,3) m1 lt backoff_schedule_step[OF m1, of ?f attempt]
          by simp
      next
        case ge: False
        with True have eq: "attempt = uv_maxRetries v" by simp
        then have m0: "m = 0" using ih(3) by simp
        have tr: "trace w' = trace w @ (evs1 @ [ConsoleError
                         [Str (''Upload attempt '' @ Number_toString attempt @ ''/'' @
                               Number_toString (uv_maxRetries v) @ '' failed:''),
                          Str (message (as_Error error))]] @ evs)"
          using ih(1) e1(1) ge by (simp add: w3_def w2_def)
        show ?thesis
          apply (rule exI[of _ "1"])
          apply (rule exI, rule conjI, rule tr)
          using e1(2) ih(2) m0 eq
          by simp
      qed
    qed
  qed
qed

lemma uploadFile_ticks:
  "uploadFile file fileName ct uid folder mr uuid w = (r, w') \<Longrightarrow>
   \<exists>m evs. trace w' = trace w @ evs \<and>
     ticks_of upload_tick evs = backoff_schedule (\<lambda>k. 500 * 2 ^ nat (k - 1)) 1 m \<and>
     m \<le> nat (default_maxRetries mr)"
proof -
  assume run: "uploadFile file fileName ct uid folder mr uuid w = (r, w')"
  obtain i w1 where init: "ensureInitialized w = (i, w1)" by force
  from ensureInitialized_quiet[OF init] obtain pre where
    pre: "trace w1 = trace w @ pre" "ticks_of upload_tick pre = []"
    by blast
  have early: ?thesis if "w' = w1"
    using that pre by (intro exI[of _ 0] exI[of _ pre]) simp
  show ?thesis
  proof (cases "i = None \<and> bucket w1 \<and> file \<noteq> [] \<and> fileName \<noteq> []")
    case False
    with run init have "w' = w1"
      by (auto simp: uploadFile_def Let_def split: option.splits if_splits)
    then show ?thesis by (rule early)
  next
    case True
    with run init obtain v where
      loop: "uploadFile_loop v 1 None w1 = (r, w')" and v: "uv_maxRetries v = default_maxRetries mr"
      by (auto simp: uploadFile_def Let_def split: option.splits if_splits)
    from uploadFile_loop_ticks[OF loop] v obtain m evs where
      "trace w' = trace w1 @ evs"
      "ticks_of upload_tick evs = backoff_schedule (\<lambda>k. 500 * 2 ^ nat (k - 1)) 1 m"
      "int m \<le> max 0 (default_maxRetries mr)" by auto
    with pre show ?thesis
      by (intro exI[of _ m] exI[of _ "pre @ evs"]) auto
  qed
qed

lemma uploadFile_loop_exhausted:
  "uploadFile_loop v a le w = (Inl e, w') \<Longrightarrow> a \<le> uv_maxRetries v \<Longrightarrow>
   \<exists>m. last (trace w') =
         ConsoleError [Str (''Upload attempt '' @ Number_toString (uv_maxRetries v) @ ''/'' @
                            Number_toString (uv_maxRetries v) @ '' failed:''), Str m] \<and>
       e = new_Error (''Failed to upload file after '' @ Number_toString (uv_maxRetries v) @
                      '' attempts: '' @ m) \<and>
       length (filter is_Save (trace w')) =
         length (filter is_Save (trace w)) + nat (uv_maxRetries v + 1 - a)"
proof (induction v a le w arbitrary: e w' rule: uploadFile_loop.induct)
  case (1 v attempt lastError w)
  note le = \<open>attempt \<le> uv_maxRetries v\<close>
  obtain r1 w1 where t: "uploadFile_try v w = (r1, w1)" by force
  note s = uploadFile_try_saves[OF t]
  show ?case
  proof (cases r1)
    case (Inr x)
    with "1.prems" t show ?thesis by (subst (asm) uploadFile_loop.simps) auto
  next
    case (Inl error)
    define w2 where "w2 = emit (ConsoleError
                       [Str (''Upload attempt '' @ Number_toString attempt @ ''/'' @
                             Number_toString (uv_maxRetries v) @ '' failed:''),
                        Str (message (as_Error error))]) w1"
    define w3 where "w3 = (if attempt < uv_maxRetries v then sleep (500 * 2 ^ nat (attempt - 1)) w2 else w2)"
    have rec: "uploadFile_loop v (attempt + 1) (Some (as_Error error)) w3 = (Inl e, w')"
      using "1.prems" t Inl unfolding w2_def w3_def
      by (subst (asm) uploadFile_loop.simps) (auto simp: Let_def split: if_splits)
    have s3: "length (filter is_Save (trace w3)) = Suc (length (filter is_Save (trace w)))"
      using s by (simp add: w3_def w2_def)
    show ?thesis
    proof (cases "attempt < uv_maxRetries v")
      case True
      then have nx: "attempt + 1 \<le> uv_maxRetries v" by simp
      from "1.IH"[OF le t[symmetric] Inl refl w2_def w3_def rec nx] s3 True
      show ?thesis by (auto simp: nat_add_distrib)
    next
      case False
      with le have eq: "attempt = uv_maxRetries v" by simp
      from rec eq have "w' = w3 \<and> e = new_Error (''Failed to upload file after '' @
            Number_toString (uv_maxRetries v) @ '' attempts: '' @ message (as_Error error))"
        by (subst (asm) uploadFile_loop.simps) simp
      with eq s3 show ?thesis by (simp add: w3_def w2_def)
    qed
  qed
qed

lemma readFile_try_shape:
  "readFile_try p w = (r, w1) \<Longrightarrow>
     \<exists>evs. trace w1 = trace w @ evs \<and> ticks_of read_tick evs = [Try] \<and>
           length (filter is_Download evs) \<le> 1 \<and> length (filter is_Exists evs) = 1"
  using readFile_try_trace[of p w r w1] by auto

lemma readFile_loop_ticks:
  "readFile_loop p n a le w = (r, w') \<Longrightarrow>
   \<exists>m evs. trace w' = trace w @ evs \<and>
     ticks_of read_tick evs = backoff_schedule (\<lambda>k. 300 * k) a m \<and>
     int m \<le> max 0 (n + 1 - a) \<and> (a \<le> n \<longrightarrow> 1 \<le> m) \<and>
     length (filter is_Download evs) \<le> m \<and> length (filter is_Exists evs) = m"
proof (induction p n a le w arbitrary: r w' rule: readFile_loop.induct)
  case (1 p n attempt lastError w)
  let ?f = "\<lambda>k::int. 300 * k"
  show ?case
  proof (cases "attempt \<le> n")
    case False
    with "1.prems" have "w' = w" by (subst (asm) readFile_loop.simps) auto
    with False show ?thesis by (intro exI[of _ 0] exI[of _ "[]"]) simp
  next
    case True
    obtain r1 w1 where t: "readFile_try p w = (r1, w1)" by force
    from readFile_try_shape[OF t] obtain evs1 where
      e1: "trace w1 = trace w @ evs1" "ticks_of read_tick evs1 = [Try]"
          "length (filter is_Download evs1) \<le> 1" "length (filter is_Exists evs1) = 1" by auto
    have stop: ?thesis if "w' = w1"
      using that e1 True by (intro exI[of _ 1] exI[of _ evs1]) simp
    show ?thesis
    proof (cases r1)
      case (Inr x)
      with "1.prems" True t have "w' = w1" by (subst (asm) readFile_loop.simps) auto
      then show ?thesis by (rule stop)
    next
      case (Inl error)
      show ?thesis
      proof (cases "str_includes (message (as_Error error)) ''not found''")
        case nf: True
        with "1.prems" True t Inl have "w' = w1"
          by (subst (asm) readFile_loop.simps) (auto simp: Let_def)
        then show ?thesis by (rule stop)
      next
        case retry: False
        define w2 where "w2 = emit (ConsoleWarn
                           [Str (''Read attempt '' @ Number_toString attempt @ ''/'' @
                                 Number_toString n @ '' failed:''),
                            Str (message (as_Error error))]) w1"
        define w3 where "w3 = (if attempt < n then sleep (300 * attempt) w2 else w2)"
        have rec: "readFile_loop p n (attempt + 1) (Some (as_Error error)) w3 = (r, w')"
          using "1.prems" True t Inl retry unfolding w2_def w3_def
          by (subst (asm) readFile_loop.simps) (auto simp: Let_def split: if_splits)
        from "1.IH"[OF True t[symmetric] Inl refl retry w2_def w3_def rec]
        obtain m evs where ih: "trace w' = trace w3 @ evs"
          "ticks_of read_tick evs = backoff_schedule ?f (attempt + 1) m"
          "int m \<le> max 0 (n + 1 - (attempt + 1))"
          "attempt + 1 \<le> n \<longrightarrow> 1 \<le> m"
          "length (filter is_Download evs) \<le> m" "length (filter is_Exists evs) = m" by blast
        show ?thesis
        proof (cases "attempt < n")
          case lt: True
          then have m1: "1 \<le> m" using ih(4) by simp
          have tr: "trace w' = trace w @ (evs1 @ [ConsoleWarn
                           [Str (''Read attempt '' @ Number_toString attempt @ ''/'' @
                                 Number_toString n @ '' failed:''),
                            Str (message (as_Error error))], Sleep (?f attempt)] @ evs)"
            using ih(1) e1(1) lt by (simp add: w3_def w2_def)
          show ?thesis
            apply (rule exI[of _ "Suc m"])
            apply (rule exI, rule conjI, rule tr)
            using e1(2,3,4) ih(2,3,5,6) m1 lt backoff_schedule_step[OF m1, of ?f attempt]
            by simp
        next
          case ge: False
          with True have eq: "attempt = n" by simp
          then have m0: "m = 0" using ih(3) by simp
          have tr: "trace w' = trace w @ (evs1 @ [ConsoleWarn
                           [Str (''Read attempt '' @ Number_toString attempt @ ''/'' @
                                 Number_toString n @ '' failed:''),
                            Str (message (as_Error error))]] @ evs)"
            using ih(1) e1(1) ge by (simp add: w3_def w2_def)
          show ?thesis
            apply (rule exI[of _ "1"])
            apply (rule exI, rule conjI, rule tr)
            using e1(2,3,4) ih(2,5,6) m0 eq
            by simp
        qed
      qed
    qed
  qed
qed

lemma readFile_ticks:
  "readFile p mr w = (r, w') \<Longrightarrow>
   \<exists>m evs. trace w' = trace w @ evs \<and>
     ticks_of read_tick evs = backoff_schedule (\<lambda>k. 300 * k) 1 m \<and>
     m \<le> nat (default_maxRetries mr) \<and> length (filter is_Download evs) \<le> m"
proof -
  assume run: "readFile p mr w = (r, w')"
  obtain i w1 where init: "ensureInitialized w = (i, w1)" by force
  from ensureInitialized_quiet[OF init] obtain pre where
    pre: "trace w1 = trace w @ pre" "ticks_of read_tick pre = []" and nd: "filter is_Download pre = []"
    by blast
  show ?thesis
  proof (cases "i = None \<and> bucket w1 \<and> p \<noteq> []")
    case False
    with run init have "w' = w1 \<or> w' = emit (ConsoleError [Str (cross_mark @ '' GCS bucket not initialized'')]) w1"
      by (auto simp: readFile_def Let_def split: option.splits if_splits)
    then show ?thesis
    proof
      assume "w' = w1"
      with pre nd show ?thesis by (intro exI[of _ 0] exI[of _ pre]) simp
    next
      assume "w' = emit (ConsoleError [Str (cross_mark @ '' GCS bucket not initialized'')]) w1"
      with pre nd show ?thesis
        by (intro exI[of _ 0] exI[of _ "pre @ [ConsoleError [Str (cross_mark @ '' GCS bucket not initialized'')]]"]) simp
    qed
  next
    case True
    with run init have loop: "readFile_loop p (default_maxRetries mr) 1 None w1 = (r, w')"
      by (auto simp: readFile_def Let_def split: option.splits if_splits)
    from readFile_loop_ticks[OF loop] obtain m evs where
      "trace w' = trace w1 @ evs"
      "ticks_of read_tick evs = backoff_schedule (\<lambda>k. 300 * k) 1 m"
      "int m \<le> max 0 (default_maxRetries mr)" "length (filter is_Download evs) \<le> m" by auto
    with pre nd show ?thesis
      by (intro exI[of _ m] exI[of _ "pre @ evs"]) auto
  qed
qed

lemma readFile_loop_missing:
  assumes "attempt \<le> maxRetries" "objects w filePath = None" "faults w = [] \<or> hd (faults w) = None"
  shows "\<exists>w1. readFile_loop filePath maxRetries attempt lastError w =
           (Inl (new_Error (''File not found: '' @ filePath)), w1) \<and>
         trace w1 = trace w @ [Exists filePath]"
proof -
  from assms obtain wx where ex: "gcs_exists filePath w = (Inr False, wx)"
    by (cases "faults w") (auto simp: gcs_exists_def next_fault_def emit_def)
  then have t: "readFile_try filePath w = (Inl (new_Error (''File not found: '' @ filePath)), wx)"
    by (simp add: readFile_try_def)
  have inc: "str_includes (message (as_Error (new_Error (''File not found: '' @ filePath)))) ''not found''"
    using str_includes_middle[of "''File ''" "''not found''" "'': '' @ filePath"]
    by (simp add: new_Error_def)
  from assms(1) t inc have "readFile_loop filePath maxRetries attempt lastError w =
        (Inl (new_Error (''File not found: '' @ filePath)), wx)"
    by (subst readFile_loop.simps) (simp add: Let_def new_Error_def)
  moreover from gcs_exists_fields[OF ex] have "trace wx = trace w @ [Exists filePath]" by simp
  ultimately show ?thesis by blast
qed

section \<open>The conversion loop\<close>

lemma note_event_fields [simp]:
  "seen (note_event e b) = seen b @ [e]" "calls (note_event e b) = calls b"
  "has_window (note_event e b) = has_window b" "has_document (note_event e b) = has_document b"
  "pdfjsLib (note_event e b) = pdfjsLib b" "outcomes (note_event e b) = outcomes b"
  by (simp_all add: note_event_def)

lemma delay_fields [simp]:
  "seen (delay ms b) = seen b @ [Delay ms]" "calls (delay ms b) = calls b"
  "outcomes (delay ms b) = outcomes b"
  by (simp_all add: delay_def)

lemma reported_failure: "msg \<noteq> [] \<Longrightarrow> reported (failure msg)"
  by (simp add: reported_def failure_def)

lemma loadPdfJs_seen: "loadPdfJs oc b = (r, b1) \<Longrightarrow> seen b1 = seen b"
  by (auto simp: loadPdfJs_def split: if_splits option.splits)

lemma render_first_page_shape:
  "render_first_page oc f pdf = Inr res \<Longrightarrow> converted res \<or> reported res"
  by (auto simp: render_first_page_def Let_def reported_failure converted_def
      split: if_splits option.splits sum.splits)

lemma attemptPdfConversion_try_shape:
  "attemptPdfConversion_try oc fa b = (r, b1) \<Longrightarrow>
     seen b1 = seen b \<and> (\<forall>res. r = Inr res \<longrightarrow> converted res \<or> reported res)"
  unfolding attemptPdfConversion_try_def
  by (auto simp: Let_def reported_failure
      split: if_splits option.splits sum.splits prod.splits
      dest: loadPdfJs_seen render_first_page_shape)

lemma attemptPdfConversion_shape:
  "attemptPdfConversion fa b = (r, b1) \<Longrightarrow>
     seen b1 = seen b @ [AttemptPdfConversion] \<and>
     (\<exists>res. r = Inr res \<and> (converted res \<or> reported res))"
  unfolding attemptPdfConversion_def
  by (auto simp: Let_def reported_failure
      split: sum.splits prod.splits dest!: attemptPdfConversion_try_shape)

lemma convertPdfToImage_loop_ticks:
  "convertPdfToImage_loop fa n a le b = (r, b') \<Longrightarrow>
   \<exists>m evs res. seen b' = seen b @ evs \<and>
     ticks_of pdf_tick evs = backoff_schedule (\<lambda>k. 500 * k) a m \<and>
     int m \<le> max 0 (n + 1 - a) \<and> (a \<le> n \<longrightarrow> 1 \<le> m) \<and>
     r = Inr res \<and> (converted res \<or> reported res)"
proof (induction fa n a le b arbitrary: r b' rule: convertPdfToImage_loop.induct)
  case (1 fa n attempt lastError b)
  let ?f = "\<lambda>k::int. 500 * k"
  show ?case
  proof (cases "attempt \<le> n")
    case False
    with "1.prems" have "b' = b \<and> (\<exists>msg. msg \<noteq> [] \<and> r = Inr (failure msg))"
      by (subst (asm) convertPdfToImage_loop.simps) auto
    with False show ?thesis
      by (intro exI[of _ 0] exI[of _ "[]"]) (auto simp: reported_failure)
  next
    case True
    obtain r1 b1 where t: "attemptPdfConversion fa b = (r1, b1)" by force
    from attemptPdfConversion_shape[OF t] obtain result where
      e1: "seen b1 = seen b @ [AttemptPdfConversion]" "r1 = Inr result"
          "converted result \<or> reported result" by auto
    show ?thesis
    proof (cases "\<exists>e. pdf_error result = Some e \<and> e \<noteq> [] \<and> attempt < n")
      case False
      with "1.prems" True t e1(2) have "b' = b1 \<and> r = Inr result"
        by (subst (asm) convertPdfToImage_loop.simps) (auto split: option.splits)
      with e1 True show ?thesis
        by (intro exI[of _ 1] exI[of _ "[AttemptPdfConversion]"] exI[of _ result]) simp
    next
      case retry: True
      then obtain e where e: "pdf_error result = Some e" "e \<noteq> [] \<and> attempt < n" by blast
      define b3 where "b3 = delay (500 * attempt)
                         (note_event (Warn (''PDF conversion attempt '' @ Number_toString attempt @
                                            '' failed: '' @ e @ ''. Retrying...'')) b1)"
      have rec: "convertPdfToImage_loop fa n (attempt + 1) lastError b3 = (r, b')"
        using "1.prems" True t e1(2) e unfolding b3_def
        by (subst (asm) convertPdfToImage_loop.simps) auto
      from "1.IH"(2)[OF True t[symmetric] e1(2) e rec[unfolded b3_def]]
      obtain m evs res where ih: "seen b' = seen b3 @ evs"
        "ticks_of pdf_tick evs = backoff_schedule ?f (attempt + 1) m"
        "int m \<le> max 0 (n + 1 - (attempt + 1))"
        "attempt + 1 \<le> n \<longrightarrow> 1 \<le> m"
        "r = Inr res" "converted res \<or> reported res" unfolding b3_def by blast
      from e have m1: "1 \<le> m" using ih(4) by simp
      have tr: "seen b' = seen b @ ([AttemptPdfConversion,
                   Warn (''PDF conversion attempt '' @ Number_toString attempt @
                         '' failed: '' @ e @ ''. Retrying...''), Delay (?f attempt)] @ evs)"
        using ih(1) e1(1) by (simp add: b3_def)
      show ?thesis
        apply (rule exI[of _ "Suc m"])
        apply (rule exI, rule exI[of _ res], rule conjI, rule tr)
        using ih(2,3,5,6) m1 e backoff_schedule_step[OF m1, of ?f attempt]
        by simp
    qed
  qed
qed

lemma convertPdfToImage_loop_last:
  "a \<le> n \<Longrightarrow> \<exists>b0. convertPdfToImage_loop fa n a le b = attemptPdfConversion fa b0"
proof (induction fa n a le b rule: convertPdfToImage_loop.induct)
  case (1 fa n attempt lastError b)
  obtain r1 b1 where t: "attemptPdfConversion fa b = (r1, b1)" by force
  from attemptPdfConversion_shape[OF t] obtain result where e1: "r1 = Inr result" by auto
  show ?case
  proof (cases "\<exists>e. pdf_error result = Some e \<and> e \<noteq> [] \<and> attempt < n")
    case False
    with "1.prems" t e1 have "convertPdfToImage_loop fa n attempt lastError b = attemptPdfConversion fa b"
      by (subst convertPdfToImage_loop.simps) (auto split: option.splits)
    then show ?thesis by blast
  next
    case True
    then obtain e where e: "pdf_error result = Some e" "e \<noteq> [] \<and> attempt < n" by blast
    then have nx: "attempt + 1 \<le> n" by simp
    from "1.IH"(2)[OF "1.prems" t[symmetric] e1 e nx] obtain b0 where
      "convertPdfToImage_loop fa n (attempt + 1) lastError
         (delay (500 * attempt)
           (note_event (Warn (''PDF conversion attempt '' @ Number_toString attempt @
                              '' failed: '' @ e @ ''. Retrying...'')) b1)) = attemptPdfConversion fa b0"
      by blast
    with "1.prems" t e1 e have "convertPdfToImage_loop fa n attempt lastError b = attemptPdfConversion fa b0"
      by (subst convertPdfToImage_loop.simps) auto
    then show ?thesis by blast
  qed
qed

lemma convertPdfToImage_ticks:
  "convertPdfToImage fa mr b = (r, b') \<Longrightarrow>
   \<exists>m evs res. seen b' = seen b @ evs \<and>
     ticks_of pdf_tick evs = backoff_schedule (\<lambda>k. 500 * k) 1 m \<and>
     m \<le> nat (default_maxRetries mr) \<and> r = Inr res \<and> (converted res \<or> reported res)"
proof -
  assume "convertPdfToImage fa mr b = (r, b')"
  then have "convertPdfToImage_loop fa (default_maxRetries mr) 1 None b = (r, b')"
    by (simp add: convertPdfToImage_def)
  from convertPdfToImage_loop_ticks[OF this] obtain m evs res where
    "seen b' = seen b @ evs" "ticks_of pdf_tick evs = backoff_schedule (\<lambda>k. 500 * k) 1 m"
    "int m \<le> max 0 (default_maxRetries mr)" "r = Inr res" "converted res \<or> reported res"
    by auto
  then show ?thesis
    by (intro exI[of _ m] exI[of _ evs] exI[of _ res]) auto
qed

section \<open>Every attempt made, every step taken\<close>

lemma readFile_try_exists:
  "readFile_try p w = (r, w1) \<Longrightarrow>
     length (filter is_Exists (trace w1)) = Suc (length (filter is_Exists (trace w)))"
  using readFile_try_trace[of p w r w1] by auto

lemma readFile_loop_exhausted:
  "readFile_loop p n a le w = (Inl e, w') \<Longrightarrow> \<not> str_includes (message e) ''not found'' \<Longrightarrow> a \<le> n \<Longrightarrow>
     length (filter is_Exists (trace w')) = length (filter is_Exists (trace w)) + nat (n + 1 - a)"
proof (induction p n a le w arbitrary: e w' rule: readFile_loop.induct)
  case (1 p n attempt lastError w)
  note le = \<open>attempt \<le> n\<close>
  obtain r1 w1 where t: "readFile_try p w = (r1, w1)" by force
  note s = readFile_try_exists[OF t]
  show ?case
  proof (cases r1)
    case (Inr x)
    with "1.prems" t show ?thesis by (subst (asm) readFile_loop.simps) auto
  next
    case (Inl error)
    show ?thesis
    proof (cases "str_includes (message (as_Error error)) ''not found''")
      case True
      with "1.prems"(1) le t Inl have "e = as_Error error"
        by (subst (asm) readFile_loop.simps) (auto simp: Let_def)
      with True "1.prems"(2) show ?thesis by simp
    next
      case retry: False
      define w2 where "w2 = emit (ConsoleWarn
                           [Str (''Read attempt '' @ Number_toString attempt @ ''/'' @
                                 Number_toString n @ '' failed:''),
                            Str (message (as_Error error))]) w1"
      define w3 where "w3 = (if attempt < n then sleep (300 * attempt) w2 else w2)"
      have rec: "readFile_loop p n (attempt + 1) (Some (as_Error error)) w3 = (Inl e, w')"
        using "1.prems"(1) le t Inl retry unfolding w2_def w3_def
        by (subst (asm) readFile_loop.simps) (auto simp: Let_def split: if_splits)
      have s3: "length (filter is_Exists (trace w3)) = Suc (length (filter is_Exists (trace w)))"
        using s by (simp add: w3_def w2_def)
      show ?thesis
      proof (cases "attempt < n")
        case True
        then have nx: "attempt + 1 \<le> n" by simp
        from "1.IH"[OF le t[symmetric] Inl refl retry w2_def w3_def rec "1.prems"(2) nx] s3 True
        show ?thesis by (auto simp: nat_add_distrib)
      next
        case False
        with le have eq: "attempt = n" by simp
        from rec eq have "w' = w3" by (subst (asm) readFile_loop.simps) simp
        with eq s3 show ?thesis by simp
      qed
    qed
  qed
qed

lemma attemptPdfConversion_calls:
  "attemptPdfConversion fa b = (r, b1) \<Longrightarrow>
     length (filter is_Attempt (seen b1)) = Suc (length (filter is_Attempt (seen b)))"
  using attemptPdfConversion_shape[of fa b r b1] by auto

lemma convertPdfToImage_loop_exhausted:
  "convertPdfToImage_loop fa n a le b = (Inr res, b') \<Longrightarrow> reported res \<Longrightarrow> a \<le> n \<Longrightarrow>
     length (filter is_Attempt (seen b')) = length (filter is_Attempt (seen b)) + nat (n + 1 - a)"
proof (induction fa n a le b arbitrary: res b' rule: convertPdfToImage_loop.induct)
  case (1 fa n attempt lastError b)
  note le = \<open>attempt \<le> n\<close>
  obtain r1 b1 where t: "attemptPdfConversion fa b = (r1, b1)" by force
  from attemptPdfConversion_shape[OF t] obtain result where e1: "r1 = Inr result" by auto
  note s = attemptPdfConversion_calls[OF t]
  show ?case
  proof (cases "\<exists>e. pdf_error result = Some e \<and> e \<noteq> [] \<and> attempt < n")
    case False
    with "1.prems"(1) le t e1 have eq: "b' = b1 \<and> res = result"
      by (subst (asm) convertPdfToImage_loop.simps) (auto split: option.splits)
    with "1.prems"(2) False have "\<not> attempt < n"
      by (auto simp: reported_def split: option.splits)
    with le have "attempt = n" by simp
    with eq s show ?thesis by simp
  next
    case True
    then obtain e where e: "pdf_error result = Some e" "e \<noteq> [] \<and> attempt < n" by blast
    then have nx: "attempt + 1 \<le> n" by simp
    define b3 where "b3 = delay (500 * attempt)
                         (note_event (Warn (''PDF conversion attempt '' @ Number_toString attempt @
                                            '' failed: '' @ e @ ''. Retrying...'')) b1)"
    have rec: "convertPdfToImage_loop fa n (attempt + 1) lastError b3 = (Inr res, b')"
      using "1.prems"(1) le t e1 e unfolding b3_def
      by (subst (asm) convertPdfToImage_loop.simps) auto
    have s3: "length (filter is_Attempt (seen b3)) = Suc (length (filter is_Attempt (seen b)))"
      using s by (simp add: b3_def)
    from "1.IH"(2)[OF le t[symmetric] e1 e rec[unfolded b3_def] "1.prems"(2) nx] s3 e
    show ?thesis by (auto simp: b3_def nat_add_distrib)
  qed
qed

lemma uploadFile_loop_extends:
  "uploadFile_loop v a le w = (r, w') \<Longrightarrow> \<exists>evs. trace w' = trace w @ evs"
  using uploadFile_loop_ticks[of v a le w r w'] by blast

lemma uploadFile_loop_starts:
  assumes "a \<le> uv_maxRetries v"
  shows "\<exists>evs. trace (snd (uploadFile_loop v a le w)) = trace w @ Save (uv_filePath v) # evs"
proof -
  obtain r1 w1 where t: "uploadFile_try v w = (r1, w1)" by force
  from uploadFile_try_trace[OF t] obtain tl where tr1: "trace w1 = trace w @ Save (uv_filePath v) # tl"
    by auto
  show ?thesis
  proof (cases r1)
    case (Inr x)
    with assms t have "uploadFile_loop v a le w = (Inr x, w1)"
      by (subst uploadFile_loop.simps) simp
    with tr1 show ?thesis by simp
  next
    case (Inl error)
    define w2 where "w2 = emit (ConsoleError
                       [Str (''Upload attempt '' @ Number_toString a @ ''/'' @
                             Number_toString (uv_maxRetries v) @ '' failed:''),
                        Str (message (as_Error error))]) w1"
    define w3 where "w3 = (if a < uv_maxRetries v then sleep (500 * 2 ^ nat (a - 1)) w2 else w2)"
    have rec: "uploadFile_loop v a le w = uploadFile_loop v (a + 1) (Some (as_Error error)) w3"
      using assms t Inl unfolding w2_def w3_def
      by (subst uploadFile_loop.simps) (simp add: Let_def)
    obtain r' w' where fin: "uploadFile_loop v (a + 1) (Some (as_Error error)) w3 = (r', w')" by force
    from uploadFile_loop_extends[OF fin] obtain evs where "trace w' = trace w3 @ evs" by blast
    moreover have "\<exists>mid. trace w3 = trace w1 @ mid" by (simp add: w3_def w2_def)
    ultimately obtain rest where "trace w' = trace w1 @ rest" by auto
    with tr1 rec fin show ?thesis by simp
  qed
qed

lemma uploadFile_loop_retry_step:
  assumes "attempt < uv_maxRetries v" "uploadFile_try v w = (Inl err, w1)"
  shows "\<exists>evs. trace (snd (uploadFile_loop v attempt le w)) =
           trace w1 @ [ConsoleError
                         [Str (''Upload attempt '' @ Number_toString attempt @ ''/'' @
                               Number_toString (uv_maxRetries v) @ '' failed:''),
                          Str (message (as_Error err))],
                       Sleep (500 * 2 ^ nat (attempt - 1)),
                       Save (uv_filePath v)] @ evs"
proof -
  define w3 where "w3 = sleep (500 * 2 ^ nat (attempt - 1)) (emit (ConsoleError
                       [Str (''Upload attempt '' @ Number_toString attempt @ ''/'' @
                             Number_toString (uv_maxRetries v) @ '' failed:''),
                        Str (message (as_Error err))]) w1)"
  have rec: "uploadFile_loop v attempt le w = uploadFile_loop v (attempt + 1) (Some (as_Error err)) w3"
    using assms unfolding w3_def by (subst uploadFile_loop.simps) (simp add: Let_def)
  from assms(1) have "attempt + 1 \<le> uv_maxRetries v" by simp
  from uploadFile_loop_starts[OF this, of "Some (as_Error err)" w3] rec
  show ?thesis by (simp add: w3_def)
qed

lemma uploadFile_loop_last_step:
  assumes "attempt = uv_maxRetries v" "uploadFile_try v w = (Inl err, w1)"
  shows "trace (snd (uploadFile_loop v attempt le w)) =
           trace w1 @ [ConsoleError
                         [Str (''Upload attempt '' @ Number_toString attempt @ ''/'' @
                               Number_toString (uv_maxRetries v) @ '' failed:''),
                          Str (message (as_Error err))]]"
proof -
  have "uploadFile_loop v (attempt + 1) le' w' = (Inl (new_Error (''Failed to upload file after '' @ Number_toString (uv_maxRetries v) @
                         '' attempts: '' @
                         (case le' of None \<Rightarrow> ''undefined'' | Some e \<Rightarrow> message e))), w')" for le' w'
    using assms(1) by (subst uploadFile_loop.simps) simp
  with assms show ?thesis by (subst uploadFile_loop.simps) (simp add: Let_def)
qed


lemma readFile_loop_extends:
  "readFile_loop p n a le w = (r, w') \<Longrightarrow> \<exists>evs. trace w' = trace w @ evs"
  using readFile_loop_ticks[of p n a le w r w'] by blast

lemma readFile_loop_starts:
  assumes "a \<le> n"
  shows "\<exists>evs. trace (snd (readFile_loop p n a le w)) = trace w @ Exists p # evs"
proof -
  obtain r1 w1 where t: "readFile_try p w = (r1, w1)" by force
  from readFile_try_trace[OF t] obtain tl where tr1: "trace w1 = trace w @ Exists p # tl"
    by auto
  have stop: ?thesis if "readFile_loop p n a le w = (r, w1)" for r
    using that tr1 by simp
  show ?thesis
  proof (cases r1)
    case (Inr x)
    with assms t have "readFile_loop p n a le w = (Inr x, w1)"
      by (subst readFile_loop.simps) simp
    then show ?thesis by (rule stop)
  next
    case (Inl error)
    show ?thesis
    proof (cases "str_includes (message (as_Error error)) ''not found''")
      case True
      with assms t Inl have "readFile_loop p n a le w = (Inl (as_Error error), w1)"
        by (subst readFile_loop.simps) (simp add: Let_def)
      then show ?thesis by (rule stop)
    next
      case False
      define w2 where "w2 = emit (ConsoleWarn
                           [Str (''Read attempt '' @ Number_toString a @ ''/'' @
                                 Number_toString n @ '' failed:''),
                            Str (message (as_Error error))]) w1"
      define w3 where "w3 = (if a < n then sleep (300 * a) w2 else w2)"
      have rec: "readFile_loop p n a le w = readFile_loop p n (a + 1) (Some (as_Error error)) w3"
        using assms t Inl False unfolding w2_def w3_def
        by (subst readFile_loop.simps) (simp add: Let_def)
      obtain r' w' where fin: "readFile_loop p n (a + 1) (Some (as_Error error)) w3 = (r', w')" by force
      from readFile_loop_extends[OF fin] obtain evs where "trace w' = trace w3 @ evs" by blast
      moreover have "\<exists>mid. trace w3 = trace w1 @ mid" by (simp add: w3_def w2_def)
      ultimately obtain rest where "trace w' = trace w1 @ rest" by auto
      with tr1 rec fin show ?thesis by simp
    qed
  qed
qed

lemma readFile_loop_retry_step:
  assumes "attempt < n" "readFile_try p w = (Inl err, w1)"
    "\<not> str_includes (message (as_Error err)) ''not found''"
  shows "\<exists>evs. trace (snd (readFile_loop p n attempt le w)) =
           trace w1 @ [ConsoleWarn
                         [Str (''Read attempt '' @ Number_toString attempt @ ''/'' @
                               Number_toString n @ '' failed:''),
                          Str (message (as_Error err))],
                       Sleep (300 * attempt), Exists p] @ evs"
proof -
  define w3 where "w3 = sleep (300 * attempt) (emit (ConsoleWarn
                           [Str (''Read attempt '' @ Number_toString attempt @ ''/'' @
                                 Number_toString n @ '' failed:''),
                            Str (message (as_Error err))]) w1)"
  have rec: "readFile_loop p n attempt le w = readFile_loop p n (attempt + 1) (Some (as_Error err)) w3"
    using assms unfolding w3_def by (subst readFile_loop.simps) (simp add: Let_def)
  from assms(1) have "attempt + 1 \<le> n" by simp
  from readFile_loop_starts[OF this, of p "Some (as_Error err)" w3] rec
  show ?thesis by (simp add: w3_def)
qed

lemma readFile_loop_last_step:
  assumes "attempt = n" "readFile_try p w = (Inl err, w1)"
    "\<not> str_includes (message (as_Error err)) ''not found''"
  shows "trace (snd (readFile_loop p n attempt le w)) =
           trace w1 @ [ConsoleWarn
                         [Str (''Read attempt '' @ Number_toString attempt @ ''/'' @
                               Number_toString n @ '' failed:''),
                          Str (message (as_Error err))]]"
proof -
  have "snd (readFile_loop p n (attempt + 1) le' w') = w'" for le' w'
    using assms(1) by (subst readFile_loop.simps) simp
  with assms show ?thesis by (subst readFile_loop.simps) (simp add: Let_def)
qed

lemma convertPdfToImage_loop_extends:
  "convertPdfToImage_loop fa n a le b = (r, b') \<Longrightarrow> \<exists>evs. seen b' = seen b @ evs"
  using convertPdfToImage_loop_ticks[of fa n a le b r b'] by blast

lemma convertPdfToImage_loop_starts:
  assumes "a \<le> n"
  shows "\<exists>evs. seen (snd (convertPdfToImage_loop fa n a le b)) = seen b @ AttemptPdfConversion # evs"
proof -
  obtain r1 b1 where t: "attemptPdfConversion fa b = (r1, b1)" by force
  from attemptPdfConversion_shape[OF t] obtain result where
    e1: "seen b1 = seen b @ [AttemptPdfConversion]" "r1 = Inr result" by auto
  show ?thesis
  proof (cases "\<exists>e. pdf_error result = Some e \<and> e \<noteq> [] \<and> a < n")
    case False
    with assms t e1(2) have "convertPdfToImage_loop fa n a le b = (Inr result, b1)"
      by (subst convertPdfToImage_loop.simps) (auto split: option.splits)
    with e1(1) show ?thesis by simp
  next
    case True
    then obtain e where e: "pdf_error result = Some e" "e \<noteq> [] \<and> a < n" by blast
    define b3 where "b3 = delay (500 * a)
                         (note_event (Warn (''PDF conversion attempt '' @ Number_toString a @
                                            '' failed: '' @ e @ ''. Retrying...'')) b1)"
    have rec: "convertPdfToImage_loop fa n a le b = convertPdfToImage_loop fa n (a + 1) le b3"
      using assms t e1(2) e unfolding b3_def
      by (subst convertPdfToImage_loop.simps) simp
    obtain r' b' where fin: "convertPdfToImage_loop fa n (a + 1) le b3 = (r', b')" by force
    from convertPdfToImage_loop_extends[OF fin] obtain evs where "seen b' = seen b3 @ evs" by blast
    moreover have "\<exists>mid. seen b3 = seen b1 @ mid" by (simp add: b3_def)
    ultimately obtain rest where "seen b' = seen b1 @ rest" by auto
    with e1(1) rec fin show ?thesis by simp
  qed
qed

lemma convertPdfToImage_loop_retry_step:
  assumes "attempt < n" "attemptPdfConversion fa b = (Inr result, b1)"
    "pdf_error result = Some e" "e \<noteq> []"
  shows "\<exists>evs. seen (snd (convertPdfToImage_loop fa n attempt le b)) =
           seen b1 @ [Warn (''PDF conversion attempt '' @ Number_toString attempt @
                            '' failed: '' @ e @ ''. Retrying...''),
                      Delay (500 * attempt), AttemptPdfConversion] @ evs"
proof -
  define b3 where "b3 = delay (500 * attempt)
                         (note_event (Warn (''PDF conversion attempt '' @ Number_toString attempt @
                                            '' failed: '' @ e @ ''. Retrying...'')) b1)"
  have rec: "convertPdfToImage_loop fa n attempt le b = convertPdfToImage_loop fa n (attempt + 1) le b3"
    using assms unfolding b3_def by (subst convertPdfToImage_loop.simps) simp
  from assms(1) have "attempt + 1 \<le> n" by simp
  from convertPdfToImage_loop_starts[OF this, of fa le b3] rec
  show ?thesis by (simp add: b3_def)
qed

lemma convertPdfToImage_loop_last_step:
  assumes "attempt = n" "attemptPdfConversion fa b = (Inr result, b1)"
  shows "convertPdfToImage_loop fa n attempt le b = (Inr result, b1)"
  using assms by (subst convertPdfToImage_loop.simps) (simp split: option.splits)


lemma schedule_count:
  assumes "ticks_of upload_tick evs = backoff_schedule f k m"
  shows "length (filter is_Save evs) = m"
  using assms by (simp add: count_Save_ticks count_Try_schedule)

lemma schedule_count_read:
  assumes "ticks_of read_tick evs = backoff_schedule f k m"
  shows "length (filter is_Exists evs) = m"
  using assms by (simp add: count_Exists_ticks count_Try_schedule)

lemma schedule_count_pdf:
  assumes "ticks_of pdf_tick evs = backoff_schedule f k m"
  shows "length (filter is_Attempt evs) = m"
  using assms by (simp add: count_Attempt_ticks count_Try_schedule)

lemma uploadFile_run:
  assumes run: "uploadFile file_arg fileName ct uid folder mr uuid w = (r, w')"
  shows "\<exists>m evs. trace w' = trace w @ evs \<and>
     ticks_of upload_tick evs = backoff_schedule (\<lambda>k. 500 * 2 ^ nat (k - 1)) 1 m \<and>
     (upload_ready w file_arg fileName \<and> 1 \<le> default_maxRetries mr \<longrightarrow> 1 \<le> m) \<and>
     (upload_ready w file_arg fileName \<and> isl r \<longrightarrow> m = nat (default_maxRetries mr))"
proof (cases "upload_ready w file_arg fileName")
  case False
  from uploadFile_ticks[OF run] False show ?thesis by blast
next
  case True
  let ?n = "default_maxRetries mr"
  obtain w1 where init: "ensureInitialized w = (None, w1)" and b: "bucket w1"
    using True by (cases "ensureInitialized w") (auto simp: upload_ready_def)
  from ensureInitialized_quiet[OF init] obtain pre where
    pre: "trace w1 = trace w @ pre" "ticks_of upload_tick pre = []" by blast
  from run init b True obtain v where
    loop: "uploadFile_loop v 1 None w1 = (r, w')" and v: "uv_maxRetries v = ?n"
    by (auto simp: uploadFile_def Let_def upload_ready_def)
  from uploadFile_loop_ticks[OF loop] v obtain m evs where f:
    "trace w' = trace w1 @ evs"
    "ticks_of upload_tick evs = backoff_schedule (\<lambda>k. 500 * 2 ^ nat (k - 1)) 1 m"
    "int m \<le> max 0 ?n" "1 \<le> ?n \<longrightarrow> 1 \<le> m" by auto
  have ex: "m = nat ?n" if "isl r"
  proof (cases "1 \<le> ?n")
    case False
    with f(3) show ?thesis by simp
  next
    case n1: True
    from that obtain e where "r = Inl e" by (cases r) auto
    with loop have l: "uploadFile_loop v 1 None w1 = (Inl e, w')" by simp
    from uploadFile_loop_exhausted[OF l] n1 v
    have "length (filter is_Save (trace w')) = length (filter is_Save (trace w1)) + nat ?n" by auto
    with f(1) have "length (filter is_Save evs) = nat ?n" by simp
    with schedule_count[OF f(2)] show ?thesis by simp
  qed
  show ?thesis
    apply (rule exI[of _ m], rule exI[of _ "pre @ evs"])
    using pre f ex by auto
qed

lemma readFile_run:
  assumes run: "readFile p mr w = (r, w')"
  shows "\<exists>m evs. trace w' = trace w @ evs \<and>
     ticks_of read_tick evs = backoff_schedule (\<lambda>k. 300 * k) 1 m \<and>
     (read_ready w p \<and> 1 \<le> default_maxRetries mr \<longrightarrow> 1 \<le> m) \<and>
     (read_ready w p \<and> (\<exists>e. r = Inl e \<and> \<not> str_includes (message e) ''not found'') \<longrightarrow>
        m = nat (default_maxRetries mr))"
proof (cases "read_ready w p")
  case False
  from readFile_ticks[OF run] False show ?thesis by blast
next
  case True
  let ?n = "default_maxRetries mr"
  obtain w1 where init: "ensureInitialized w = (None, w1)" and b: "bucket w1"
    using True by (cases "ensureInitialized w") (auto simp: read_ready_def)
  from ensureInitialized_quiet[OF init] obtain pre where
    pre: "trace w1 = trace w @ pre" "ticks_of read_tick pre = []" by blast
  from run init b True have loop: "readFile_loop p ?n 1 None w1 = (r, w')"
    by (auto simp: readFile_def Let_def read_ready_def)
  from readFile_loop_ticks[OF loop] obtain m evs where f:
    "trace w' = trace w1 @ evs"
    "ticks_of read_tick evs = backoff_schedule (\<lambda>k. 300 * k) 1 m"
    "int m \<le> max 0 ?n" "1 \<le> ?n \<longrightarrow> 1 \<le> m" by auto
  have ex: "m = nat ?n" if "\<exists>e. r = Inl e \<and> \<not> str_includes (message e) ''not found''"
  proof (cases "1 \<le> ?n")
    case False
    with f(3) show ?thesis by simp
  next
    case n1: True
    from that obtain e where e: "r = Inl e" "\<not> str_includes (message e) ''not found''" by blast
    with loop have l: "readFile_loop p ?n 1 None w1 = (Inl e, w')" by simp
    from readFile_loop_exhausted[OF l e(2) n1]
    have "length (filter is_Exists (trace w')) = length (filter is_Exists (trace w1)) + nat ?n" by simp
    with f(1) have "length (filter is_Exists evs) = nat ?n" by simp
    with schedule_count_read[OF f(2)] show ?thesis by simp
  qed
  show ?thesis
    apply (rule exI[of _ m], rule exI[of _ "pre @ evs"])
    using pre f ex by auto
qed

lemma convertPdfToImage_run:
  assumes run: "convertPdfToImage fa mr b = (r, b')"
  shows "\<exists>m evs res. seen b' = seen b @ evs \<and>
     ticks_of pdf_tick evs = backoff_schedule (\<lambda>k. 500 * k) 1 m \<and>
     (1 \<le> default_maxRetries mr \<longrightarrow> 1 \<le> m) \<and>
     r = Inr res \<and> (reported res \<longrightarrow> m = nat (default_maxRetries mr))"
proof -
  let ?n = "default_maxRetries mr"
  from run have loop: "convertPdfToImage_loop fa ?n 1 None b = (r, b')"
    by (simp add: convertPdfToImage_def)
  from convertPdfToImage_loop_ticks[OF loop] obtain m evs res where f:
    "seen b' = seen b @ evs" "ticks_of pdf_tick evs = backoff_schedule (\<lambda>k. 500 * k) 1 m"
    "int m \<le> max 0 ?n" "1 \<le> ?n \<longrightarrow> 1 \<le> m" "r = Inr res" by auto
  have ex: "m = nat ?n" if "reported res"
  proof (cases "1 \<le> ?n")
    case False
    with f(3) show ?thesis by simp
  next
    case n1: True
    from loop f(5) have l: "convertPdfToImage_loop fa ?n 1 None b = (Inr res, b')" by simp
    from convertPdfToImage_loop_exhausted[OF l that n1]
    have "length (filter is_Attempt (seen b')) = length (filter is_Attempt (seen b)) + nat ?n" by simp
    with f(1) have "length (filter is_Attempt evs) = nat ?n" by simp
    with schedule_count_pdf[OF f(2)] show ?thesis by simp
  qed
  show ?thesis
    apply (rule exI[of _ m], rule exI[of _ evs], rule exI[of _ res])
    using f ex by auto
qed

section \<open>Retrying\<close>

text \<open>
  Claim C1. Whatever the storage service, the browser and the PDF library do, and whatever
  \<open>maxRetries\<close> is given (3 when it is left out), one call of \<open>uploadFile\<close> makes at most
  \<open>maxRetries\<close> calls of \<open>save\<close>, one call of \<open>readFile\<close> at most \<open>maxRetries\<close> existence
  checks and at most as many downloads, and one call of \<open>convertPdfToImage\<close> at most
  \<open>maxRetries\<close> calls of \<open>attemptPdfConversion\<close>. A maximum below one means no attempt at all.
\<close>

theorem retry_count_never_exceeds_maxRetries:
  "length (filter is_Save (trace (snd (uploadFile file fileName ct uid folder mr uuid w))))
     \<le> length (filter is_Save (trace w)) + nat (default_maxRetries mr) \<and>
   length (filter is_Exists (trace (snd (readFile p mr w))))
     \<le> length (filter is_Exists (trace w)) + nat (default_maxRetries mr) \<and>
   length (filter is_Download (trace (snd (readFile p mr w))))
     \<le> length (filter is_Download (trace w)) + nat (default_maxRetries mr) \<and>
   length (filter is_Attempt (seen (snd (convertPdfToImage fa mr b))))
     \<le> length (filter is_Attempt (seen b)) + nat (default_maxRetries mr)"
proof (intro conjI)
  obtain r w' where run: "uploadFile file fileName ct uid folder mr uuid w = (r, w')" by force
  from uploadFile_ticks[OF run] obtain m evs where
    "trace w' = trace w @ evs"
    "ticks_of upload_tick evs = backoff_schedule (\<lambda>k. 500 * 2 ^ nat (k - 1)) 1 m"
    "m \<le> nat (default_maxRetries mr)" by blast
  then show "length (filter is_Save (trace (snd (uploadFile file fileName ct uid folder mr uuid w))))
     \<le> length (filter is_Save (trace w)) + nat (default_maxRetries mr)"
    by (simp add: run count_Save_ticks count_Try_schedule)
next
  obtain r w' where run: "readFile p mr w = (r, w')" by force
  from readFile_ticks[OF run] obtain m evs where f:
    "trace w' = trace w @ evs"
    "ticks_of read_tick evs = backoff_schedule (\<lambda>k. 300 * k) 1 m"
    "m \<le> nat (default_maxRetries mr)" "length (filter is_Download evs) \<le> m" by blast
  then show "length (filter is_Exists (trace (snd (readFile p mr w))))
     \<le> length (filter is_Exists (trace w)) + nat (default_maxRetries mr)"
    by (simp add: run count_Exists_ticks count_Try_schedule)
  from f show "length (filter is_Download (trace (snd (readFile p mr w))))
     \<le> length (filter is_Download (trace w)) + nat (default_maxRetries mr)"
    by (simp add: run)
next
  obtain r b' where run: "convertPdfToImage fa mr b = (r, b')" by force
  from convertPdfToImage_ticks[OF run] obtain m evs where
    "seen b' = seen b @ evs"
    "ticks_of pdf_tick evs = backoff_schedule (\<lambda>k. 500 * k) 1 m"
    "m \<le> nat (default_maxRetries mr)" by blast
  then show "length (filter is_Attempt (seen (snd (convertPdfToImage fa mr b))))
     \<le> length (filter is_Attempt (seen b)) + nat (default_maxRetries mr)"
    by (simp add: run count_Attempt_ticks count_Try_schedule)
qed

text \<open>
  Claim C2. At any attempt of \<open>readFile\<close>'s loop, with any number of retries left, a failure
  whose message contains \<open>not found\<close> ends the call at once: the error is thrown and the world
  is the one that attempt left, so nothing is logged, waited for or tried after it. In
  particular, when the module is ready and the file is not in the bucket, \<open>readFile\<close> throws
  \<open>File not found: <path>\<close> after a single existence check.
\<close>

theorem readFile_not_found_stops_retrying:
  "(attempt \<le> maxRetries \<and> readFile_try filePath w = (Inl err, w1) \<and>
      str_includes (message (as_Error err)) ''not found'' \<longrightarrow>
      readFile_loop filePath maxRetries attempt lastError w = (Inl (as_Error err), w1)) \<and>
   (storage w \<and> initializationError w = None \<and> bucket w \<and> filePath \<noteq> [] \<and>
      1 \<le> default_maxRetries mr \<and> objects w filePath = None \<and>
      (faults w = [] \<or> hd (faults w) = None) \<longrightarrow>
      fst (readFile filePath mr w) = Inl (new_Error (''File not found: '' @ filePath)) \<and>
      trace (snd (readFile filePath mr w)) = trace w @ [Exists filePath])"
proof (intro conjI impI)
  assume a: "attempt \<le> maxRetries \<and> readFile_try filePath w = (Inl err, w1) \<and>
      str_includes (message (as_Error err)) ''not found''"
  then show "readFile_loop filePath maxRetries attempt lastError w = (Inl (as_Error err), w1)"
    by (subst readFile_loop.simps) (simp add: Let_def)
next
  assume a: "storage w \<and> initializationError w = None \<and> bucket w \<and> filePath \<noteq> [] \<and>
      1 \<le> default_maxRetries mr \<and> objects w filePath = None \<and>
      (faults w = [] \<or> hd (faults w) = None)"
  then have run: "readFile filePath mr w = readFile_loop filePath (default_maxRetries mr) 1 None w"
    by (simp add: readFile_def ensureInitialized_again)
  from a readFile_loop_missing[of 1 "default_maxRetries mr" w filePath None]
  obtain wx where "readFile_loop filePath (default_maxRetries mr) 1 None w =
           (Inl (new_Error (''File not found: '' @ filePath)), wx)"
         "trace wx = trace w @ [Exists filePath]" by blast
  with run show "fst (readFile filePath mr w) = Inl (new_Error (''File not found: '' @ filePath))"
    and "trace (snd (readFile filePath mr w)) = trace w @ [Exists filePath]" by simp_all
qed

text \<open>An instance: a file that is not in an empty bucket, asked for at the second of three attempts and by a whole call.\<close>

theorem readFile_not_found_witness:
  "fst (readFile_loop ''missing.pdf'' 3 2 None ready_world) =
     Inl (new_Error ''File not found: missing.pdf'') \<and>
   fst (readFile ''missing.pdf'' None ready_world) = Inl (new_Error ''File not found: missing.pdf'') \<and>
   trace (snd (readFile ''missing.pdf'' None ready_world)) = [Exists ''missing.pdf'']"
proof -
  let ?e = "new_Error ''File not found: missing.pdf''"
  have "fst (readFile_try ''missing.pdf'' ready_world) = Inl ?e" by code_simp
  then have t: "readFile_try ''missing.pdf'' ready_world =
      (Inl ?e, snd (readFile_try ''missing.pdf'' ready_world))" by (rule pair_with_snd)
  have i: "str_includes (message (as_Error ?e)) ''not found''" by code_simp
  have h1: "(2::int) \<le> 3 \<and> readFile_try ''missing.pdf'' ready_world =
      (Inl ?e, snd (readFile_try ''missing.pdf'' ready_world)) \<and>
      str_includes (message (as_Error ?e)) ''not found''" using t i by simp
  have h2: "storage ready_world \<and> initializationError ready_world = None \<and> bucket ready_world \<and>
      ''missing.pdf'' \<noteq> [] \<and> 1 \<le> default_maxRetries None \<and> objects ready_world ''missing.pdf'' = None \<and>
      (faults ready_world = [] \<or> hd (faults ready_world) = None)"
    by (simp add: ready_world_def default_maxRetries_def)
  note inst = readFile_not_found_stops_retrying[of 2 3 "''missing.pdf''" ready_world ?e
      "snd (readFile_try ''missing.pdf'' ready_world)" None None]
  from inst[THEN conjunct1, THEN mp, OF h1] inst[THEN conjunct2, THEN mp, OF h2]
  show ?thesis by (simp add: new_Error_def ready_world_def)
qed

text \<open>
  Claim C3, as the code has it. When \<open>uploadFile\<close> has passed its checks and all of its
  \<open>maxRetries\<close> (at least one) attempts fail, it throws an error whose message is
  \<open>Failed to upload file after <maxRetries> attempts: <message>\<close>, where the message is the
  one logged for the last attempt; so it includes the attempt count and the last failure.
  \<open>convertPdfToImage\<close>, given at least one attempt, returns what its last call of
  \<open>attemptPdfConversion\<close> returned, unchanged: a failure of the last attempt is reported by
  that attempt's own error text.
\<close>

theorem exhausted_retries_report_last_failure:
  "(ensureInitialized w = (None, w1) \<and> bucket w1 \<and> file \<noteq> [] \<and> fileName \<noteq> [] \<and> 1 \<le> n \<and>
      uploadFile file fileName ct uid folder (Some n) uuid w = (Inl e, w') \<longrightarrow>
      (\<exists>m. last (trace w') =
              ConsoleError [Str (''Upload attempt '' @ Number_toString n @ ''/'' @
                                 Number_toString n @ '' failed:''), Str m] \<and>
            message e = ''Failed to upload file after '' @ Number_toString n @ '' attempts: '' @ m \<and>
            str_includes (message e) (Number_toString n) \<and> str_includes (message e) m \<and>
            length (filter is_Save (trace w')) = length (filter is_Save (trace w1)) + nat n)) \<and>
   (1 \<le> n \<longrightarrow> (\<exists>b0. convertPdfToImage fa (Some n) b = attemptPdfConversion fa b0))"
proof (intro conjI impI)
  assume a: "ensureInitialized w = (None, w1) \<and> bucket w1 \<and> file \<noteq> [] \<and> fileName \<noteq> [] \<and> 1 \<le> n \<and>
      uploadFile file fileName ct uid folder (Some n) uuid w = (Inl e, w')"
  then obtain v where loop: "uploadFile_loop v 1 None w1 = (Inl e, w')" and v: "uv_maxRetries v = n"
    by (auto simp: uploadFile_def Let_def default_maxRetries_def)
  from a v have "1 \<le> uv_maxRetries v" by simp
  from uploadFile_loop_exhausted[OF loop this] v obtain m where m:
    "last (trace w') = ConsoleError [Str (''Upload attempt '' @ Number_toString n @ ''/'' @
                                 Number_toString n @ '' failed:''), Str m]"
    "e = new_Error (''Failed to upload file after '' @ Number_toString n @ '' attempts: '' @ m)"
    "length (filter is_Save (trace w')) = length (filter is_Save (trace w1)) + nat n" by auto
  have "str_includes (message e) (Number_toString n)"
    using str_includes_middle[of "''Failed to upload file after ''" "Number_toString n" "'' attempts: '' @ m"]
    by (simp add: m(2) new_Error_def)
  moreover have "str_includes (message e) m"
    using str_includes_end[of "''Failed to upload file after '' @ Number_toString n @ '' attempts: ''" m]
    by (simp add: m(2) new_Error_def)
  ultimately show "\<exists>m. last (trace w') =
              ConsoleError [Str (''Upload attempt '' @ Number_toString n @ ''/'' @
                                 Number_toString n @ '' failed:''), Str m] \<and>
            message e = ''Failed to upload file after '' @ Number_toString n @ '' attempts: '' @ m \<and>
            str_includes (message e) (Number_toString n) \<and> str_includes (message e) m \<and>
            length (filter is_Save (trace w')) = length (filter is_Save (trace w1)) + nat n"
    using m by (intro exI[of _ m]) (simp add: new_Error_def)
next
  assume "1 \<le> n"
  then show "\<exists>b0. convertPdfToImage fa (Some n) b = attemptPdfConversion fa b0"
    using convertPdfToImage_loop_last[of 1 n fa None b]
    by (simp add: convertPdfToImage_def default_maxRetries_def)
qed

text \<open>An instance: three attempts against a service that fails three times, and three attempts at a document that does not parse.\<close>

theorem exhausted_retries_witness:
  "(\<exists>m. last (trace (snd failed_upload)) =
          ConsoleError [Str (''Upload attempt '' @ Number_toString 3 @ ''/'' @ Number_toString 3 @
                             '' failed:''), Str m] \<and>
        message (new_Error ''Failed to upload file after 3 attempts: quota exceeded'') =
          ''Failed to upload file after '' @ Number_toString 3 @ '' attempts: '' @ m \<and>
        str_includes (message (new_Error ''Failed to upload file after 3 attempts: quota exceeded''))
          (Number_toString 3) \<and>
        str_includes (message (new_Error ''Failed to upload file after 3 attempts: quota exceeded'')) m \<and>
        length (filter is_Save (trace (snd failed_upload))) =
          length (filter is_Save (trace flaky_world)) + nat 3) \<and>
   (\<exists>b0. convertPdfToImage (Some resume_pdf) (Some 3) broken_pdf_browser =
          attemptPdfConversion (Some resume_pdf) b0)"
proof -
  let ?e = "new_Error ''Failed to upload file after 3 attempts: quota exceeded''"
  have "storage flaky_world" by (simp add: flaky_world_def ready_world_def)
  from ensureInitialized_again[OF this]
  have i: "ensureInitialized flaky_world = (None, flaky_world)"
    by (simp add: flaky_world_def ready_world_def)
  have "fst failed_upload = Inl ?e" by code_simp
  then have u: "uploadFile [1, 2] ''cv.pdf'' ''application/pdf'' (Some ''u1'') None (Some 3) ''f1'' flaky_world
      = (Inl ?e, snd failed_upload)"
    unfolding failed_upload_def by (rule pair_with_snd)
  have h1: "ensureInitialized flaky_world = (None, flaky_world) \<and> bucket flaky_world \<and>
      [1, 2 :: 8 word] \<noteq> [] \<and> ''cv.pdf'' \<noteq> [] \<and> (1::int) \<le> 3 \<and>
      uploadFile [1, 2] ''cv.pdf'' ''application/pdf'' (Some ''u1'') None (Some 3) ''f1'' flaky_world
      = (Inl ?e, snd failed_upload)"
    using i u by (simp add: flaky_world_def ready_world_def)
  have h2: "(1::int) \<le> 3" by simp
  note inst = exhausted_retries_report_last_failure[of flaky_world flaky_world "[1, 2]" "''cv.pdf''" 3
      "''application/pdf''" "Some ''u1''" None "''f1''" ?e "snd failed_upload"
      "Some resume_pdf" broken_pdf_browser]
  from inst[THEN conjunct1, THEN mp, OF h1] inst[THEN conjunct2, THEN mp, OF h2]
  show ?thesis by blast
qed

text \<open>
  Claim C3 as stated fails for \<open>convertPdfToImage\<close>: with three attempts that all fail to
  parse the document, the error returned is the last attempt's text, and the attempt count
  is not in it.
\<close>

theorem convertPdfToImage_error_without_attempt_count:
  "fst (convertPdfToImage (Some resume_pdf) (Some 3) broken_pdf_browser) =
     Inr (failure ''PDF parsing failed: Invalid PDF structure'') \<and>
   length (filter is_Attempt (seen (snd (convertPdfToImage (Some resume_pdf) (Some 3) broken_pdf_browser)))) = 3 \<and>
   \<not> str_includes ''PDF parsing failed: Invalid PDF structure'' (Number_toString 3)"
  by code_simp

text \<open>
  Claim C4. In every run of the three retry loops the attempts and the delays alternate:
  after attempt number \<open>attempt\<close> and before the next one, \<open>uploadFile\<close> waits
  \<open>500 * 2 ^ (attempt - 1)\<close> ms, \<open>readFile\<close> waits \<open>300 * attempt\<close> ms and
  \<open>convertPdfToImage\<close> waits \<open>500 * attempt\<close> ms; the delays of a run are strictly
  increasing, and nothing is waited after the last attempt of the run. The number \<open>m\<close> of
  the schedule is the number of attempts made (\<open>save\<close>, \<open>exists\<close> and
  \<open>attemptPdfConversion\<close> calls): at least one once the arguments are accepted and
  \<open>maxRetries\<close> is at least one, and exactly \<open>maxRetries\<close> when the run ends in failure.
  Step by step: an attempt that fails with retries left is followed by its log line, by the
  delay of that attempt and by a further attempt; an attempt that fails at the last try is
  followed by its log line and nothing else (no delay, no further attempt), and the
  conversion returns the failed result as it is.
\<close>

theorem backoff_between_attempts:
  "(\<exists>m evs. trace (snd (uploadFile file_arg fileName ct uid folder mr uuid w)) = trace w @ evs \<and>
      length (filter is_Save evs) = m \<and>
      ticks_of upload_tick evs = backoff_schedule (\<lambda>attempt. 500 * 2 ^ nat (attempt - 1)) 1 m \<and>
      waits (ticks_of upload_tick evs) = map (\<lambda>attempt. 500 * 2 ^ nat (attempt - 1)) [1..int m - 1] \<and>
      sorted_wrt (<) (waits (ticks_of upload_tick evs)) \<and>
      (ticks_of upload_tick evs = [] \<or> last (ticks_of upload_tick evs) = Try) \<and>
      (upload_ready w file_arg fileName \<and> 1 \<le> default_maxRetries mr \<longrightarrow> 1 \<le> m) \<and>
      (upload_ready w file_arg fileName \<and>
         isl (fst (uploadFile file_arg fileName ct uid folder mr uuid w)) \<longrightarrow>
         m = nat (default_maxRetries mr))) \<and>
   (\<exists>m evs. trace (snd (readFile p mr w)) = trace w @ evs \<and>
      length (filter is_Exists evs) = m \<and>
      ticks_of read_tick evs = backoff_schedule (\<lambda>attempt. 300 * attempt) 1 m \<and>
      waits (ticks_of read_tick evs) = map (\<lambda>attempt. 300 * attempt) [1..int m - 1] \<and>
      sorted_wrt (<) (waits (ticks_of read_tick evs)) \<and>
      (ticks_of read_tick evs = [] \<or> last (ticks_of read_tick evs) = Try) \<and>
      (read_ready w p \<and> 1 \<le> default_maxRetries mr \<longrightarrow> 1 \<le> m) \<and>
      (read_ready w p \<and>
         (\<exists>e. fst (readFile p mr w) = Inl e \<and> \<not> str_includes (message e) ''not found'') \<longrightarrow>
         m = nat (default_maxRetries mr))) \<and>
   (\<exists>m evs res. seen (snd (convertPdfToImage fa mr b)) = seen b @ evs \<and>
      length (filter is_Attempt evs) = m \<and>
      ticks_of pdf_tick evs = backoff_schedule (\<lambda>attempt. 500 * attempt) 1 m \<and>
      waits (ticks_of pdf_tick evs) = map (\<lambda>attempt. 500 * attempt) [1..int m - 1] \<and>
      sorted_wrt (<) (waits (ticks_of pdf_tick evs)) \<and>
      (ticks_of pdf_tick evs = [] \<or> last (ticks_of pdf_tick evs) = Try) \<and>
      (1 \<le> default_maxRetries mr \<longrightarrow> 1 \<le> m) \<and>
      fst (convertPdfToImage fa mr b) = Inr res \<and>
      (reported res \<longrightarrow> m = nat (default_maxRetries mr))) \<and>
   (attempt < uv_maxRetries v \<and> uploadFile_try v wu = (Inl err, wu1) \<longrightarrow>
      (\<exists>evs. trace (snd (uploadFile_loop v attempt lastError wu)) =
          trace wu1 @
          [ConsoleError [Str (''Upload attempt '' @ Number_toString attempt @ ''/'' @
                              Number_toString (uv_maxRetries v) @ '' failed:''),
                         Str (message (as_Error err))],
           Sleep (500 * 2 ^ nat (attempt - 1)), Save (uv_filePath v)] @ evs)) \<and>
   (attempt = uv_maxRetries v \<and> uploadFile_try v wu = (Inl err, wu1) \<longrightarrow>
      trace (snd (uploadFile_loop v attempt lastError wu)) =
          trace wu1 @
          [ConsoleError [Str (''Upload attempt '' @ Number_toString attempt @ ''/'' @
                              Number_toString (uv_maxRetries v) @ '' failed:''),
                         Str (message (as_Error err))]]) \<and>
   (attempt < maxRetries \<and> readFile_try filePath wr = (Inl err, wr1) \<and>
      \<not> str_includes (message (as_Error err)) ''not found'' \<longrightarrow>
      (\<exists>evs. trace (snd (readFile_loop filePath maxRetries attempt lastError wr)) =
          trace wr1 @
          [ConsoleWarn [Str (''Read attempt '' @ Number_toString attempt @ ''/'' @
                             Number_toString maxRetries @ '' failed:''),
                        Str (message (as_Error err))],
           Sleep (300 * attempt), Exists filePath] @ evs)) \<and>
   (attempt = maxRetries \<and> readFile_try filePath wr = (Inl err, wr1) \<and>
      \<not> str_includes (message (as_Error err)) ''not found'' \<longrightarrow>
      trace (snd (readFile_loop filePath maxRetries attempt lastError wr)) =
          trace wr1 @
          [ConsoleWarn [Str (''Read attempt '' @ Number_toString attempt @ ''/'' @
                             Number_toString maxRetries @ '' failed:''),
                        Str (message (as_Error err))]]) \<and>
   (attempt < maxRetries \<and> attemptPdfConversion fa bp = (Inr result, bp1) \<and>
      pdf_error result = Some msg \<and> msg \<noteq> [] \<longrightarrow>
      (\<exists>evs. seen (snd (convertPdfToImage_loop fa maxRetries attempt lastError bp)) =
          seen bp1 @
          [Warn (''PDF conversion attempt '' @ Number_toString attempt @ '' failed: '' @ msg @
                 ''. Retrying...''),
           Delay (500 * attempt), AttemptPdfConversion] @ evs)) \<and>
   (attempt = maxRetries \<and> attemptPdfConversion fa bp = (Inr result, bp1) \<longrightarrow>
      convertPdfToImage_loop fa maxRetries attempt lastError bp = (Inr result, bp1))"
proof (intro conjI)
  obtain r w' where run: "uploadFile file_arg fileName ct uid folder mr uuid w = (r, w')" by force
  from uploadFile_run[OF run] obtain m evs where f:
    "trace w' = trace w @ evs"
    "ticks_of upload_tick evs = backoff_schedule (\<lambda>k. 500 * 2 ^ nat (k - 1)) 1 m"
    "upload_ready w file_arg fileName \<and> 1 \<le> default_maxRetries mr \<longrightarrow> 1 \<le> m"
    "upload_ready w file_arg fileName \<and> isl r \<longrightarrow> m = nat (default_maxRetries mr)" by blast
  from schedule_facts[OF f(2) exponential_increasing] schedule_count[OF f(2)] f(1,3,4)
  show "\<exists>m evs. trace (snd (uploadFile file_arg fileName ct uid folder mr uuid w)) = trace w @ evs \<and>
      length (filter is_Save evs) = m \<and>
      ticks_of upload_tick evs = backoff_schedule (\<lambda>attempt. 500 * 2 ^ nat (attempt - 1)) 1 m \<and>
      waits (ticks_of upload_tick evs) = map (\<lambda>attempt. 500 * 2 ^ nat (attempt - 1)) [1..int m - 1] \<and>
      sorted_wrt (<) (waits (ticks_of upload_tick evs)) \<and>
      (ticks_of upload_tick evs = [] \<or> last (ticks_of upload_tick evs) = Try) \<and>
      (upload_ready w file_arg fileName \<and> 1 \<le> default_maxRetries mr \<longrightarrow> 1 \<le> m) \<and>
      (upload_ready w file_arg fileName \<and>
         isl (fst (uploadFile file_arg fileName ct uid folder mr uuid w)) \<longrightarrow>
         m = nat (default_maxRetries mr))"
    unfolding run snd_conv fst_conv by (intro exI[of _ m] exI[of _ evs] conjI) blast+
next
  obtain r w' where run: "readFile p mr w = (r, w')" by force
  from readFile_run[OF run] obtain m evs where f:
    "trace w' = trace w @ evs"
    "ticks_of read_tick evs = backoff_schedule (\<lambda>k. 300 * k) 1 m"
    "read_ready w p \<and> 1 \<le> default_maxRetries mr \<longrightarrow> 1 \<le> m"
    "read_ready w p \<and> (\<exists>e. r = Inl e \<and> \<not> str_includes (message e) ''not found'') \<longrightarrow>
        m = nat (default_maxRetries mr)" by blast
  have inc: "\<And>x y::int. 1 \<le> x \<Longrightarrow> x < y \<Longrightarrow> 300 * x < 300 * y" by simp
  from schedule_facts[OF f(2) inc] schedule_count_read[OF f(2)] f(1,3,4)
  show "\<exists>m evs. trace (snd (readFile p mr w)) = trace w @ evs \<and>
      length (filter is_Exists evs) = m \<and>
      ticks_of read_tick evs = backoff_schedule (\<lambda>attempt. 300 * attempt) 1 m \<and>
      waits (ticks_of read_tick evs) = map (\<lambda>attempt. 300 * attempt) [1..int m - 1] \<and>
      sorted_wrt (<) (waits (ticks_of read_tick evs)) \<and>
      (ticks_of read_tick evs = [] \<or> last (ticks_of read_tick evs) = Try) \<and>
      (read_ready w p \<and> 1 \<le> default_maxRetries mr \<longrightarrow> 1 \<le> m) \<and>
      (read_ready w p \<and>
         (\<exists>e. fst (readFile p mr w) = Inl e \<and> \<not> str_includes (message e) ''not found'') \<longrightarrow>
         m = nat (default_maxRetries mr))"
    unfolding run snd_conv fst_conv by (intro exI[of _ m] exI[of _ evs] conjI) blast+
next
  obtain r b' where run: "convertPdfToImage fa mr b = (r, b')" by force
  from convertPdfToImage_run[OF run] obtain m evs res where f:
    "seen b' = seen b @ evs"
    "ticks_of pdf_tick evs = backoff_schedule (\<lambda>k. 500 * k) 1 m"
    "1 \<le> default_maxRetries mr \<longrightarrow> 1 \<le> m" "r = Inr res"
    "reported res \<longrightarrow> m = nat (default_maxRetries mr)" by blast
  have inc: "\<And>x y::int. 1 \<le> x \<Longrightarrow> x < y \<Longrightarrow> 500 * x < 500 * y" by simp
  from schedule_facts[OF f(2) inc] schedule_count_pdf[OF f(2)] f(1,3,4,5)
  show "\<exists>m evs res. seen (snd (convertPdfToImage fa mr b)) = seen b @ evs \<and>
      length (filter is_Attempt evs) = m \<and>
      ticks_of pdf_tick evs = backoff_schedule (\<lambda>attempt. 500 * attempt) 1 m \<and>
      waits (ticks_of pdf_tick evs) = map (\<lambda>attempt. 500 * attempt) [1..int m - 1] \<and>
      sorted_wrt (<) (waits (ticks_of pdf_tick evs)) \<and>
      (ticks_of pdf_tick evs = [] \<or> last (ticks_of pdf_tick evs) = Try) \<and>
      (1 \<le> default_maxRetries mr \<longrightarrow> 1 \<le> m) \<and>
      fst (convertPdfToImage fa mr b) = Inr res \<and>
      (reported res \<longrightarrow> m = nat (default_maxRetries mr))"
    unfolding run snd_conv fst_conv by (intro exI[of _ m] exI[of _ evs] exI[of _ res] conjI) blast+
next
  show "attempt < uv_maxRetries v \<and> uploadFile_try v wu = (Inl err, wu1) \<longrightarrow>
      (\<exists>evs. trace (snd (uploadFile_loop v attempt lastError wu)) =
          trace wu1 @
          [ConsoleError [Str (''Upload attempt '' @ Number_toString attempt @ ''/'' @
                              Number_toString (uv_maxRetries v) @ '' failed:''),
                         Str (message (as_Error err))],
           Sleep (500 * 2 ^ nat (attempt - 1)), Save (uv_filePath v)] @ evs)"
    using uploadFile_loop_retry_step[of attempt v wu err wu1 lastError] by blast
next
  show "attempt = uv_maxRetries v \<and> uploadFile_try v wu = (Inl err, wu1) \<longrightarrow>
      trace (snd (uploadFile_loop v attempt lastError wu)) =
          trace wu1 @
          [ConsoleError [Str (''Upload attempt '' @ Number_toString attempt @ ''/'' @
                              Number_toString (uv_maxRetries v) @ '' failed:''),
                         Str (message (as_Error err))]]"
    using uploadFile_loop_last_step[of attempt v wu err wu1 lastError] by blast
next
  show "attempt < maxRetries \<and> readFile_try filePath wr = (Inl err, wr1) \<and>
      \<not> str_includes (message (as_Error err)) ''not found'' \<longrightarrow>
      (\<exists>evs. trace (snd (readFile_loop filePath maxRetries attempt lastError wr)) =
          trace wr1 @
          [ConsoleWarn [Str (''Read attempt '' @ Number_toString attempt @ ''/'' @
                             Number_toString maxRetries @ '' failed:''),
                        Str (message (as_Error err))],
           Sleep (300 * attempt), Exists filePath] @ evs)"
    using readFile_loop_retry_step[of attempt maxRetries filePath wr err wr1 lastError] by blast
next
  show "attempt = maxRetries \<and> readFile_try filePath wr = (Inl err, wr1) \<and>
      \<not> str_includes (message (as_Error err)) ''not found'' \<longrightarrow>
      trace (snd (readFile_loop filePath maxRetries attempt lastError wr)) =
          trace wr1 @
          [ConsoleWarn [Str (''Read attempt '' @ Number_toString attempt @ ''/'' @
                             Number_toString maxRetries @ '' failed:''),
                        Str (message (as_Error err))]]"
    using readFile_loop_last_step[of attempt maxRetries filePath wr err wr1 lastError] by blast
next
  show "attempt < maxRetries \<and> attemptPdfConversion fa bp = (Inr result, bp1) \<and>
      pdf_error result = Some msg \<and> msg \<noteq> [] \<longrightarrow>
      (\<exists>evs. seen (snd (convertPdfToImage_loop fa maxRetries attempt lastError bp)) =
          seen bp1 @
          [Warn (''PDF conversion attempt '' @ Number_toString attempt @ '' failed: '' @ msg @
                 ''. Retrying...''),
           Delay (500 * attempt), AttemptPdfConversion] @ evs)"
    using convertPdfToImage_loop_retry_step[of attempt maxRetries fa bp result bp1 msg lastError] by blast
next
  show "attempt = maxRetries \<and> attemptPdfConversion fa bp = (Inr result, bp1) \<longrightarrow>
      convertPdfToImage_loop fa maxRetries attempt lastError bp = (Inr result, bp1)"
    using convertPdfToImage_loop_last_step[of attempt maxRetries fa bp result bp1 lastError] by blast
qed

text \<open>
  An instance: three attempts against a storage service that fails three times and at a
  document that does not parse, and the first and the third step of each loop.
\<close>

theorem backoff_between_attempts_witness:
  "ticks_of upload_tick (trace (snd failed_upload)) = [Try, Wait 500, Try, Wait 1000, Try] \<and>
   ticks_of read_tick (trace (snd (readFile ''users/u1/f1.pdf'' (Some 3) flaky_world))) =
     [Try, Wait 300, Try, Wait 600, Try] \<and>
   ticks_of pdf_tick (seen (snd (convertPdfToImage (Some resume_pdf) (Some 3) broken_pdf_browser))) =
     [Try, Wait 500, Try, Wait 1000, Try] \<and>
   (\<exists>evs. trace (snd (uploadFile_loop demo_upload_vars 1 None flaky_world)) =
      [Save ''users/u1/f1.pdf'',
       ConsoleError [Str ''Upload attempt 1/3 failed:'', Str ''socket hang up''],
       Sleep 500, Save ''users/u1/f1.pdf''] @ evs) \<and>
   trace (snd (uploadFile_loop demo_upload_vars 3 None flaky_world)) =
      [Save ''users/u1/f1.pdf'',
       ConsoleError [Str ''Upload attempt 3/3 failed:'', Str ''socket hang up'']] \<and>
   (\<exists>evs. trace (snd (readFile_loop ''users/u1/f1.pdf'' 3 1 None flaky_world)) =
      [Exists ''users/u1/f1.pdf'',
       ConsoleWarn [Str ''Read attempt 1/3 failed:'', Str ''socket hang up''],
       Sleep 300, Exists ''users/u1/f1.pdf''] @ evs) \<and>
   trace (snd (readFile_loop ''users/u1/f1.pdf'' 3 3 None flaky_world)) =
      [Exists ''users/u1/f1.pdf'',
       ConsoleWarn [Str ''Read attempt 3/3 failed:'', Str ''socket hang up'']] \<and>
   (\<exists>evs. seen (snd (convertPdfToImage_loop (Some resume_pdf) 3 1 None broken_pdf_browser)) =
      [AttemptPdfConversion,
       Warn ''PDF conversion attempt 1 failed: PDF parsing failed: Invalid PDF structure. Retrying...'',
       Delay 500, AttemptPdfConversion] @ evs) \<and>
   fst (convertPdfToImage_loop (Some resume_pdf) 3 3 None broken_pdf_browser) =
      Inr (failure ''PDF parsing failed: Invalid PDF structure'')"
proof -
  let ?p = "''users/u1/f1.pdf''"
  let ?e = "new_Error ''socket hang up''"
  let ?res = "failure ''PDF parsing failed: Invalid PDF structure''"
  let ?msg = "''PDF parsing failed: Invalid PDF structure''"
  let ?wu1 = "snd (uploadFile_try demo_upload_vars flaky_world)"
  let ?wr1 = "snd (readFile_try ?p flaky_world)"
  let ?bp1 = "snd (attemptPdfConversion (Some resume_pdf) broken_pdf_browser)"
  note inst1 = backoff_between_attempts[of "[1, 2]" "''cv.pdf''" "''application/pdf''" "Some ''u1''" None
      "Some 3" "''f1''" flaky_world ?p "Some resume_pdf" broken_pdf_browser
      1 demo_upload_vars flaky_world ?e ?wu1 None 3 ?p flaky_world ?wr1 broken_pdf_browser ?res ?bp1 ?msg]
  note inst3 = backoff_between_attempts[of "[1, 2]" "''cv.pdf''" "''application/pdf''" "Some ''u1''" None
      "Some 3" "''f1''" flaky_world ?p "Some resume_pdf" broken_pdf_browser
      3 demo_upload_vars flaky_world ?e ?wu1 None 3 ?p flaky_world ?wr1 broken_pdf_browser ?res ?bp1 ?msg]
  have st: "storage flaky_world" "initializationError flaky_world = None" "bucket flaky_world"
    "trace flaky_world = []" "seen broken_pdf_browser = []"
    by (simp_all add: flaky_world_def ready_world_def broken_pdf_browser_def)
  have n3: "default_maxRetries (Some 3) = 3" by (simp add: default_maxRetries_def)
  have sched: "backoff_schedule f 1 3 = [Try, Wait (f 1), Try, Wait (f 2), Try]" for f
    by (simp add: eval_nat_numeral)
  \<comment> \<open>the whole runs\<close>
  have ur: "upload_ready flaky_world [1, 2] ''cv.pdf''"
    using st by (simp add: upload_ready_def ensureInitialized_again)
  have uf: "isl (fst (uploadFile [1, 2] ''cv.pdf'' ''application/pdf'' (Some ''u1'') None (Some 3) ''f1'' flaky_world))"
    by code_simp
  from inst1[THEN conjunct1] ur uf n3 obtain evs where
    "trace (snd (uploadFile [1, 2] ''cv.pdf'' ''application/pdf'' (Some ''u1'') None (Some 3) ''f1'' flaky_world)) =
       trace flaky_world @ evs"
    "ticks_of upload_tick evs = backoff_schedule (\<lambda>attempt. 500 * 2 ^ nat (attempt - 1)) 1 3"
    by auto
  then have w1: "ticks_of upload_tick (trace (snd failed_upload)) = [Try, Wait 500, Try, Wait 1000, Try]"
    by (simp add: failed_upload_def st sched)
  have rr: "read_ready flaky_world ?p"
    using st by (simp add: read_ready_def ensureInitialized_again)
  have "fst (readFile ?p (Some 3) flaky_world) = Inl (new_Error ''quota exceeded'')" by code_simp
  moreover have "\<not> str_includes (message (new_Error ''quota exceeded'')) ''not found''" by code_simp
  ultimately have rf: "\<exists>e. fst (readFile ?p (Some 3) flaky_world) = Inl e \<and>
      \<not> str_includes (message e) ''not found''" by blast
  from inst1[THEN conjunct2, THEN conjunct1] rr rf n3 obtain evs where
    "trace (snd (readFile ?p (Some 3) flaky_world)) = trace flaky_world @ evs"
    "ticks_of read_tick evs = backoff_schedule (\<lambda>attempt. 300 * attempt) 1 3"
    by auto
  then have w2: "ticks_of read_tick (trace (snd (readFile ?p (Some 3) flaky_world))) =
     [Try, Wait 300, Try, Wait 600, Try]"
    by (simp add: st sched)
  have pf: "fst (convertPdfToImage (Some resume_pdf) (Some 3) broken_pdf_browser) = Inr ?res"
    by code_simp
  have rep: "reported ?res" by code_simp
  from inst1[THEN conjunct2, THEN conjunct2, THEN conjunct1] pf rep n3 obtain evs where
    "seen (snd (convertPdfToImage (Some resume_pdf) (Some 3) broken_pdf_browser)) =
       seen broken_pdf_browser @ evs"
    "ticks_of pdf_tick evs = backoff_schedule (\<lambda>attempt. 500 * attempt) 1 3"
    by auto
  then have w3: "ticks_of pdf_tick (seen (snd (convertPdfToImage (Some resume_pdf) (Some 3) broken_pdf_browser))) =
     [Try, Wait 500, Try, Wait 1000, Try]"
    by (simp add: st sched)
  \<comment> \<open>single steps\<close>
  have "fst (uploadFile_try demo_upload_vars flaky_world) = Inl ?e" by code_simp
  then have ut: "uploadFile_try demo_upload_vars flaky_world = (Inl ?e, ?wu1)" by (rule pair_with_snd)
  have utr: "trace ?wu1 = [Save ?p]" by code_simp
  have "fst (readFile_try ?p flaky_world) = Inl ?e" by code_simp
  then have rt: "readFile_try ?p flaky_world = (Inl ?e, ?wr1)" by (rule pair_with_snd)
  have rtr: "trace ?wr1 = [Exists ?p]" by code_simp
  have nf: "\<not> str_includes (message (as_Error ?e)) ''not found''" by code_simp
  have pfst: "fst (attemptPdfConversion (Some resume_pdf) broken_pdf_browser) = Inr ?res" by code_simp
  then have pt: "attemptPdfConversion (Some resume_pdf) broken_pdf_browser = (Inr ?res, ?bp1)"
    by (rule pair_with_snd)
  have ptr: "seen ?bp1 = [AttemptPdfConversion]" by code_simp
  have pe: "pdf_error ?res = Some ?msg \<and> ?msg \<noteq> []" by (simp add: failure_def)
  have mx: "uv_maxRetries demo_upload_vars = 3" "uv_filePath demo_upload_vars = ?p"
    by (simp_all add: demo_upload_vars_def)
  have num: "Number_toString 1 = ''1''" "Number_toString 3 = ''3''" by code_simp+
  have msg: "message (as_Error ?e) = ''socket hang up''" by (simp add: new_Error_def)
  note steps1 = inst1[THEN conjunct2, THEN conjunct2, THEN conjunct2]
  note steps3 = inst3[THEN conjunct2, THEN conjunct2, THEN conjunct2]
  have w4: "\<exists>evs. trace (snd (uploadFile_loop demo_upload_vars 1 None flaky_world)) =
      [Save ?p, ConsoleError [Str ''Upload attempt 1/3 failed:'', Str ''socket hang up''],
       Sleep 500, Save ?p] @ evs"
    using steps1[THEN conjunct1] ut utr mx num msg by simp
  have w5: "trace (snd (uploadFile_loop demo_upload_vars 3 None flaky_world)) =
      [Save ?p, ConsoleError [Str ''Upload attempt 3/3 failed:'', Str ''socket hang up'']]"
    using steps3[THEN conjunct2, THEN conjunct1] ut utr mx num msg by simp
  have w6: "\<exists>evs. trace (snd (readFile_loop ?p 3 1 None flaky_world)) =
      [Exists ?p, ConsoleWarn [Str ''Read attempt 1/3 failed:'', Str ''socket hang up''],
       Sleep 300, Exists ?p] @ evs"
    using steps1[THEN conjunct2, THEN conjunct2, THEN conjunct1] rt rtr nf num msg by simp
  have w7: "trace (snd (readFile_loop ?p 3 3 None flaky_world)) =
      [Exists ?p, ConsoleWarn [Str ''Read attempt 3/3 failed:'', Str ''socket hang up'']]"
    using steps3[THEN conjunct2, THEN conjunct2, THEN conjunct2, THEN conjunct1] rt rtr nf num msg by simp
  have w8: "\<exists>evs. seen (snd (convertPdfToImage_loop (Some resume_pdf) 3 1 None broken_pdf_browser)) =
      [AttemptPdfConversion,
       Warn ''PDF conversion attempt 1 failed: PDF parsing failed: Invalid PDF structure. Retrying...'',
       Delay 500, AttemptPdfConversion] @ evs"
    using steps1[THEN conjunct2, THEN conjunct2, THEN conjunct2, THEN conjunct2, THEN conjunct1]
      pt ptr pe num by simp
  have w9: "fst (convertPdfToImage_loop (Some resume_pdf) 3 3 None broken_pdf_browser) = Inr ?res"
    using steps3[THEN conjunct2, THEN conjunct2, THEN conjunct2, THEN conjunct2, THEN conjunct2] pt pfst
    by simp
  from w1 w2 w3 w4 w5 w6 w7 w8 w9 show ?thesis by blast
qed

text \<open>
  Claim C9. For every file, every retry count and every behaviour of the browser and the PDF
  library, \<open>convertPdfToImage\<close> returns a result and does not throw; the result either carries
  an image file and no error, or it is a failure report: an empty \<open>imageUrl\<close>, a null
  \<open>file\<close> and a non-empty \<open>error\<close>.
\<close>

theorem convertPdfToImage_never_throws:
  "\<exists>res. fst (convertPdfToImage fa mr b) = Inr res \<and> (converted res \<or> reported res)"
proof -
  obtain r b' where run: "convertPdfToImage fa mr b = (r, b')" by force
  from convertPdfToImage_ticks[OF run] show ?thesis by (auto simp: run)
qed

text \<open>An instance: the document that does not parse.\<close>

theorem convertPdfToImage_never_throws_witness:
  "fst (convertPdfToImage (Some resume_pdf) None broken_pdf_browser) =
     Inr (failure ''PDF parsing failed: Invalid PDF structure'') \<and>
   reported (failure ''PDF parsing failed: Invalid PDF structure'')"
proof -
  have r: "fst (convertPdfToImage (Some resume_pdf) None broken_pdf_browser) =
     Inr (failure ''PDF parsing failed: Invalid PDF structure'')" by code_simp
  from convertPdfToImage_never_throws[of "Some resume_pdf" None broken_pdf_browser] r
  have "converted (failure ''PDF parsing failed: Invalid PDF structure'') \<or>
        reported (failure ''PDF parsing failed: Invalid PDF structure'')" by simp
  then have "reported (failure ''PDF parsing failed: Invalid PDF structure'')"
    by (simp add: converted_def failure_def)
  with r show ?thesis by simp
qed

section \<open>Deleting and moving\<close>

lemma ensureInitialized_keeps:
  "ensureInitialized w = (r, w1) \<Longrightarrow>
     objects w1 = objects w \<and> (\<exists>evs. trace w1 = trace w @ evs)"
  by (auto simp: ensureInitialized_def initializeStorage_def Let_def
           split: if_splits prod.splits option.splits dest!: next_fault_fields)

lemma copyFile_made:
  assumes c: "copyFile s d w = (None, w1)"
  shows "\<exists>evs ob c. trace w1 = trace w @ evs @ [Exists s, Copy s d] \<and>
           objects w s = Some ob \<and> objects w1 d = Some c \<and> data c = data ob \<and>
           (\<forall>q. q \<noteq> d \<longrightarrow> objects w1 q = objects w q)"
proof -
  obtain w0 where i: "ensureInitialized w = (None, w0)"
    using c by (auto simp: copyFile_def split: prod.splits option.splits)
  from ensureInitialized_keeps[OF i] obtain evs where
    k: "objects w0 = objects w" "trace w0 = trace w @ evs" by blast
  obtain w2 where x: "gcs_exists s w0 = (Inr True, w2)" and g: "gcs_copy s d w2 = (None, w1)"
    using c i by (auto simp: copyFile_def split: prod.splits option.splits if_splits sum.splits)
  from gcs_exists_fields[OF x] have x2: "trace w2 = trace w0 @ [Exists s]" "objects w2 = objects w0"
    by auto
  from g obtain ob where "objects w2 s = Some ob" "trace w1 = trace w2 @ [Copy s d]"
    "objects w1 = (objects w2)(d \<mapsto> ob\<lparr>timeCreated := now w1, updated := now w1\<rparr>)"
    by (auto simp: gcs_copy_def split: prod.splits option.splits dest!: next_fault_fields)
  with k x2 show ?thesis
    by (intro exI[of _ evs] exI[of _ ob] exI[of _ "ob\<lparr>timeCreated := now w1, updated := now w1\<rparr>"]) auto
qed

lemma deleteFile_ran:
  assumes "storage w" "initializationError w = None" "bucket w" and d: "deleteFile s w = (r, w2)"
  shows "\<exists>evs. trace w2 = trace w @ Exists s # evs \<and> (\<forall>q. q \<noteq> s \<longrightarrow> objects w2 q = objects w q)"
proof -
  have i: "ensureInitialized w = (None, w)" using assms by (simp add: ensureInitialized_again)
  obtain r1 w1 where x: "gcs_exists s w = (r1, w1)" by force
  from gcs_exists_fields[OF x] have x1: "trace w1 = trace w @ [Exists s]" "objects w1 = objects w"
    by auto
  have g: "\<exists>evs. trace w3 = trace w1 @ evs \<and> (\<forall>q. q \<noteq> s \<longrightarrow> objects w3 q = objects w1 q)"
    if "gcs_delete s w1 = (r3, w3)" for r3 w3
    using that by (auto simp: gcs_delete_def split: prod.splits option.splits dest!: next_fault_fields)
  from d i assms(3) x x1 show ?thesis
    by (auto simp: deleteFile_def deleteFile_try_def split: prod.splits option.splits sum.splits if_splits
             dest!: g)
qed

lemma deleteFile_removes:
  assumes "storage w" "initializationError w = None" "bucket w" "objects w s \<noteq> None"
    and f: "faults w = [] \<or> faults w = [None] \<or> (\<exists>fs. faults w = None # None # fs)"
  shows "trace (snd (deleteFile s w)) = trace w @ [Exists s, Delete s] \<and>
         objects (snd (deleteFile s w)) s = None"
proof -
  have i: "ensureInitialized w = (None, w)" using assms by (simp add: ensureInitialized_again)
  from f assms(3,4) show ?thesis
    by (auto simp: deleteFile_def i deleteFile_try_def gcs_exists_def gcs_delete_def next_fault_def emit_def
        split: prod.splits option.splits)
qed

lemma deleteFile_keeps_source:
  assumes "storage w" "initializationError w = None" "bucket w" "objects w s \<noteq> None"
    and f: "\<exists>e fs. faults w = Some e # fs \<or> faults w = None # Some e # fs"
  shows "objects (snd (deleteFile s w)) s \<noteq> None"
proof -
  have i: "ensureInitialized w = (None, w)" using assms by (simp add: ensureInitialized_again)
  from f assms(3,4) show ?thesis
    by (auto simp: deleteFile_def i deleteFile_try_def gcs_exists_def gcs_delete_def next_fault_def emit_def
        split: prod.splits option.splits)
qed

lemma deleteFile_resolves:
  assumes "storage w" "initializationError w = None" "bucket w"
  shows "fst (deleteFile s w) = None"
proof -
  have i: "ensureInitialized w = (None, w)" using assms by (simp add: ensureInitialized_again)
  show ?thesis using assms(3) by (auto simp: deleteFile_def i split: prod.splits option.splits)
qed



text \<open>
  Claim C10. \<open>moveFile\<close> is \<open>copyFile\<close> followed by \<open>deleteFile\<close>. When the copy
  throws, \<open>moveFile\<close> throws the same error and nothing is deleted. When the copy
  succeeds, \<open>moveFile\<close> is the run of \<open>deleteFile\<close> on the source from the state the
  copy left: the copy has been made (the existence check and the \<open>copy\<close> call are in the
  trace, the destination holds the bytes of the source, no other object has changed), then
  \<open>deleteFile\<close> runs (its existence check of the source comes next in the trace, and it
  touches no object but the source), and \<open>moveFile\<close> resolves without an error: with a
  service that answers, the source is deleted; when the existence check or the delete of
  the source fails, the move still resolves and the source is still in the bucket.
\<close>

theorem moveFile_succeeds_when_copy_succeeds:
  "(copyFile sourcePath destinationPath w = (Some e, w1) \<longrightarrow>
      moveFile sourcePath destinationPath w = (Some e, w1)) \<and>
   (copyFile sourcePath destinationPath w = (None, w1) \<longrightarrow>
      moveFile sourcePath destinationPath w = deleteFile sourcePath w1 \<and>
      fst (moveFile sourcePath destinationPath w) = None \<and>
      (\<exists>evs ob c. trace w1 = trace w @ evs @ [Exists sourcePath, Copy sourcePath destinationPath] \<and>
         objects w sourcePath = Some ob \<and> objects w1 destinationPath = Some c \<and>
         data c = data ob \<and>
         (\<forall>q. q \<noteq> destinationPath \<longrightarrow> objects w1 q = objects w q)) \<and>
      (\<exists>evs. trace (snd (moveFile sourcePath destinationPath w)) =
                trace w1 @ Exists sourcePath # evs \<and>
         (\<forall>q. q \<noteq> sourcePath \<longrightarrow>
            objects (snd (moveFile sourcePath destinationPath w)) q = objects w1 q)) \<and>
      (faults w1 = [] \<or> faults w1 = [None] \<or> (\<exists>fs. faults w1 = None # None # fs) \<longrightarrow>
         trace (snd (moveFile sourcePath destinationPath w)) =
           trace w1 @ [Exists sourcePath, Delete sourcePath] \<and>
         objects (snd (moveFile sourcePath destinationPath w)) sourcePath = None) \<and>
      ((\<exists>e fs. faults w1 = Some e # fs \<or> faults w1 = None # Some e # fs) \<longrightarrow>
         objects (snd (moveFile sourcePath destinationPath w)) sourcePath \<noteq> None))"
proof (intro conjI impI)
  assume "copyFile sourcePath destinationPath w = (Some e, w1)"
  then show "moveFile sourcePath destinationPath w = (Some e, w1)" by (simp add: moveFile_def)
next
  assume c: "copyFile sourcePath destinationPath w = (None, w1)"
  from copyFile_ok[OF c] have ok: "storage w1" "initializationError w1 = None" "bucket w1"
    "objects w1 sourcePath \<noteq> None" by auto
  show m: "moveFile sourcePath destinationPath w = deleteFile sourcePath w1"
    by (simp add: moveFile_def c)
  show "fst (moveFile sourcePath destinationPath w) = None"
    unfolding m by (rule deleteFile_resolves[OF ok(1,2,3)])
  show "\<exists>evs ob c. trace w1 = trace w @ evs @ [Exists sourcePath, Copy sourcePath destinationPath] \<and>
         objects w sourcePath = Some ob \<and> objects w1 destinationPath = Some c \<and>
         data c = data ob \<and>
         (\<forall>q. q \<noteq> destinationPath \<longrightarrow> objects w1 q = objects w q)"
    by (rule copyFile_made[OF c])
  obtain r w2 where d: "deleteFile sourcePath w1 = (r, w2)" by force
  from deleteFile_ran[OF ok(1,2,3) d]
  show "\<exists>evs. trace (snd (moveFile sourcePath destinationPath w)) =
                trace w1 @ Exists sourcePath # evs \<and>
         (\<forall>q. q \<noteq> sourcePath \<longrightarrow>
            objects (snd (moveFile sourcePath destinationPath w)) q = objects w1 q)"
    unfolding m d snd_conv .
  {
    assume "faults w1 = [] \<or> faults w1 = [None] \<or> (\<exists>fs. faults w1 = None # None # fs)"
    from deleteFile_removes[OF ok this]
    show "trace (snd (moveFile sourcePath destinationPath w)) =
           trace w1 @ [Exists sourcePath, Delete sourcePath]"
      and "objects (snd (moveFile sourcePath destinationPath w)) sourcePath = None"
      unfolding m by simp_all
  }
  {
    assume "\<exists>e fs. faults w1 = Some e # fs \<or> faults w1 = None # Some e # fs"
    from deleteFile_keeps_source[OF ok this]
    show "objects (snd (moveFile sourcePath destinationPath w)) sourcePath \<noteq> None"
      unfolding m .
  }
qed

text \<open>
  Instances: the copy is made and the delete is rejected (the source is still there); the
  copy is made and the source is deleted; the source is not in the bucket and the copy fails.
\<close>

theorem moveFile_succeeds_witness:
  "fst (moveFile ''users/u1/f1.pdf'' ''archive/f1.pdf'' stuck_world) = None \<and>
   (\<exists>evs. trace (snd (moveFile ''users/u1/f1.pdf'' ''archive/f1.pdf'' stuck_world)) =
      [Exists ''users/u1/f1.pdf'', Copy ''users/u1/f1.pdf'' ''archive/f1.pdf'',
       Exists ''users/u1/f1.pdf''] @ evs) \<and>
   objects (snd (moveFile ''users/u1/f1.pdf'' ''archive/f1.pdf'' stuck_world)) ''users/u1/f1.pdf'' \<noteq> None \<and>
   map_option data (objects (snd (moveFile ''users/u1/f1.pdf'' ''archive/f1.pdf'' stuck_world))
      ''archive/f1.pdf'') = Some [37, 80, 68, 70] \<and>
   fst (moveFile ''users/u1/f1.pdf'' ''archive/f1.pdf'' (stuck_world\<lparr>faults := []\<rparr>)) = None \<and>
   trace (snd (moveFile ''users/u1/f1.pdf'' ''archive/f1.pdf'' (stuck_world\<lparr>faults := []\<rparr>))) =
      [Exists ''users/u1/f1.pdf'', Copy ''users/u1/f1.pdf'' ''archive/f1.pdf'',
       Exists ''users/u1/f1.pdf'', Delete ''users/u1/f1.pdf''] \<and>
   objects (snd (moveFile ''users/u1/f1.pdf'' ''archive/f1.pdf'' (stuck_world\<lparr>faults := []\<rparr>)))
      ''users/u1/f1.pdf'' = None \<and>
   map_option data (objects (snd (moveFile ''users/u1/f1.pdf'' ''archive/f1.pdf'' (stuck_world\<lparr>faults := []\<rparr>)))
      ''archive/f1.pdf'') = Some [37, 80, 68, 70] \<and>
   fst (moveFile ''users/u1/f1.pdf'' ''archive/f1.pdf'' ready_world) =
     Some (new_Error ''Source file not found'')"
proof -
  let ?s = "''users/u1/f1.pdf''" and ?d = "''archive/f1.pdf''"
  let ?e = "new_Error ''Source file not found''"
  let ?calm = "stuck_world\<lparr>faults := []\<rparr>"
  let ?c = "copyFile ?s ?d stuck_world"
  let ?c2 = "copyFile ?s ?d ?calm"
  let ?c3 = "copyFile ?s ?d ready_world"
  have sd: "?d \<noteq> ?s" by simp
  have ob: "objects stuck_world ?s = Some stored_object" "objects ?calm ?s = Some stored_object"
    "trace stuck_world = []" "trace ?calm = []" "data stored_object = [37, 80, 68, 70]"
    by (simp_all add: stuck_world_def ready_world_def stored_object_def)
  \<comment> \<open>the copy is made and the delete is rejected\<close>
  have "fst ?c = None" by code_simp
  then have c: "?c = (None, snd ?c)" by (rule pair_with_snd)
  have "faults (snd ?c) = [None, Some (new_Error ''503 Service Unavailable'')]" by code_simp
  then have f: "\<exists>e fs. faults (snd ?c) = Some e # fs \<or> faults (snd ?c) = None # Some e # fs"
    by simp
  have quiet: "trace (snd ?c) = [Exists ?s, Copy ?s ?d]" by code_simp
  note a = moveFile_succeeds_when_copy_succeeds[of ?s ?d stuck_world ?e "snd ?c",
       THEN conjunct2, THEN mp, OF c]
  note a_fst = a[THEN conjunct2, THEN conjunct1]
  note a_copy = a[THEN conjunct2, THEN conjunct2, THEN conjunct1]
  note a_del = a[THEN conjunct2, THEN conjunct2, THEN conjunct2, THEN conjunct1]
  note a_fault = a[THEN conjunct2, THEN conjunct2, THEN conjunct2, THEN conjunct2, THEN conjunct2, THEN mp, OF f]
  from a_fst have a1: "fst (moveFile ?s ?d stuck_world) = None" .
  from a_del obtain evs where
    ad: "trace (snd (moveFile ?s ?d stuck_world)) = trace (snd ?c) @ Exists ?s # evs"
        "\<forall>q. q \<noteq> ?s \<longrightarrow> objects (snd (moveFile ?s ?d stuck_world)) q = objects (snd ?c) q"
    by blast
  from ad(1) have a2: "\<exists>evs. trace (snd (moveFile ?s ?d stuck_world)) =
      [Exists ?s, Copy ?s ?d, Exists ?s] @ evs" unfolding quiet by simp
  from a_fault have a3: "objects (snd (moveFile ?s ?d stuck_world)) ?s \<noteq> None" .
  from a_copy obtain ob0 c0 where ac: "objects stuck_world ?s = Some ob0"
    "objects (snd ?c) ?d = Some c0" "data c0 = data ob0" by blast
  from ac(1) ob(1) have "ob0 = stored_object" by simp
  moreover from ad(2)[rule_format, OF sd]
  have "objects (snd (moveFile ?s ?d stuck_world)) ?d = objects (snd ?c) ?d" .
  ultimately have a4: "map_option data (objects (snd (moveFile ?s ?d stuck_world)) ?d) =
      Some [37, 80, 68, 70]" using ac(2,3) ob(5) by simp
  \<comment> \<open>the copy is made and the source is deleted\<close>
  have "fst ?c2 = None" by code_simp
  then have c2: "?c2 = (None, snd ?c2)" by (rule pair_with_snd)
  have f2: "faults (snd ?c2) = []" by code_simp
  have quiet2: "trace (snd ?c2) = [Exists ?s, Copy ?s ?d]" by code_simp
  note b = moveFile_succeeds_when_copy_succeeds[of ?s ?d ?calm ?e "snd ?c2",
       THEN conjunct2, THEN mp, OF c2]
  have f2': "faults (snd ?c2) = [] \<or> faults (snd ?c2) = [None] \<or>
      (\<exists>fs. faults (snd ?c2) = None # None # fs)" using f2 by simp
  note b_fst = b[THEN conjunct2, THEN conjunct1]
  note b_copy = b[THEN conjunct2, THEN conjunct2, THEN conjunct1]
  note b_del = b[THEN conjunct2, THEN conjunct2, THEN conjunct2, THEN conjunct1]
  note b_calm = b[THEN conjunct2, THEN conjunct2, THEN conjunct2, THEN conjunct2, THEN conjunct1, THEN mp, OF f2']
  from b_fst have b1: "fst (moveFile ?s ?d ?calm) = None" .
  from b_calm[THEN conjunct1] have b2: "trace (snd (moveFile ?s ?d ?calm)) =
      [Exists ?s, Copy ?s ?d, Exists ?s, Delete ?s]" unfolding quiet2 by simp
  from b_calm[THEN conjunct2] have b3: "objects (snd (moveFile ?s ?d ?calm)) ?s = None" .
  from b_del obtain evs where
    bd: "\<forall>q. q \<noteq> ?s \<longrightarrow> objects (snd (moveFile ?s ?d ?calm)) q = objects (snd ?c2) q"
    by blast
  from b_copy obtain ob1 c1 where bc: "objects ?calm ?s = Some ob1"
    "objects (snd ?c2) ?d = Some c1" "data c1 = data ob1" by blast
  from bc(1) ob(2) have "ob1 = stored_object" by simp
  moreover from bd[rule_format, OF sd]
  have "objects (snd (moveFile ?s ?d ?calm)) ?d = objects (snd ?c2) ?d" .
  ultimately have b4: "map_option data (objects (snd (moveFile ?s ?d ?calm)) ?d) =
      Some [37, 80, 68, 70]" using bc(2,3) ob(5) by simp
  \<comment> \<open>the copy fails\<close>
  have "fst ?c3 = Some ?e" by code_simp
  then have c3: "?c3 = (Some ?e, snd ?c3)" by (rule pair_with_snd)
  from moveFile_succeeds_when_copy_succeeds[of ?s ?d ready_world ?e "snd ?c3",
       THEN conjunct1, THEN mp, OF c3]
  have d1: "fst (moveFile ?s ?d ready_world) = Some ?e" by simp
  from a1 a2 a3 a4 b1 b2 b3 b4 d1 show ?thesis by (intro conjI)
qed

section \<open>The callback handler and the trial tracker\<close>





lemma TrialTracker_shows_remaining:
  "isAuthenticated store \<Longrightarrow>
     \<exists>v. TrialTracker props store = Some v \<and> displayed_remaining (status v) = t_remaining (trial store)"
  by (simp add: TrialTracker_def Let_def)





section \<open>Seeding and migrating twice\<close>

lemma length_update_first [simp]: "length (update_first P f xs) = length xs"
  by (induction xs) simp_all

lemma find_update_first:
  assumes "\<And>x. Q (f x) = Q x" "\<And>x. g (f x) = g x"
  shows "map_option g (find Q (update_first P f xs)) = map_option g (find Q xs)"
  by (induction xs) (simp_all add: assms)

lemma find_append: "find Q (xs @ ys) = (case find Q xs of None \<Rightarrow> find Q ys | Some x \<Rightarrow> Some x)"
  by (induction xs) simp_all

lemma email_id_update_name:
  "email_id e (update_first P (\<lambda>r. r\<lparr>u_name := n\<rparr>) rows) = email_id e rows"
  unfolding email_id_def by (rule find_update_first) simp_all

lemma kv_present_update_value:
  "kv_present k uid (update_first P (\<lambda>r. r\<lparr>kv_value := v\<rparr>) rows) = kv_present k uid rows"
proof -
  have "map_option kv_id (find (\<lambda>r. kv_key r = k \<and> kv_user_id r = Some uid)
          (update_first P (\<lambda>r. r\<lparr>kv_value := v\<rparr>) rows)) =
        map_option kv_id (find (\<lambda>r. kv_key r = k \<and> kv_user_id r = Some uid) rows)"
    by (rule find_update_first) simp_all
  then have "(map_option kv_id (find (\<lambda>r. kv_key r = k \<and> kv_user_id r = Some uid)
          (update_first P (\<lambda>r. r\<lparr>kv_value := v\<rparr>) rows)) = None) =
        (map_option kv_id (find (\<lambda>r. kv_key r = k \<and> kv_user_id r = Some uid) rows) = None)"
    by simp
  then show ?thesis unfolding kv_present_def by simp
qed

lemma insert_user_cases:
  assumes "insert_user uuid name email tier tu mtu db = (Inr row, db1)"
  shows "(\<exists>r. find (\<lambda>r. u_email r = Some email) (users db) = Some r \<and> row = r\<lparr>u_name := name\<rparr> \<and>
            users db1 = update_first (\<lambda>r. u_email r = Some email) (\<lambda>r. r\<lparr>u_name := name\<rparr>) (users db)) \<or>
         (find (\<lambda>r. u_email r = Some email) (users db) = None \<and> u_email row = Some email \<and>
            users db1 = users db @ [row])"
    and "resumes db1 = resumes db" and "sessions db1 = sessions db" and "kv_store db1 = kv_store db"
  using assms by (auto simp: insert_user_def Let_def split: option.splits)

lemma insert_user_facts:
  assumes "insert_user uuid name email tier tu mtu db = (Inr row, db1)"
  shows "email_id email (users db1) = Some (u_id row)"
    and "email_id e (users db) \<noteq> None \<Longrightarrow> email_id e (users db1) = email_id e (users db)"
    and "email_id email (users db) \<noteq> None \<Longrightarrow> length (users db1) = length (users db)"
proof -
  from insert_user_cases(1)[OF assms] consider
    (updated) r where "find (\<lambda>r. u_email r = Some email) (users db) = Some r" "row = r\<lparr>u_name := name\<rparr>"
      "users db1 = update_first (\<lambda>r. u_email r = Some email) (\<lambda>r. r\<lparr>u_name := name\<rparr>) (users db)"
  | (inserted) "find (\<lambda>r. u_email r = Some email) (users db) = None" "u_email row = Some email"
      "users db1 = users db @ [row]" by auto
  then have "email_id email (users db1) = Some (u_id row) \<and>
     (email_id e (users db) \<noteq> None \<longrightarrow> email_id e (users db1) = email_id e (users db)) \<and>
     (email_id email (users db) \<noteq> None \<longrightarrow> length (users db1) = length (users db))"
  proof cases
    case updated
    have "email_id email (users db) = Some (u_id row)"
      using updated(1,2) by (simp add: email_id_def)
    with updated(3) show ?thesis by (simp add: email_id_update_name)
  next
    case inserted
    then show ?thesis by (auto simp: email_id_def find_append split: option.splits)
  qed
  then show "email_id email (users db1) = Some (u_id row)"
    and "email_id e (users db) \<noteq> None \<Longrightarrow> email_id e (users db1) = email_id e (users db)"
    and "email_id email (users db) \<noteq> None \<Longrightarrow> length (users db1) = length (users db)" by blast+
qed

lemma insert_resume_facts:
  assumes "insert_resume uid a b c d e f db = (None, db1)"
  shows "users db1 = users db" "sessions db1 = sessions db" "kv_store db1 = kv_store db"
        "length (resumes db1) = Suc (length (resumes db))"
  using assms by (auto simp: insert_resume_def Let_def split: option.splits)

lemma insert_session_facts:
  assumes "insert_session uid tok ex db = (None, db1)"
  shows "users db1 = users db" "resumes db1 = resumes db" "kv_store db1 = kv_store db"
        "length (sessions db1) = Suc (length (sessions db))"
  using assms by (auto simp: insert_session_def Let_def split: option.splits)

lemma upsert_kv_facts:
  assumes "upsert_kv k v uid db = (None, db1)"
  shows "users db1 = users db" "resumes db1 = resumes db" "sessions db1 = sessions db"
    and "kv_present k uid (kv_store db1)"
    and "kv_present k' uid' (kv_store db) \<Longrightarrow> kv_present k' uid' (kv_store db1)"
    and "kv_present k uid (kv_store db) \<Longrightarrow> length (kv_store db1) = length (kv_store db)"
proof -
  show "users db1 = users db" "resumes db1 = resumes db" "sessions db1 = sessions db"
    using assms by (auto simp: upsert_kv_def Let_def split: option.splits)
  consider (updated) "kv_present k uid (kv_store db)"
      "kv_store db1 = update_first (\<lambda>r. kv_key r = k \<and> kv_user_id r = Some uid)
                                      (\<lambda>r. r\<lparr>kv_value := v\<rparr>) (kv_store db)"
    | (inserted) "\<not> kv_present k uid (kv_store db)"
      "kv_store db1 = kv_store db @ [\<lparr>kv_id = kv_store_id_seq db + 1, kv_key = k, kv_value = v, kv_user_id = Some uid\<rparr>]"
    using assms by (auto simp: upsert_kv_def Let_def kv_present_def split: option.splits)
  then have "kv_present k uid (kv_store db1) \<and>
     (kv_present k' uid' (kv_store db) \<longrightarrow> kv_present k' uid' (kv_store db1)) \<and>
     (kv_present k uid (kv_store db) \<longrightarrow> length (kv_store db1) = length (kv_store db))"
  proof cases
    case updated
    then show ?thesis by (simp add: kv_present_update_value)
  next
    case inserted
    then show ?thesis by (auto simp: kv_present_def find_append split: option.splits)
  qed
  then show "kv_present k uid (kv_store db1)"
    and "kv_present k' uid' (kv_store db) \<Longrightarrow> kv_present k' uid' (kv_store db1)"
    and "kv_present k uid (kv_store db) \<Longrightarrow> length (kv_store db1) = length (kv_store db)" by blast+
qed

lemma create_resumes_facts:
  "create_resumes rs db = (None, db1) \<Longrightarrow>
     users db1 = users db \<and> sessions db1 = sessions db \<and> kv_store db1 = kv_store db \<and>
     length (resumes db1) = length (resumes db) + length rs"
proof (induction rs arbitrary: db)
  case Nil
  then show ?case by simp
next
  case (Cons r rs)
  from Cons.prems obtain da where
    a: "insert_resume (sr_user_id r) (sr_file_name r) (sr_file_path r) (sr_file_size r)
             (sr_mime_type r) (sr_ats_score r) (sr_analysis_data r) db = (None, da)"
    and b: "create_resumes rs da = (None, db1)"
    by (auto split: prod.splits option.splits)
  from insert_resume_facts[OF a] Cons.IH[OF b] show ?case by simp
qed

lemma create_sessions_facts:
  "create_sessions inp k us db = (None, db1) \<Longrightarrow>
     users db1 = users db \<and> resumes db1 = resumes db \<and> kv_store db1 = kv_store db \<and>
     length (sessions db1) = length (sessions db) + length us"
proof (induction us arbitrary: db k)
  case Nil
  then show ?case by simp
next
  case (Cons u us)
  from Cons.prems obtain da where
    a: "insert_session (u_id u) (''test_session_'' @ randomUUID inp k)
             (date_now inp + 7 * 24 * 60 * 60 * 1000) db = (None, da)"
    and b: "create_sessions inp (k + 1) us da = (None, db1)"
    by (auto split: prod.splits option.splits)
  from insert_session_facts[OF a] Cons.IH[OF b] show ?case by simp
qed

lemma create_users_facts:
  assumes "create_users (testUsers inp) [] db = (Inr created, db1)"
  shows "length created = 3"
    and "email_id ''john@example.com'' (users db1) = Some (u_id (created ! 0))"
    and "email_id ''jane@example.com'' (users db1) \<noteq> None"
    and "email_id ''test@example.com'' (users db1) \<noteq> None"
    and "resumes db1 = resumes db" and "sessions db1 = sessions db" and "kv_store db1 = kv_store db"
    and "email_id ''john@example.com'' (users db) \<noteq> None \<Longrightarrow>
         email_id ''jane@example.com'' (users db) \<noteq> None \<Longrightarrow>
         email_id ''test@example.com'' (users db) \<noteq> None \<Longrightarrow>
           length (users db1) = length (users db) \<and>
           email_id ''john@example.com'' (users db1) = email_id ''john@example.com'' (users db)"
proof -
  from assms obtain r0 r1 r2 da dc where
    i0: "insert_user (randomUUID inp 0) ''John Developer'' ''john@example.com'' ''free'' 1 3 db = (Inr r0, da)"
    and i1: "insert_user (randomUUID inp 1) ''Jane Engineer'' ''jane@example.com'' ''pro'' 3 3 da = (Inr r1, dc)"
    and i2: "insert_user (randomUUID inp 2) ''Test User'' ''test@example.com'' ''free'' 0 3 dc = (Inr r2, db1)"
    and c: "created = [r0, r1, r2]"
    by (auto simp: testUsers_def split: prod.splits sum.splits)
  note f0 = insert_user_facts[OF i0] and f1 = insert_user_facts[OF i1] and f2 = insert_user_facts[OF i2]
  note g0 = insert_user_cases(2-)[OF i0] and g1 = insert_user_cases(2-)[OF i1] and g2 = insert_user_cases(2-)[OF i2]
  show "length created = 3" by (simp add: c)
  have j: "email_id ''john@example.com'' (users da) = Some (u_id r0)" by (rule f0(1))
  then have "email_id ''john@example.com'' (users dc) = Some (u_id r0)" using f1(2) by simp
  then have j3: "email_id ''john@example.com'' (users db1) = Some (u_id r0)" using f2(2) by simp
  then show "email_id ''john@example.com'' (users db1) = Some (u_id (created ! 0))" by (simp add: c)
  have "email_id ''jane@example.com'' (users dc) \<noteq> None" using f1(1) by simp
  then show "email_id ''jane@example.com'' (users db1) \<noteq> None" using f2(2) by simp
  show "email_id ''test@example.com'' (users db1) \<noteq> None" using f2(1) by simp
  show "resumes db1 = resumes db" "sessions db1 = sessions db" "kv_store db1 = kv_store db"
    using g0 g1 g2 by simp_all
  show "length (users db1) = length (users db) \<and>
           email_id ''john@example.com'' (users db1) = email_id ''john@example.com'' (users db)"
    if a: "email_id ''john@example.com'' (users db) \<noteq> None"
       "email_id ''jane@example.com'' (users db) \<noteq> None"
       "email_id ''test@example.com'' (users db) \<noteq> None"
  proof -
    have l0: "length (users da) = length (users db)" using f0(3) a(1) by simp
    have "email_id ''jane@example.com'' (users da) \<noteq> None" using f0(2)[of "''jane@example.com''"] a(2) by simp
    then have l1: "length (users dc) = length (users da)" using f1(3) by simp
    have "email_id ''test@example.com'' (users da) \<noteq> None" using f0(2)[of "''test@example.com''"] a(3) by simp
    then have "email_id ''test@example.com'' (users dc) \<noteq> None" using f1(2)[of "''test@example.com''"] by simp
    then have l2: "length (users db1) = length (users dc)" using f2(3) by simp
    have "email_id ''john@example.com'' (users da) = email_id ''john@example.com'' (users db)"
      using f0(2) a(1) by simp
    with j j3 l0 l1 l2 show ?thesis by simp
  qed
qed

lemma seedData_steps:
  assumes "seedData inp db = (None, db')"
  obtains created d1 d2 d3 d4 where
    "create_users (testUsers inp) [] db = (Inr created, d1)"
    "create_resumes (sampleResumes created) d1 = (None, d2)"
    "create_sessions inp 3 created d2 = (None, d3)"
    "upsert_kv ''last_analysis_date'' (iso_now inp) (u_id (created ! 0)) d3 = (None, d4)"
    "upsert_kv ''preferences'' ''{\"theme\":\"dark\",\"notifications\":true}'' (u_id (created ! 0)) d4 = (None, db')"
  using assms unfolding seedData_def
  by (auto split: prod.splits sum.splits option.splits)

lemma seedData_counts:
  assumes "seedData inp db = (None, db')"
  shows "length (resumes db') = length (resumes db) + 3"
    and "length (sessions db') = length (sessions db) + 3"
    and "seeded db'"
    and "seeded db \<Longrightarrow> length (users db') = length (users db) \<and> length (kv_store db') = length (kv_store db)"
proof -
  from seedData_steps[OF assms] obtain created d1 d2 d3 d4 where s:
    "create_users (testUsers inp) [] db = (Inr created, d1)"
    "create_resumes (sampleResumes created) d1 = (None, d2)"
    "create_sessions inp 3 created d2 = (None, d3)"
    "upsert_kv ''last_analysis_date'' (iso_now inp) (u_id (created ! 0)) d3 = (None, d4)"
    "upsert_kv ''preferences'' ''{\"theme\":\"dark\",\"notifications\":true}'' (u_id (created ! 0)) d4 = (None, db')"
    by blast
  note u = create_users_facts[OF s(1)]
  note r = create_resumes_facts[OF s(2)]
  note e = create_sessions_facts[OF s(3)]
  note k1 = upsert_kv_facts[OF s(4)]
  note k2 = upsert_kv_facts[OF s(5)]
  have lr: "length (sampleResumes created) = 3" by (simp add: sampleResumes_def)
  show "length (resumes db') = length (resumes db) + 3"
    using u(5) r e k1(2) k2(2) lr by simp
  show "length (sessions db') = length (sessions db) + 3"
    using u(1,6) r e k1(3) k2(3) by simp
  have us: "users db' = users d1" using r e k1(1) k2(1) by simp
  have kv3: "kv_store d3 = kv_store db" using u(7) r e by simp
  show "seeded db'"
    using u(2,3,4) us k1(4) k2(4) k2(5)[of "''last_analysis_date''" "u_id (created ! 0)"]
    by (simp add: seeded_def)
  show "length (users db') = length (users db) \<and> length (kv_store db') = length (kv_store db)"
    if sd: "seeded db"
  proof -
    from sd obtain john where j: "email_id ''john@example.com'' (users db) = Some john"
      "email_id ''jane@example.com'' (users db) \<noteq> None"
      "email_id ''test@example.com'' (users db) \<noteq> None"
      "kv_present ''last_analysis_date'' john (kv_store db)"
      "kv_present ''preferences'' john (kv_store db)"
      by (auto simp: seeded_def split: option.splits)
    from u(8) j have ul: "length (users d1) = length (users db)"
      and "email_id ''john@example.com'' (users d1) = Some john" by simp_all
    with u(2) have id: "u_id (created ! 0) = john" by simp
    have "length (kv_store d4) = length (kv_store d3)"
      using k1(6) j(4) kv3 id by simp
    moreover have "kv_present ''preferences'' john (kv_store d4)"
      using k1(5)[of "''preferences''" john] j(5) kv3 by simp
    then have "length (kv_store db') = length (kv_store d4)"
      using k2(6) id by simp
    ultimately show ?thesis using ul us kv3 by simp
  qed
qed

lemma query_rows: "query s db = (r, db1) \<Longrightarrow> row_count db1 t = row_count db t"
  by (cases s) (auto simp: row_count_def split: if_splits option.splits)

lemma run_statements_rows: "run_statements ss db = (r, db1) \<Longrightarrow> row_count db1 t = row_count db t"
proof (induction ss arbitrary: db)
  case Nil
  then show ?case by simp
next
  case (Cons s ss)
  obtain q da where q: "query s db = (q, da)" by force
  note qr = query_rows[OF q, of t]
  show ?case
  proof (cases "\<exists>msg. q = Some msg \<and> \<not> str_includes msg ''already exists''")
    case True
    with Cons.prems q have "db1 = da" by auto
    with qr show ?thesis by simp
  next
    case False
    with Cons.prems q have "run_statements ss da = (r, db1)" by (auto split: option.splits)
    from Cons.IH[OF this] qr show ?thesis by simp
  qed
qed

lemma runMigrations_rows:
  "list_all guarded ms \<Longrightarrow> runMigrations ms db = (logs, db1) \<Longrightarrow> row_count db1 t = row_count db t"
proof (induction ms arbitrary: db logs)
  case Nil
  then show ?case by simp
next
  case (Cons m ms)
  from Cons.prems(1) obtain ss where m: "m = Statements ss" and rest: "list_all guarded ms"
    by (cases m) auto
  obtain r da where s: "run_statements ss db = (r, da)" by force
  obtain logs' db' where n: "runMigrations ms da = (logs', db')" by force
  from Cons.prems(2) m s n have "db' = db1" by (auto split: option.splits)
  with n have "runMigrations ms da = (logs', db1)" by simp
  from Cons.IH[OF rest this] run_statements_rows[OF s, of t] show ?case by simp
qed

text \<open>
  Claim C6, as the code has it. When the seed script has run and runs again, the tables
  \<open>users\<close> and \<open>kv_store\<close> keep their numbers of rows (their inserts name a unique
  constraint to resolve the conflict on), while \<open>resumes\<close> and \<open>sessions\<close> each gain three
  rows. A second run of the migrations, when the two files not at hand are made of guarded
  statements as the two at hand are, leaves the number of rows of every table as the first
  run left it.
\<close>

theorem seed_and_migrate_again:
  "(seedData inp1 db = (None, db1) \<and> seedData inp2 db1 = (None, db2) \<longrightarrow>
      length (users db2) = length (users db1) \<and>
      length (kv_store db2) = length (kv_store db1) \<and>
      length (resumes db2) = length (resumes db1) + 3 \<and>
      length (sessions db2) = length (sessions db1) + 3) \<and>
   (guarded add_uuid_column \<and> guarded add_gcs_url_to_resumes \<longrightarrow>
      row_count
        (snd (runMigrations (migrations add_uuid_column add_gcs_url_to_resumes)
           (snd (runMigrations (migrations add_uuid_column add_gcs_url_to_resumes) cat)))) t =
      row_count (snd (runMigrations (migrations add_uuid_column add_gcs_url_to_resumes) cat)) t)"
proof (intro conjI impI)
  assume a: "seedData inp1 db = (None, db1) \<and> seedData inp2 db1 = (None, db2)"
  from seedData_counts(3)[of inp1 db db1] a have "seeded db1" by simp
  with seedData_counts[of inp2 db1 db2] a
  show "length (users db2) = length (users db1)" "length (kv_store db2) = length (kv_store db1)"
      "length (resumes db2) = length (resumes db1) + 3"
      "length (sessions db2) = length (sessions db1) + 3" by simp_all
next
  let ?ms = "migrations add_uuid_column add_gcs_url_to_resumes"
  assume "guarded add_uuid_column \<and> guarded add_gcs_url_to_resumes"
  then have g: "list_all guarded ?ms" by (simp add: migrations_def)
  obtain logs cat2 where r: "runMigrations ?ms (snd (runMigrations ?ms cat)) = (logs, cat2)" by force
  from runMigrations_rows[OF g r, of t] r
  show "row_count (snd (runMigrations ?ms (snd (runMigrations ?ms cat)))) t =
      row_count (snd (runMigrations ?ms cat)) t" by simp
qed

text \<open>An instance: two runs of the seed script from an empty database, and two runs of the migrations on an empty catalog.\<close>

theorem seed_and_migrate_again_witness:
  "length (users seeded_twice) = length (users seeded_once) \<and>
   length (kv_store seeded_twice) = length (kv_store seeded_once) \<and>
   length (resumes seeded_twice) = length (resumes seeded_once) + 3 \<and>
   length (sessions seeded_twice) = length (sessions seeded_once) + 3 \<and>
   row_count
     (snd (runMigrations (migrations (Statements []) (Statements []))
        (snd (runMigrations (migrations (Statements []) (Statements [])) empty_catalog)))) ''users'' =
   row_count (snd (runMigrations (migrations (Statements []) (Statements [])) empty_catalog)) ''users''"
proof -
  have "fst (seedData first_inputs empty_database) = None" by code_simp
  then have 1: "seedData first_inputs empty_database = (None, seeded_once)"
    unfolding seeded_once_def by (rule pair_with_snd)
  have "fst (seedData second_inputs seeded_once) = None" by code_simp
  then have 2: "seedData second_inputs seeded_once = (None, seeded_twice)"
    unfolding seeded_twice_def by (rule pair_with_snd)
  have h1: "seedData first_inputs empty_database = (None, seeded_once) \<and>
            seedData second_inputs seeded_once = (None, seeded_twice)" using 1 2 by simp
  have h2: "guarded (Statements []) \<and> guarded (Statements [])" by simp
  note inst = seed_and_migrate_again[of first_inputs empty_database seeded_once second_inputs seeded_twice
      "Statements []" "Statements []" empty_catalog "''users''"]
  from inst[THEN conjunct1, THEN mp, OF h1] inst[THEN conjunct2, THEN mp, OF h2]
  show ?thesis by simp
qed

text \<open>
  Claim C6 as stated fails: two runs of the seed script from an empty database leave six
  resumes and six sessions where the first run left three of each.
\<close>

theorem seed_twice_duplicates_resumes_and_sessions:
  "fst (seedData first_inputs empty_database) = None \<and>
   fst (seedData second_inputs seeded_once) = None \<and>
   length (resumes seeded_once) = 3 \<and> length (resumes seeded_twice) = 6 \<and>
   length (sessions seeded_once) = 3 \<and> length (sessions seeded_twice) = 6"
  by code_simp

end
